theory Spec2Isabelle
  imports Main "HOL-Library.AList"
begin

section \<open>Python values, errors and dictionaries\<close>

text \<open>
  Row values are the strings of the instance data, the list produced for an iterable
  attribute, the date object produced for a date attribute, or \<open>None\<close>.
  A dictionary that the code iterates over or builds by assignment is an association list
  in insertion order (\<open>AList.update\<close> replaces the value of a present key in place and
  appends a new key at the end, as assignment to a Python dictionary does); a dictionary
  that is only subscripted is a map.
\<close>

type_synonym datetime = "nat \<times> nat \<times> nat \<times> nat \<times> nat \<times> nat"

datatype val = VNone | VStr string | VList "string list" | VDate datetime

datatype pyerr =
  KeyError | IndexError | TypeError | ValueError | AttributeError | StopIteration | UnboundLocalError

datatype logev = LogException string | LogError string | LogWarning string

type_synonym row = "(string \<times> val) list"

type_synonym tabledata = "(string \<times> row list) list"

definition dict_update :: "('k \<times> 'v) list \<Rightarrow> ('k \<times> 'v) list \<Rightarrow> ('k \<times> 'v) list" where
  "dict_update m d = fold (\<lambda>kv acc. AList.update (fst kv) (snd kv) acc) d m"

fun starts_with :: "string \<Rightarrow> string \<Rightarrow> bool" where
  "starts_with [] s = True"
| "starts_with (p # ps) [] = False"
| "starts_with (p # ps) (c # cs) = (p = c \<and> starts_with ps cs)"

text \<open>The test \<^verbatim>\<open>sub in s\<close> on two Python strings.\<close>

fun str_in :: "string \<Rightarrow> string \<Rightarrow> bool" where
  "str_in sub [] = (sub = [])"
| "str_in sub (c # cs) = (starts_with sub (c # cs) \<or> str_in sub cs)"

text \<open>\<^verbatim>\<open>value.replace(a, b, 1)\<close> for one-character \<open>a\<close> and \<open>b\<close>.\<close>

fun replace_first :: "char \<Rightarrow> char \<Rightarrow> string \<Rightarrow> string" where
  "replace_first a b [] = []"
| "replace_first a b (c # cs) = (if c = a then b # cs else c # replace_first a b cs)"

text \<open>
  \<^verbatim>\<open>val.split(sep)\<close>: an empty separator raises \<open>ValueError\<close>; otherwise the string is cut
  at the leftmost non-overlapping occurrences of the separator.
\<close>

function split_acc :: "string \<Rightarrow> string \<Rightarrow> string \<Rightarrow> string list" where
  "split_acc sep cur [] = [rev cur]"
| "split_acc sep cur (c # cs) =
     (if sep \<noteq> [] \<and> starts_with sep (c # cs)
      then rev cur # split_acc sep [] (drop (length sep - 1) cs)
      else split_acc sep (c # cur) cs)"
  by pat_completeness auto
termination
  by (relation "measure (\<lambda>(sep, cur, s). length s)") auto

definition py_split :: "string \<Rightarrow> string \<Rightarrow> pyerr + string list" where
  "py_split s sep = (if sep = [] then Inl ValueError else Inr (split_acc sep [] s))"

definition is_space :: "char \<Rightarrow> bool" where
  "is_space c = (c \<in> set [CHR '' '', CHR 0x09, CHR 0x0A, CHR 0x0B, CHR 0x0C, CHR 0x0D,
                             CHR 0x1C, CHR 0x1D, CHR 0x1E, CHR 0x1F, CHR 0x85, CHR 0xA0])"

definition py_strip :: "string \<Rightarrow> string" where
  "py_strip s = rev (dropWhile is_space (rev (dropWhile is_space s)))"

section \<open>SchemaDefDataPrep: the data mapper\<close>

subsection \<open>Date assignment\<close>

text \<open>
  \<^verbatim>\<open>__assignDateType\<close>. The parser \<^verbatim>\<open>dateutil.parser.parse\<close> is a library outside the
  repository: it is the parameter \<open>parse\<close>, \<open>None\<close> when it raises. The local
  \<^verbatim>\<open>value\<close> is rebound to the string with its first colon replaced before the parser is
  called, and that rebound string is what the final \<^verbatim>\<open>return value\<close> gives back.
\<close>

definition assignDateType :: "(string \<Rightarrow> datetime option) \<Rightarrow> string \<Rightarrow> string \<Rightarrow> val \<times> logev list" where
  "assignDateType parse atId value =
     (let value' = replace_first (CHR '':'') (CHR '' '') value in
      case parse value' of
        Some d \<Rightarrow> (VDate d, [])
      | None \<Rightarrow> (VStr value', [LogException (atId @ '' '' @ value')]))"

text \<open>
  An instance of the parser parameter for concrete evaluations: it accepts exactly the two
  documented formats, \<^verbatim>\<open>yyyy-mm-dd\<close> and \<^verbatim>\<open>yyyy-mm-dd hh:mm:ss\<close>, with fields in range.
\<close>

definition digit_of :: "char \<Rightarrow> nat option" where
  "digit_of c = (if c \<in> set ''0123456789'' then Some (of_char c - 48) else None)"

fun number_of :: "nat \<Rightarrow> string \<Rightarrow> nat option" where
  "number_of acc [] = Some acc"
| "number_of acc (c # cs) =
     (case digit_of c of None \<Rightarrow> None | Some k \<Rightarrow> number_of (10 * acc + k) cs)"

definition parse_ymd :: "string \<Rightarrow> (nat \<times> nat \<times> nat) option" where
  "parse_ymd s =
     (if length s = 10 \<and> s ! 4 = CHR ''-'' \<and> s ! 7 = CHR ''-'' then
        (case (number_of 0 (take 4 s), number_of 0 (take 2 (drop 5 s)), number_of 0 (drop 8 s)) of
           (Some y, Some m, Some d) \<Rightarrow>
             if 1 \<le> m \<and> m \<le> 12 \<and> 1 \<le> d \<and> d \<le> 31 then Some (y, m, d) else None
         | _ \<Rightarrow> None)
      else None)"

definition parse_hms :: "string \<Rightarrow> (nat \<times> nat \<times> nat) option" where
  "parse_hms s =
     (if length s = 8 \<and> s ! 2 = CHR '':'' \<and> s ! 5 = CHR '':'' then
        (case (number_of 0 (take 2 s), number_of 0 (take 2 (drop 3 s)), number_of 0 (drop 6 s)) of
           (Some h, Some m, Some x) \<Rightarrow>
             if h < 24 \<and> m < 60 \<and> x < 60 then Some (h, m, x) else None
         | _ \<Rightarrow> None)
      else None)"

definition strict_parse :: "string \<Rightarrow> datetime option" where
  "strict_parse s =
     (if length s = 10 then
        (case parse_ymd s of Some (y, m, d) \<Rightarrow> Some (y, m, d, 0, 0, 0) | None \<Rightarrow> None)
      else if length s = 19 \<and> s ! 10 = CHR '' '' then
        (case (parse_ymd (take 10 s), parse_hms (drop 11 s)) of
           (Some (y, m, d), Some (h, mi, x)) \<Rightarrow> Some (y, m, d, h, mi, x)
         | _ \<Rightarrow> None)
      else None)"

subsection \<open>Schema definition and instance data\<close>

text \<open>
  The schema definition classes and the container classes are collaborators outside the
  source under study. Their accessors are the fields of the records below, named as the
  calls are; an accessor that the code subscripts (\<^verbatim>\<open>nullValueDict[atId]\<close>) is a map,
  so that a missing key is the \<open>KeyError\<close> of the code.
\<close>

record tableDef =
  getId :: string
  getAttributeIdList :: "string list"
  getAttributeName :: "string \<Rightarrow> string"
  getMapAttributeDict :: "string \<rightharpoonup> string"
  getSqlNullValueDict :: "string \<rightharpoonup> val"
  getStringWidthDict :: "string \<rightharpoonup> int"
  isAttributeDateType :: "string \<Rightarrow> bool"
  isIterable :: "string \<Rightarrow> bool"
  getIterableSeparator :: "string \<Rightarrow> string"
  getMapInstanceCategoryList :: "string list"
  getMapInstanceAttributeIdList :: "string \<Rightarrow> string list"
  getMapMergeIndexAttributes :: "string \<Rightarrow> string list"
  getMapOtherAttributeIdList :: "string list"
  getMapAttributeFunction :: "string \<Rightarrow> string"

record category =
  getAttributeIndexDict :: "string \<rightharpoonup> nat"
  getRowList :: "string list list"

record container =
  getName :: string
  getObj :: "string \<rightharpoonup> category"

record contentSelector =
  csTableName :: string
  csAttributeName :: string
  csValues :: "string list"

record schemaDef =
  getTableIdList :: "string list"
  getTable :: "string \<Rightarrow> tableDef"
  getTableName :: "string \<Rightarrow> string"
  hasUnitCardinality :: "string \<Rightarrow> bool"
  getTableAttributeIdList :: "string \<Rightarrow> string list"
  getTableAttributeNameList :: "string \<Rightarrow> string list"
  getContentSelector :: "string \<rightharpoonup> contentSelector list"

text \<open>The filter type is one string; each option is looked for as a substring of it.\<close>

definition dropEmptyFlag :: "string \<Rightarrow> bool" where
  "dropEmptyFlag filterType = str_in ''drop-empty-attributes'' filterType"

definition skipMaxWidthFlag :: "string \<Rightarrow> bool" where
  "skipMaxWidthFlag filterType = str_in ''skip-max-width'' filterType"

definition assignDateFlag :: "string \<Rightarrow> bool" where
  "assignDateFlag filterType = str_in ''assign-dates'' filterType"

definition convertIterables :: "string \<Rightarrow> bool" where
  "convertIterables filterType = str_in ''convert-iterables'' filterType"

definition dropEmptyTables :: "string \<Rightarrow> bool" where
  "dropEmptyTables filterType = str_in ''drop-empty-tables'' filterType"

text \<open>
  The two tests of the code on a raw value: \<^verbatim>\<open>(lenVal == 0) or (val == '?') or (val == '.')\<close>,
  and, negated, \<^verbatim>\<open>(val != '?') and (val != '.')\<close>.
\<close>

definition isEmptyValue :: "string \<Rightarrow> bool" where
  "isEmptyValue v = (length v = 0 \<or> v = ''?'' \<or> v = ''.'')"

definition isMissingValue :: "string \<Rightarrow> bool" where
  "isMissingValue v = (v = ''?'' \<or> v = ''.'')"

subsection \<open>The overflow accumulator\<close>

type_synonym overWrite = "(string \<times> string) \<rightharpoonup> nat"

definition noteOverWrite :: "overWrite \<Rightarrow> string \<times> string \<Rightarrow> nat \<Rightarrow> overWrite" where
  "noteOverWrite ow tup lenVal =
     (case ow tup of Some m \<Rightarrow> ow(tup \<mapsto> max m lenVal) | None \<Rightarrow> ow(tup \<mapsto> lenVal))"

subsection \<open>Mapping one instance category\<close>

text \<open>
  The body of the \<^verbatim>\<open>try\<close> of \<^verbatim>\<open>__mapInstanceCategory\<close> for one attribute of one row.
  Every exception raised in it (a missing key of a schema dictionary, a row shorter than the
  column index, an empty separator) is caught by the \<^verbatim>\<open>except\<close>, which leaves the row as
  it is. The log of \<^verbatim>\<open>__assignDateType\<close> is dropped here.
\<close>

definition mapAttribute ::
  "(string \<Rightarrow> datetime option) \<Rightarrow> tableDef \<Rightarrow> category \<Rightarrow> string \<Rightarrow> string list \<Rightarrow>
   string \<Rightarrow> row \<times> overWrite \<Rightarrow> row \<times> overWrite" where
  "mapAttribute parse tObj catObj filterType row atId st =
     (case getMapAttributeDict tObj atId of
        None \<Rightarrow> st
      | Some atName \<Rightarrow>
         (case getAttributeIndexDict catObj atName of
            None \<Rightarrow> st
          | Some i \<Rightarrow>
             if length row \<le> i then st
             else
               (case (if skipMaxWidthFlag filterType then Some 0 else getStringWidthDict tObj atId) of
                  None \<Rightarrow> st
                | Some maxW \<Rightarrow>
                   (let v = row ! i; lenVal = length v; d = fst st; ow = snd st in
                    if dropEmptyFlag filterType \<and> isEmptyValue v then st
                    else if assignDateFlag filterType \<and> isAttributeDateType tObj atId \<and> \<not> isEmptyValue v
                    then (AList.update atId (fst (assignDateType parse atId v)) d, ow)
                    else if convertIterables filterType \<and> isIterable tObj atId \<and> \<not> isEmptyValue v
                    then (case py_split v (getIterableSeparator tObj atId) of
                            Inl e \<Rightarrow> st
                          | Inr parts \<Rightarrow> (AList.update atId (VList (map py_strip parts)) d, ow))
                    else if maxW > 0 then
                      (let ow' = (if int lenVal > maxW
                                  then noteOverWrite ow (getId tObj, atId) lenVal else ow) in
                       if \<not> isMissingValue v
                       then (AList.update atId (VStr (take (nat maxW) v)) d, ow')
                       else (case getSqlNullValueDict tObj atId of
                               None \<Rightarrow> (d, ow')
                             | Some nv \<Rightarrow> (AList.update atId nv d, ow')))
                    else
                      (if \<not> isMissingValue v
                       then (AList.update atId (VStr v) d, ow)
                       else (case getSqlNullValueDict tObj atId of
                               None \<Rightarrow> st
                             | Some nv \<Rightarrow> (AList.update atId nv d, ow)))))))"

text \<open>
  The initial row: the null default of every attribute of the table. This loop is outside
  the \<^verbatim>\<open>try\<close>, so a missing null default raises.
\<close>

fun initRow :: "(string \<rightharpoonup> val) \<Rightarrow> string list \<Rightarrow> row \<Rightarrow> pyerr + row" where
  "initRow nullValueDict [] d = Inr d"
| "initRow nullValueDict (atId # rest) d =
     (case nullValueDict atId of
        None \<Rightarrow> Inl KeyError
      | Some nv \<Rightarrow> initRow nullValueDict rest (AList.update atId nv d))"

definition newRow :: "tableDef \<Rightarrow> string \<Rightarrow> pyerr + row" where
  "newRow tObj filterType =
     (if dropEmptyFlag filterType then Inr []
      else initRow (getSqlNullValueDict tObj) (getAttributeIdList tObj) [])"

fun mapRows ::
  "(string \<Rightarrow> datetime option) \<Rightarrow> tableDef \<Rightarrow> category \<Rightarrow> string \<Rightarrow> string list \<Rightarrow>
   string list list \<Rightarrow> row list \<Rightarrow> overWrite \<Rightarrow> pyerr + (row list \<times> overWrite)" where
  "mapRows parse tObj catObj filterType curAttributeIdList [] retList ow = Inr (retList, ow)"
| "mapRows parse tObj catObj filterType curAttributeIdList (row # rows) retList ow =
     (case newRow tObj filterType of
        Inl e \<Rightarrow> Inl e
      | Inr d0 \<Rightarrow>
         (let st = fold (mapAttribute parse tObj catObj filterType row) curAttributeIdList (d0, ow)
          in mapRows parse tObj catObj filterType curAttributeIdList rows (retList @ [fst st]) (snd st)))"

definition mapInstanceCategory ::
  "(string \<Rightarrow> datetime option) \<Rightarrow> tableDef \<Rightarrow> string \<Rightarrow> container \<Rightarrow> string \<Rightarrow> overWrite \<Rightarrow>
   pyerr + (row list \<times> overWrite)" where
  "mapInstanceCategory parse tObj categoryName myContainer filterType ow =
     (case getObj myContainer categoryName of
        None \<Rightarrow> Inr ([], ow)
      | Some catObj \<Rightarrow>
          mapRows parse tObj catObj filterType (getMapInstanceAttributeIdList tObj categoryName)
            (getRowList catObj) [] ow)"

subsection \<open>Mapping and merging several instance categories\<close>

text \<open>
  The body of the \<^verbatim>\<open>try\<close> of \<^verbatim>\<open>__mapInstanceCategoryList\<close> for one attribute of one row.
  It differs from the single-category body in two places: a column missing from the
  category raises and is caught (the same effect), and a value longer than the width is
  only reported through the logger, the accumulator is not touched.
\<close>

definition mapAttributeMerge ::
  "(string \<Rightarrow> datetime option) \<Rightarrow> tableDef \<Rightarrow> category \<Rightarrow> string \<Rightarrow> string list \<Rightarrow>
   string \<Rightarrow> row \<Rightarrow> row" where
  "mapAttributeMerge parse tObj catObj filterType row atId d =
     (case getMapAttributeDict tObj atId of
        None \<Rightarrow> d
      | Some atName \<Rightarrow>
         (case getAttributeIndexDict catObj atName of
            None \<Rightarrow> d
          | Some i \<Rightarrow>
             if length row \<le> i then d
             else
               (case (if skipMaxWidthFlag filterType then Some 0 else getStringWidthDict tObj atId) of
                  None \<Rightarrow> d
                | Some maxW \<Rightarrow>
                   (let v = row ! i in
                    if dropEmptyFlag filterType \<and> isEmptyValue v then d
                    else if assignDateFlag filterType \<and> isAttributeDateType tObj atId \<and> \<not> isEmptyValue v
                    then AList.update atId (fst (assignDateType parse atId v)) d
                    else if convertIterables filterType \<and> isIterable tObj atId \<and> \<not> isEmptyValue v
                    then (case py_split v (getIterableSeparator tObj atId) of
                            Inl e \<Rightarrow> d
                          | Inr parts \<Rightarrow> AList.update atId (VList (map py_strip parts)) d)
                    else if maxW > 0 then
                      (if \<not> isMissingValue v
                       then AList.update atId (VStr (take (nat maxW) v)) d
                       else (case getSqlNullValueDict tObj atId of
                               None \<Rightarrow> d
                             | Some nv \<Rightarrow> AList.update atId nv d))
                    else
                      (if \<not> isMissingValue v
                       then AList.update atId (VStr v) d
                       else (case getSqlNullValueDict tObj atId of
                               None \<Rightarrow> d
                             | Some nv \<Rightarrow> AList.update atId nv d))))))"

text \<open>The merge key \<^verbatim>\<open>mK\<close>: a key attribute whose column is missing is skipped.\<close>

definition mergeKey :: "category \<Rightarrow> string list \<Rightarrow> string list \<Rightarrow> string list" where
  "mergeKey catObj indL row =
     concat (map (\<lambda>atName. case getAttributeIndexDict catObj atName of
                              None \<Rightarrow> []
                            | Some i \<Rightarrow> if i < length row then [row ! i] else []) indL)"

type_synonym mergeDict = "(string list \<times> row) list"

text \<open>\<^verbatim>\<open>if tk not in mD: mD[tk] = {}\<close> followed by \<^verbatim>\<open>mD[tk].update(d)\<close>.\<close>

definition mergeInto :: "mergeDict \<Rightarrow> string list \<Rightarrow> row \<Rightarrow> mergeDict" where
  "mergeInto mD tk d =
     (case map_of mD tk of
        None \<Rightarrow> AList.update tk (dict_update [] d) mD
      | Some r \<Rightarrow> AList.update tk (dict_update r d) mD)"

fun mergeRows ::
  "(string \<Rightarrow> datetime option) \<Rightarrow> tableDef \<Rightarrow> category \<Rightarrow> string \<Rightarrow> string list \<Rightarrow> string list \<Rightarrow>
   string list list \<Rightarrow> mergeDict \<Rightarrow> pyerr + mergeDict" where
  "mergeRows parse tObj catObj filterType curAttributeIdList indL [] mD = Inr mD"
| "mergeRows parse tObj catObj filterType curAttributeIdList indL (row # rows) mD =
     (case newRow tObj filterType of
        Inl e \<Rightarrow> Inl e
      | Inr d0 \<Rightarrow>
         (let mK = mergeKey catObj indL row;
              d = fold (mapAttributeMerge parse tObj catObj filterType row) curAttributeIdList d0
          in mergeRows parse tObj catObj filterType curAttributeIdList indL rows (mergeInto mD mK d)))"

fun mergeCategories ::
  "(string \<Rightarrow> datetime option) \<Rightarrow> tableDef \<Rightarrow> container \<Rightarrow> string \<Rightarrow> string list \<Rightarrow> mergeDict \<Rightarrow>
   pyerr + mergeDict" where
  "mergeCategories parse tObj myContainer filterType [] mD = Inr mD"
| "mergeCategories parse tObj myContainer filterType (categoryName # rest) mD =
     (case getObj myContainer categoryName of
        None \<Rightarrow> mergeCategories parse tObj myContainer filterType rest mD
      | Some catObj \<Rightarrow>
         (case mergeRows parse tObj catObj filterType
                 (getMapInstanceAttributeIdList tObj categoryName)
                 (getMapMergeIndexAttributes tObj categoryName) (getRowList catObj) mD of
            Inl e \<Rightarrow> Inl e
          | Inr mD' \<Rightarrow> mergeCategories parse tObj myContainer filterType rest mD'))"

definition mapInstanceCategoryList ::
  "(string \<Rightarrow> datetime option) \<Rightarrow> tableDef \<Rightarrow> string list \<Rightarrow> container \<Rightarrow> string \<Rightarrow> pyerr + row list" where
  "mapInstanceCategoryList parse tObj categoryNameList myContainer filterType =
     (case mergeCategories parse tObj myContainer filterType categoryNameList [] of
        Inl e \<Rightarrow> Inl e
      | Inr mD \<Rightarrow> Inr (map snd mD))"

subsection \<open>Mapping a container list\<close>

text \<open>
  \<^verbatim>\<open>__mapData\<close> keeps the row dictionaries it produced in the local \<^verbatim>\<open>rowList\<close>,
  changes them in place in \<^verbatim>\<open>__evalMapFunction\<close>, and appends the same objects to the
  table's list. When a table has no mapped category neither branch assigns \<^verbatim>\<open>rowList\<close>:
  the name is unbound on the first pass of the loop, and holds the row objects of an
  earlier table afterwards. The row objects therefore live in a heap (a list indexed by
  address), and the table lists and \<^verbatim>\<open>rowList\<close> hold addresses.
\<close>

record mapState =
  heap :: "row list"
  tableDataDict :: "(string \<times> nat list) list"
  overWriteD :: overWrite
  rowList :: "nat list option"

definition evalMapFunction :: "container \<Rightarrow> nat list \<Rightarrow> string \<Rightarrow> string \<Rightarrow> row list \<Rightarrow> row list" where
  "evalMapFunction dataContainer rowL attributeId functionName hp =
     (if functionName = ''datablockid()''
      then fold (\<lambda>a h. h[a := AList.update attributeId (VStr (getName dataContainer)) (h ! a)]) rowL hp
      else hp)"

fun foldE :: "('a \<Rightarrow> 's \<Rightarrow> pyerr + 's) \<Rightarrow> 'a list \<Rightarrow> 's \<Rightarrow> pyerr + 's" where
  "foldE f [] s = Inr s"
| "foldE f (x # xs) s = (case f x s of Inl e \<Rightarrow> Inl e | Inr s' \<Rightarrow> foldE f xs s')"

text \<open>One pass of the inner loop of \<^verbatim>\<open>__mapData\<close>: one table of one container.\<close>

definition mapTable ::
  "(string \<Rightarrow> datetime option) \<Rightarrow> schemaDef \<Rightarrow> string list \<Rightarrow> string \<Rightarrow> container \<Rightarrow> string \<Rightarrow>
   mapState \<Rightarrow> pyerr + mapState" where
  "mapTable parse sD tableIdExcludeD filterType myContainer tableId st =
     (if tableId \<in> set tableIdExcludeD then Inr st
      else
        (let tdd = (if map_of (tableDataDict st) tableId = None
                    then AList.update tableId [] (tableDataDict st) else tableDataDict st);
             tObj = getTable sD tableId
         in case (case getMapInstanceCategoryList tObj of
                    [] \<Rightarrow> Inr (None, overWriteD st)
                  | [categoryName] \<Rightarrow>
                      (case mapInstanceCategory parse tObj categoryName myContainer filterType (overWriteD st) of
                         Inl e \<Rightarrow> Inl e
                       | Inr r \<Rightarrow> Inr (Some (fst r), snd r))
                  | mapCategoryNameList \<Rightarrow>
                      (case mapInstanceCategoryList parse tObj mapCategoryNameList myContainer filterType of
                         Inl e \<Rightarrow> Inl e
                       | Inr rows \<Rightarrow> Inr (Some rows, overWriteD st))) of
              Inl e \<Rightarrow> Inl e
            | Inr (new, ow) \<Rightarrow>
               (let hp1 = (case new of Some rows \<Rightarrow> heap st @ rows | None \<Rightarrow> heap st);
                    rl = (case new of
                            Some rows \<Rightarrow> Some [length (heap st) ..< length (heap st) + length rows]
                          | None \<Rightarrow> rowList st)
                in case rl of
                     None \<Rightarrow> Inl UnboundLocalError
                   | Some addrs \<Rightarrow>
                      Inr \<lparr> heap = fold (\<lambda>atId. evalMapFunction myContainer addrs atId
                                                  (getMapAttributeFunction tObj atId))
                                       (getMapOtherAttributeIdList tObj) hp1,
                            tableDataDict =
                              AList.update tableId
                                ((case map_of tdd tableId of Some l \<Rightarrow> l | None \<Rightarrow> []) @ addrs) tdd,
                            overWriteD = ow,
                            rowList = Some addrs \<rparr>)))"

definition mapContainer ::
  "(string \<Rightarrow> datetime option) \<Rightarrow> schemaDef \<Rightarrow> string list \<Rightarrow> string \<Rightarrow> string list \<Rightarrow> container \<Rightarrow>
   mapState \<Rightarrow> pyerr + mapState" where
  "mapContainer parse sD tableIdExcludeD filterType tableIdList myContainer st =
     foldE (mapTable parse sD tableIdExcludeD filterType myContainer) tableIdList st"

text \<open>
  \<^verbatim>\<open>__mapData\<close>: the table dictionary and the accumulator come in and go out; the local
  \<^verbatim>\<open>rowList\<close> starts unbound at each call.
\<close>

definition mapData ::
  "(string \<Rightarrow> datetime option) \<Rightarrow> schemaDef \<Rightarrow> string list \<Rightarrow> container list \<Rightarrow> string list \<Rightarrow>
   string \<Rightarrow> mapState \<Rightarrow> pyerr + mapState" where
  "mapData parse sD tableIdExcludeD containerList tableIdList filterType st =
     foldE (mapContainer parse sD tableIdExcludeD filterType tableIdList) containerList
       (st\<lparr>rowList := None\<rparr>)"

text \<open>The table dictionary read through the heap: what the caller sees.\<close>

definition readTables :: "mapState \<Rightarrow> tabledata" where
  "readTables st = map (\<lambda>kv. (fst kv, map (\<lambda>a. heap st ! a) (snd kv))) (tableDataDict st)"

subsection \<open>Content selectors\<close>

text \<open>
  \<^verbatim>\<open>__testContentSelectors\<close>. Any exception (an unknown selector, a category missing from
  the container, a missing attribute) is caught and the answer is \<open>False\<close>.
\<close>

definition testSelector :: "container \<Rightarrow> contentSelector \<Rightarrow> bool" where
  "testSelector c csD =
     (case getObj c (csTableName csD) of
        None \<Rightarrow> False
      | Some catObj \<Rightarrow>
         (case getAttributeIndexDict catObj (csAttributeName csD) of
            None \<Rightarrow> False
          | Some i \<Rightarrow>
             getRowList catObj \<noteq> [] \<and>
             list_all (\<lambda>row. i < length row \<and> row ! i \<in> set (csValues csD)) (getRowList catObj)))"

definition testContentSelectors :: "schemaDef \<Rightarrow> container \<Rightarrow> string list option \<Rightarrow> bool" where
  "testContentSelectors sD c contentSelectors =
     (case contentSelectors of
        None \<Rightarrow> True
      | Some css \<Rightarrow>
         css = [] \<or>
         list_all (\<lambda>cs. case getContentSelector sD cs of
                          None \<Rightarrow> False
                        | Some csDL \<Rightarrow> list_all (testSelector c) csDL) css)"

subsection \<open>Processing containers and files\<close>

definition dropEmptyTablesFilter :: "string \<Rightarrow> tabledata \<Rightarrow> tabledata" where
  "dropEmptyTablesFilter filterType tableDataD =
     (if dropEmptyTables filterType then filter (\<lambda>kv. length (snd kv) > 0) tableDataD
      else tableDataD)"

text \<open>
  \<^verbatim>\<open>__process\<close>: the result is the table dictionary, the container names and the
  accumulator of the object after the call.
\<close>

definition process_internal ::
  "(string \<Rightarrow> datetime option) \<Rightarrow> schemaDef \<Rightarrow> string list \<Rightarrow> container list \<Rightarrow> string \<Rightarrow>
   string list option \<Rightarrow> overWrite \<Rightarrow> pyerr + (tabledata \<times> string list \<times> overWrite)" where
  "process_internal parse sD tableIdExcludeD containerList filterType contentSelectors ow =
     (let cL = filter (\<lambda>c. testContentSelectors sD c contentSelectors) containerList in
      case mapData parse sD tableIdExcludeD cL (getTableIdList sD) filterType
             \<lparr>heap = [], tableDataDict = [], overWriteD = ow, rowList = None\<rparr> of
        Inl e \<Rightarrow> Inl e
      | Inr st \<Rightarrow>
          Inr (dropEmptyTablesFilter filterType (readTables st), map getName containerList,
               overWriteD st))"

text \<open>
  \<^verbatim>\<open>__fetch\<close>: the files are read by the I/O adapter, a collaborator given as the
  parameter \<open>readFile\<close>; one table dictionary collects the rows of all files.
\<close>

definition fetchPath ::
  "(string \<Rightarrow> datetime option) \<Rightarrow> schemaDef \<Rightarrow> string list \<Rightarrow> (string \<Rightarrow> container list) \<Rightarrow> string \<Rightarrow>
   string list option \<Rightarrow> string \<Rightarrow> mapState \<times> string list \<Rightarrow> pyerr + (mapState \<times> string list)" where
  "fetchPath parse sD tableIdExcludeD readFile filterType contentSelectors lPath acc =
     (let myContainerList = readFile lPath;
          cL = filter (\<lambda>c. testContentSelectors sD c contentSelectors) myContainerList
      in case mapData parse sD tableIdExcludeD cL (getTableIdList sD) filterType (fst acc) of
           Inl e \<Rightarrow> Inl e
         | Inr st \<Rightarrow> Inr (st, snd acc @ map getName myContainerList))"

definition fetch_internal ::
  "(string \<Rightarrow> datetime option) \<Rightarrow> schemaDef \<Rightarrow> string list \<Rightarrow> (string \<Rightarrow> container list) \<Rightarrow>
   string list \<Rightarrow> string \<Rightarrow> string list option \<Rightarrow> overWrite \<Rightarrow>
   pyerr + (tabledata \<times> string list \<times> overWrite)" where
  "fetch_internal parse sD tableIdExcludeD readFile loadPathList filterType contentSelectors ow =
     (case foldE (fetchPath parse sD tableIdExcludeD readFile filterType contentSelectors) loadPathList
             (\<lparr>heap = [], tableDataDict = [], overWriteD = ow, rowList = None\<rparr>, []) of
        Inl e \<Rightarrow> Inl e
      | Inr r \<Rightarrow>
          Inr (dropEmptyTablesFilter filterType (readTables (fst r)), snd r, overWriteD (fst r)))"

subsection \<open>Output layouts\<close>

text \<open>
  The value stored under a key of an output dictionary: a list of rows, one row (a
  collapsed unit-cardinality table), the column dictionary, the attribute-and-data
  layout, or the string stored under a reserved key.
\<close>

datatype tval =
    TRows "row list"
  | TRow row
  | TCols "(string \<times> val list) list"
  | TNoName "string list" "val list list"
  | TStr string

type_synonym document = "(string \<times> tval) list"

text \<open>The input dictionary returned as it is (style \<^verbatim>\<open>rowwise_by_id\<close> and the fallbacks).\<close>

definition byId :: "tabledata \<Rightarrow> document" where
  "byId tableDataDictById = map (\<lambda>kv. (fst kv, TRows (snd kv))) tableDataDictById"

text \<open>\<^verbatim>\<open>oRowD = {}; for atId in iRowD: oRowD[getAttributeName(atId)] = iRowD[atId]\<close>\<close>

definition renameRow :: "(string \<Rightarrow> string) \<Rightarrow> row \<Rightarrow> row" where
  "renameRow nm iRowD = fold (\<lambda>kv oRowD. AList.update (nm (fst kv)) (snd kv) oRowD) iRowD []"

definition addColumns :: "(string \<Rightarrow> string) \<Rightarrow> row \<Rightarrow> (string \<times> val list) list \<Rightarrow> (string \<times> val list) list" where
  "addColumns nm iRowD colD =
     fold (\<lambda>kv cD. case map_of cD (nm (fst kv)) of
                      None \<Rightarrow> AList.update (nm (fst kv)) [snd kv] cD
                    | Some l \<Rightarrow> AList.update (nm (fst kv)) (l @ [snd kv]) cD) iRowD colD"

definition columnsOf :: "(string \<Rightarrow> string) \<Rightarrow> row list \<Rightarrow> (string \<times> val list) list" where
  "columnsOf nm iRowDList = fold (addColumns nm) iRowDList []"

text \<open>\<^verbatim>\<open>for atId in atIdList: oRowL.append(iRowD[atId])\<close>: a missing attribute raises.\<close>

fun positional :: "string list \<Rightarrow> row \<Rightarrow> pyerr + val list" where
  "positional [] iRowD = Inr []"
| "positional (atId # rest) iRowD =
     (case map_of iRowD atId of
        None \<Rightarrow> Inl KeyError
      | Some v \<Rightarrow> (case positional rest iRowD of Inl e \<Rightarrow> Inl e | Inr vs \<Rightarrow> Inr (v # vs)))"

fun positionalRows :: "string list \<Rightarrow> row list \<Rightarrow> pyerr + val list list" where
  "positionalRows atIdList [] = Inr []"
| "positionalRows atIdList (iRowD # rest) =
     (case positional atIdList iRowD of
        Inl e \<Rightarrow> Inl e
      | Inr oRowL \<Rightarrow>
         (case positionalRows atIdList rest of Inl e \<Rightarrow> Inl e | Inr oRowList \<Rightarrow> Inr (oRowL # oRowList)))"

text \<open>A table value under unit cardinality (\<^verbatim>\<open>unitCard and len(iRowDList) == 1\<close>).\<close>

definition withCard :: "bool \<Rightarrow> (string \<Rightarrow> string) \<Rightarrow> row list \<Rightarrow> tval" where
  "withCard unitCard nm iRowDList =
     (if unitCard \<and> length iRowDList = 1 then TRow (renameRow nm (iRowDList ! 0))
      else TRows (map (renameRow nm) iRowDList))"

subsection \<open>The transformations of the data mapper\<close>

definition transformRowwiseByName :: "schemaDef \<Rightarrow> tabledata \<Rightarrow> document" where
  "transformRowwiseByName sD tableDataDictById =
     fold (\<lambda>kv rD. AList.update (getTableName sD (fst kv))
                      (TRows (map (renameRow (getAttributeName (getTable sD (fst kv)))) (snd kv))) rD)
          tableDataDictById []"

definition transformRowwiseByNameWithCard :: "schemaDef \<Rightarrow> tabledata \<Rightarrow> document" where
  "transformRowwiseByNameWithCard sD tableDataDictById =
     fold (\<lambda>kv rD. AList.update (getTableName sD (fst kv))
                      (withCard (hasUnitCardinality sD (fst kv))
                         (getAttributeName (getTable sD (fst kv))) (snd kv)) rD)
          tableDataDictById []"

definition transformColumnwise :: "schemaDef \<Rightarrow> tabledata \<Rightarrow> document" where
  "transformColumnwise sD tableDataDictById =
     fold (\<lambda>kv rD. AList.update (getTableName sD (fst kv))
                      (TCols (columnsOf (getAttributeName (getTable sD (fst kv))) (snd kv))) rD)
          tableDataDictById []"

definition transformRowwiseNoName :: "schemaDef \<Rightarrow> tabledata \<Rightarrow> pyerr + document" where
  "transformRowwiseNoName sD tableDataDictById =
     foldE (\<lambda>kv rD. case positionalRows (getTableAttributeIdList sD (fst kv)) (snd kv) of
                       Inl e \<Rightarrow> Inl e
                     | Inr oRowList \<Rightarrow>
                         Inr (AList.update (getTableName sD (fst kv))
                                (TNoName (getTableAttributeNameList sD (fst kv)) oRowList) rD))
           tableDataDictById []"

text \<open>
  \<^verbatim>\<open>__transformTableData\<close>: the \<^verbatim>\<open>try\<close> around all styles gives the input back when a
  style raises. The size report of \<^verbatim>\<open>logSize\<close> only writes to the log and is left out.
\<close>

definition transformTableData :: "schemaDef \<Rightarrow> tabledata \<Rightarrow> string \<Rightarrow> document" where
  "transformTableData sD tableDataDictById styleType =
     (if styleType = ''rowwise_by_name'' then transformRowwiseByName sD tableDataDictById
      else if styleType = ''rowwise_by_name_with_cardinality''
      then transformRowwiseByNameWithCard sD tableDataDictById
      else if styleType = ''columnwise_by_name'' then transformColumnwise sD tableDataDictById
      else if styleType = ''rowwise_no_name''
      then (case transformRowwiseNoName sD tableDataDictById of
              Inl e \<Rightarrow> byId tableDataDictById
            | Inr rD \<Rightarrow> rD)
      else byId tableDataDictById)"

subsection \<open>One document per container or per file\<close>

text \<open>
  \<^verbatim>\<open>processDocuments\<close> and \<^verbatim>\<open>fetchDocuments\<close>: the state of the loop is the document list,
  the container name list and the accumulator of the object.
\<close>

definition processDocument ::
  "(string \<Rightarrow> datetime option) \<Rightarrow> schemaDef \<Rightarrow> string list \<Rightarrow> string \<Rightarrow> string \<Rightarrow>
   string list option \<Rightarrow> container \<Rightarrow> document list \<times> string list \<times> overWrite \<Rightarrow>
   pyerr + (document list \<times> string list \<times> overWrite)" where
  "processDocument parse sD tableIdExcludeD styleType filterType contentSelectors c acc =
     (case process_internal parse sD tableIdExcludeD [c] filterType contentSelectors (snd (snd acc)) of
        Inl e \<Rightarrow> Inl e
      | Inr r \<Rightarrow>
         (let tableDataDoc = AList.update ''__CONTAINER_NAME__'' (TStr (getName c))
                               (transformTableData sD (fst r) styleType)
          in Inr (fst acc @ [tableDataDoc], fst (snd acc) @ fst (snd r), snd (snd r))))"

definition processDocuments ::
  "(string \<Rightarrow> datetime option) \<Rightarrow> schemaDef \<Rightarrow> string list \<Rightarrow> container list \<Rightarrow> string \<Rightarrow> string \<Rightarrow>
   string list option \<Rightarrow> overWrite \<Rightarrow> pyerr + (document list \<times> string list \<times> overWrite)" where
  "processDocuments parse sD tableIdExcludeD containerList styleType filterType contentSelectors ow =
     foldE (processDocument parse sD tableIdExcludeD styleType filterType contentSelectors)
       containerList ([], [], ow)"

definition fetchDocument ::
  "(string \<Rightarrow> datetime option) \<Rightarrow> schemaDef \<Rightarrow> string list \<Rightarrow> (string \<Rightarrow> container list) \<Rightarrow> string \<Rightarrow>
   string \<Rightarrow> string list option \<Rightarrow> string \<Rightarrow> document list \<times> string list \<times> overWrite \<Rightarrow>
   pyerr + (document list \<times> string list \<times> overWrite)" where
  "fetchDocument parse sD tableIdExcludeD readFile styleType filterType contentSelectors inputPath acc =
     (case fetch_internal parse sD tableIdExcludeD readFile [inputPath] filterType contentSelectors
             (snd (snd acc)) of
        Inl e \<Rightarrow> Inl e
      | Inr r \<Rightarrow>
         (let tableDataDoc = AList.update ''__INPUT_PATH__'' (TStr inputPath)
                               (transformTableData sD (fst r) styleType)
          in Inr (fst acc @ [tableDataDoc], fst (snd acc) @ fst (snd r), snd (snd r))))"

definition fetchDocuments ::
  "(string \<Rightarrow> datetime option) \<Rightarrow> schemaDef \<Rightarrow> string list \<Rightarrow> (string \<Rightarrow> container list) \<Rightarrow>
   string list \<Rightarrow> string \<Rightarrow> string \<Rightarrow> string list option \<Rightarrow> overWrite \<Rightarrow>
   pyerr + (document list \<times> string list \<times> overWrite)" where
  "fetchDocuments parse sD tableIdExcludeD readFile inputPathList styleType filterType contentSelectors ow =
     foldE (fetchDocument parse sD tableIdExcludeD readFile styleType filterType contentSelectors)
       inputPathList ([], [], ow)"

section \<open>SchemaDefReShape: shapes and slices\<close>

subsection \<open>Schema access\<close>

text \<open>
  The schema access object of the reshaping class, again a collaborator. A parent item is
  the pair of a category and an attribute; the slice index gives, for a schema identifier
  and a parent item, the child attributes that carry the parent's value.
\<close>

type_synonym parentItem = "string \<times> string"

type_synonym parentValue = "parentItem \<times> val"

type_synonym sliceIndex = "(string \<times> (parentItem \<times> string list) list) list"

record sliceParentFilter =
  filterCategory :: string
  filterAttribute :: string
  filterValues :: "val list"

record schemaObj =
  isSliceExtra :: "string \<Rightarrow> bool"
  getAttributeName_s :: "string \<Rightarrow> string"
  isMandatory :: bool
  hasSliceUnitCardinality :: "string \<Rightarrow> bool"

record schemaDefAccess =
  getSliceParentItems :: "string \<Rightarrow> parentItem list"
  getSliceParentFilters :: "string \<Rightarrow> sliceParentFilter list"
  getSliceIndex :: "string \<Rightarrow> sliceIndex"
  getSliceExtraSchemaIds :: "string \<Rightarrow> string list"
  getSchemaObject :: "string \<Rightarrow> schemaObj"
  getSchemaName :: "string \<Rightarrow> string"
  hasUnitCardinality_s :: "string \<Rightarrow> bool"
  getAttributeIdList_s :: "string \<Rightarrow> string list"
  getAttributeNameList_s :: "string \<Rightarrow> string list"

subsection \<open>The slice value enumerator\<close>

text \<open>
  \<^verbatim>\<open>SliceValues.__testFilter\<close>: the loop stops with \<open>False\<close> at the first filter that
  names another category, or whose attribute is missing from the row, or whose value list
  does not hold the row's value.
\<close>

fun testFilter :: "row \<Rightarrow> string \<Rightarrow> sliceParentFilter list \<Rightarrow> bool" where
  "testFilter rowD catId [] = True"
| "testFilter rowD catId (f # filters) =
     (if catId \<noteq> filterCategory f then False
      else (case map_of rowD (filterAttribute f) of
              None \<Rightarrow> False
            | Some v \<Rightarrow> if v \<in> set (filterValues f) then testFilter rowD catId filters else False))"

text \<open>The values of one parent item: \<^verbatim>\<open>rowD[atId]\<close> raises when the row lacks it.\<close>

fun parentVals :: "sliceParentFilter list \<Rightarrow> parentItem \<Rightarrow> row list \<Rightarrow> pyerr + parentValue list" where
  "parentVals spfL sp [] = Inr []"
| "parentVals spfL sp (rowD # rows) =
     (if testFilter rowD (fst sp) spfL then
        (case map_of rowD (snd sp) of
           None \<Rightarrow> Inl KeyError
         | Some v \<Rightarrow>
            (case parentVals spfL sp rows of Inl e \<Rightarrow> Inl e | Inr vals \<Rightarrow> Inr ((sp, v) # vals)))
      else parentVals spfL sp rows)"

text \<open>The dictionary \<^verbatim>\<open>vD\<close>, filled in the order of the parent items.\<close>

definition addParentItem ::
  "tabledata \<Rightarrow> sliceParentFilter list \<Rightarrow> parentItem \<Rightarrow> (parentItem \<times> parentValue list) list \<Rightarrow>
   pyerr + (parentItem \<times> parentValue list) list" where
  "addParentItem schemaDataDictById spfL sp vD =
     (case (case map_of schemaDataDictById (fst sp) of
              None \<Rightarrow> Inr []
            | Some rows \<Rightarrow> parentVals spfL sp rows) of
        Inl e \<Rightarrow> Inl e
      | Inr vals \<Rightarrow> Inr (AList.update sp vals vD))"

text \<open>
  \<^verbatim>\<open>SliceValues.__init__\<close>: the field \<^verbatim>\<open>data\<close>, the product of the value lists, which is
  what the iterator walks through from index 0.
\<close>

definition SliceValues :: "tabledata \<Rightarrow> schemaDefAccess \<Rightarrow> string \<Rightarrow> pyerr + parentValue list list" where
  "SliceValues schemaDataDictById sD sliceFilter =
     (case foldE (addParentItem schemaDataDictById (getSliceParentFilters sD sliceFilter))
             (getSliceParentItems sD sliceFilter) [] of
        Inl e \<Rightarrow> Inl e
      | Inr vD \<Rightarrow> Inr (product_lists (map snd vD)))"

subsection \<open>Shapes of a whole record set\<close>

definition shapeRowwiseByName :: "schemaDefAccess \<Rightarrow> tabledata \<Rightarrow> document" where
  "shapeRowwiseByName sD schemaDataDictById =
     fold (\<lambda>kv rD. AList.update (getSchemaName sD (fst kv))
                      (TRows (map (renameRow (getAttributeName_s (getSchemaObject sD (fst kv)))) (snd kv))) rD)
          schemaDataDictById []"

definition shapeRowwiseByNameWithCard :: "schemaDefAccess \<Rightarrow> tabledata \<Rightarrow> document" where
  "shapeRowwiseByNameWithCard sD schemaDataDictById =
     fold (\<lambda>kv rD. AList.update (getSchemaName sD (fst kv))
                      (withCard (hasUnitCardinality_s sD (fst kv))
                         (getAttributeName_s (getSchemaObject sD (fst kv))) (snd kv)) rD)
          schemaDataDictById []"

definition shapeColumnwise :: "schemaDefAccess \<Rightarrow> tabledata \<Rightarrow> document" where
  "shapeColumnwise sD schemaDataDictById =
     fold (\<lambda>kv rD. AList.update (getSchemaName sD (fst kv))
                      (TCols (columnsOf (getAttributeName_s (getSchemaObject sD (fst kv))) (snd kv))) rD)
          schemaDataDictById []"

definition shapeRowwiseNoName :: "schemaDefAccess \<Rightarrow> tabledata \<Rightarrow> pyerr + document" where
  "shapeRowwiseNoName sD schemaDataDictById =
     foldE (\<lambda>kv rD. case positionalRows (getAttributeIdList_s sD (fst kv)) (snd kv) of
                       Inl e \<Rightarrow> Inl e
                     | Inr oRowList \<Rightarrow>
                         Inr (AList.update (getSchemaName sD (fst kv))
                                (TNoName (getAttributeNameList_s sD (fst kv)) oRowList) rD))
           schemaDataDictById []"

text \<open>
  \<^verbatim>\<open>__reshapeSchemaData\<close>, with what it writes to the log. The result is \<open>Inr\<close> of a
  document on every path: the \<^verbatim>\<open>except\<close> clause returns the input.
\<close>

definition reshapeSchemaData :: "schemaDefAccess \<Rightarrow> tabledata \<Rightarrow> string \<Rightarrow> pyerr + (document \<times> logev list)" where
  "reshapeSchemaData sD schemaDataDictById styleType =
     (case (if styleType = ''rowwise_by_name'' then Inr (shapeRowwiseByName sD schemaDataDictById, [])
            else if styleType = ''rowwise_by_name_with_cardinality''
            then Inr (shapeRowwiseByNameWithCard sD schemaDataDictById, [])
            else if styleType = ''columnwise_by_name'' then Inr (shapeColumnwise sD schemaDataDictById, [])
            else if styleType = ''rowwise_no_name''
            then (case shapeRowwiseNoName sD schemaDataDictById of
                    Inl e \<Rightarrow> Inl e
                  | Inr rD \<Rightarrow> Inr (rD, []))
            else if styleType = ''rowwise_by_id'' then Inr (byId schemaDataDictById, [])
            else Inr (byId schemaDataDictById, [LogWarning styleType])) of
        Inl e \<Rightarrow> Inr (byId schemaDataDictById, [LogException ''Failing''])
      | Inr r \<Rightarrow> Inr r)"

definition applyShape :: "schemaDefAccess \<Rightarrow> tabledata \<Rightarrow> string \<Rightarrow> pyerr + (document \<times> logev list)" where
  "applyShape sD schemaDataDictById styleType = reshapeSchemaData sD schemaDataDictById styleType"

subsection \<open>The slice by one pass per parent value tuple\<close>

text \<open>
  \<^verbatim>\<open>__inSlice\<close>: the table must be in the slice index, and for every parent value of the
  tuple the parent item must be in the table's entry and one of its child attributes must
  be in the row with the parent's value. The loops leave at the first failure, which is
  what \<open>list_all\<close> and \<open>list_ex\<close> compute.
\<close>

definition inSlice :: "string \<Rightarrow> sliceIndex \<Rightarrow> row \<Rightarrow> parentValue list \<Rightarrow> bool" where
  "inSlice schemaId sliceIndex rowD parentVs =
     (case map_of sliceIndex schemaId of
        None \<Rightarrow> False
      | Some mD \<Rightarrow>
          list_all (\<lambda>parentVal.
                      case map_of mD (fst parentVal) of
                        None \<Rightarrow> False
                      | Some cAtIds \<Rightarrow> list_ex (\<lambda>cAtId. map_of rowD cAtId = Some (snd parentVal)) cAtIds)
                   parentVs)"

text \<open>The rows of one table kept for a parent value tuple, renamed.\<close>

definition sliceRows ::
  "schemaDefAccess \<Rightarrow> string \<Rightarrow> parentValue list \<Rightarrow> sliceIndex \<Rightarrow> string \<Rightarrow> row list \<Rightarrow> row list" where
  "sliceRows sD sliceFilter sliceValues sliceIndex schemaId iRowDList =
     map (renameRow (getAttributeName_s (getSchemaObject sD schemaId)))
       (filter (\<lambda>iRowD. isSliceExtra (getSchemaObject sD schemaId) sliceFilter \<or>
                         inSlice schemaId sliceIndex iRowD sliceValues) iRowDList)"

definition sliceRowwiseByNameWithCard ::
  "schemaDefAccess \<Rightarrow> tabledata \<Rightarrow> string \<Rightarrow> parentValue list \<Rightarrow> sliceIndex \<Rightarrow> document" where
  "sliceRowwiseByNameWithCard sD schemaDataDictById sliceFilter sliceValues sliceIndex =
     fold (\<lambda>kv rD.
             (let schemaId = fst kv; schemaObj = getSchemaObject sD schemaId in
              if map_of sliceIndex schemaId = None \<and> \<not> isSliceExtra schemaObj sliceFilter then rD
              else
                (let oRowDList = sliceRows sD sliceFilter sliceValues sliceIndex schemaId (snd kv) in
                 if length oRowDList < 1 \<and> \<not> isMandatory schemaObj then rD
                 else if hasSliceUnitCardinality schemaObj sliceFilter \<and> length oRowDList = 1
                 then AList.update (getSchemaName sD schemaId) (TRow (oRowDList ! 0)) rD
                 else AList.update (getSchemaName sD schemaId) (TRows oRowDList) rD)))
          schemaDataDictById []"

definition sliceRowwiseByName ::
  "schemaDefAccess \<Rightarrow> tabledata \<Rightarrow> string \<Rightarrow> parentValue list \<Rightarrow> sliceIndex \<Rightarrow> document" where
  "sliceRowwiseByName sD schemaDataDictById sliceFilter sliceValues sliceIndex =
     fold (\<lambda>kv rD.
             (let schemaId = fst kv; schemaObj = getSchemaObject sD schemaId in
              if map_of sliceIndex schemaId = None \<and> \<not> isSliceExtra schemaObj sliceFilter then rD
              else
                (let oRowDList = sliceRows sD sliceFilter sliceValues sliceIndex schemaId (snd kv) in
                 if length oRowDList < 1 \<and> \<not> isMandatory schemaObj then rD
                 else AList.update (getSchemaName sD schemaId) (TRows oRowDList) rD)))
          schemaDataDictById []"

definition sliceColumnwise ::
  "schemaDefAccess \<Rightarrow> tabledata \<Rightarrow> string \<Rightarrow> parentValue list \<Rightarrow> sliceIndex \<Rightarrow> document" where
  "sliceColumnwise sD schemaDataDictById sliceFilter sliceValues sliceIndex =
     fold (\<lambda>kv rD.
             (let schemaId = fst kv; schemaObj = getSchemaObject sD schemaId in
              if map_of sliceIndex schemaId = None \<and> \<not> isSliceExtra schemaObj sliceFilter then rD
              else
                (let colD = columnsOf (getAttributeName_s schemaObj)
                              (filter (\<lambda>iRowD. isSliceExtra schemaObj sliceFilter \<or>
                                                inSlice schemaId sliceIndex iRowD sliceValues) (snd kv)) in
                 if length colD < 1 \<and> \<not> isMandatory schemaObj then rD
                 else AList.update (getSchemaName sD schemaId) (TCols colD) rD)))
          schemaDataDictById []"

text \<open>
  \<^verbatim>\<open>__reshapeSlicedSchemaData\<close>. The style \<^verbatim>\<open>rowwise_no_name\<close> goes to the unsliced
  \<^verbatim>\<open>__shapeRowwiseNoName\<close>; an exception gives the input back.
\<close>

definition reshapeSlicedSchemaData ::
  "schemaDefAccess \<Rightarrow> tabledata \<Rightarrow> string \<Rightarrow> parentValue list \<Rightarrow> sliceIndex \<Rightarrow> string \<Rightarrow>
   pyerr + (document \<times> logev list)" where
  "reshapeSlicedSchemaData sD schemaDataDictById sliceFilter sliceValues sliceIndex styleType =
     (case (if styleType = ''rowwise_by_name''
            then Inr (sliceRowwiseByName sD schemaDataDictById sliceFilter sliceValues sliceIndex, [])
            else if styleType = ''rowwise_by_name_with_cardinality''
            then Inr (sliceRowwiseByNameWithCard sD schemaDataDictById sliceFilter sliceValues sliceIndex, [])
            else if styleType = ''columnwise_by_name''
            then Inr (sliceColumnwise sD schemaDataDictById sliceFilter sliceValues sliceIndex, [])
            else if styleType = ''rowwise_no_name''
            then (case shapeRowwiseNoName sD schemaDataDictById of
                    Inl e \<Rightarrow> Inl e
                  | Inr rD \<Rightarrow> Inr (rD, []))
            else if styleType = ''rowwise_by_id'' then Inr (byId schemaDataDictById, [])
            else Inr (byId schemaDataDictById, [LogWarning styleType])) of
        Inl e \<Rightarrow> Inr (byId schemaDataDictById, [LogException ''Failing''])
      | Inr r \<Rightarrow> Inr r)"

subsection \<open>The one-pass slice\<close>

text \<open>
  The partitions of \<^verbatim>\<open>__sliceRowwiseByNameWithCardOnePass\<close> live in \<^verbatim>\<open>retD\<close>, keyed by
  single parent values. \<^verbatim>\<open>copy.copy(rD)\<close> gives every partition a dictionary of its own
  whose values are the very objects stored in \<^verbatim>\<open>rD\<close>: the state keeps those objects
  once, in \<open>sharedD\<close> under their key of \<^verbatim>\<open>rD\<close>, and a partition entry \<open>CShared\<close> under a
  key refers to the object of \<open>sharedD\<close> under that key. \<open>CList\<close> is a list made by
  \<^verbatim>\<open>setdefault\<close> for this partition, \<open>CRow\<close> a row dictionary stored by assignment.
\<close>

datatype cell = CShared | CList "row list" | CRow row

type_synonym partition = "(string \<times> cell) list"

record onePassState =
  sharedD :: document
  retD :: "(val \<times> partition) list"

definition truthy :: "val \<Rightarrow> bool" where
  "truthy v = (case v of VNone \<Rightarrow> False | VStr s \<Rightarrow> s \<noteq> [] | VList l \<Rightarrow> l \<noteq> [] | VDate d \<Rightarrow> True)"

definition hashable :: "val \<Rightarrow> bool" where
  "hashable v = (case v of VList l \<Rightarrow> False | _ \<Rightarrow> True)"

text \<open>\<^verbatim>\<open>pVals\<close>: the values of all tuples of the enumerator, in order.\<close>

definition parentValueList :: "parentValue list list \<Rightarrow> val list" where
  "parentValueList tuples = concat (map (map snd) tuples)"

text \<open>
  \<^verbatim>\<open>singleKeyAtD\<close>, from the first tuple of the enumerator: for every parent item of the
  tuple and every table of the slice index that is in the data and has that parent item,
  the child attributes are appended to the table's list. (\<^verbatim>\<open>sfAtD[schemaId]\<close> is emptied on
  every pass, so it never holds two keys and the error on slice complexity is never
  logged.)
\<close>

definition addSingleKey ::
  "tabledata \<Rightarrow> parentItem \<Rightarrow> string \<times> (parentItem \<times> string list) list \<Rightarrow>
   (string \<times> string list) list \<Rightarrow> (string \<times> string list) list" where
  "addSingleKey schemaDataDictById p kv singleKeyAtD =
     (case map_of (snd kv) p of
        None \<Rightarrow> singleKeyAtD
      | Some cAtIds \<Rightarrow>
          if map_of schemaDataDictById (fst kv) = None then singleKeyAtD
          else AList.update (fst kv)
                 ((case map_of singleKeyAtD (fst kv) of None \<Rightarrow> [] | Some l \<Rightarrow> l) @ cAtIds)
                 singleKeyAtD)"

definition singleKeys :: "tabledata \<Rightarrow> sliceIndex \<Rightarrow> parentValue list \<Rightarrow> (string \<times> string list) list" where
  "singleKeys schemaDataDictById sliceIndex pvTupL =
     fold (\<lambda>pvTup acc. fold (addSingleKey schemaDataDictById (fst pvTup)) sliceIndex acc) pvTupL []"

text \<open>The dictionary \<^verbatim>\<open>rD\<close> of the slice-extra tables; a table missing from the data raises.\<close>

definition addExtra :: "schemaDefAccess \<Rightarrow> tabledata \<Rightarrow> string \<Rightarrow> string \<Rightarrow> document \<Rightarrow> pyerr + document" where
  "addExtra sD schemaDataDictById sliceFilter schemaId rD =
     (case map_of schemaDataDictById schemaId of
        None \<Rightarrow> Inl KeyError
      | Some iRowDList \<Rightarrow>
         (let schemaObj = getSchemaObject sD schemaId;
              oRowDList = map (renameRow (getAttributeName_s schemaObj)) iRowDList
          in if length oRowDList < 1 \<and> \<not> isMandatory schemaObj then Inr rD
             else if hasSliceUnitCardinality schemaObj sliceFilter \<and> length oRowDList = 1
             then Inr (AList.update (getSchemaName sD schemaId) (TRow (oRowDList ! 0)) rD)
             else Inr (AList.update (getSchemaName sD schemaId) (TRows oRowDList) rD)))"

text \<open>
  One pass of \<^verbatim>\<open>for rv in rvS\<close>: a false value is skipped; a value that is no key of
  \<^verbatim>\<open>retD\<close> raises; \<^verbatim>\<open>append\<close> on a row dictionary raises.
\<close>

definition placeRow :: "bool \<Rightarrow> string \<Rightarrow> row \<Rightarrow> val \<Rightarrow> onePassState \<Rightarrow> pyerr + onePassState" where
  "placeRow uFlag schemaObjName oRowD rv st =
     (if \<not> truthy rv then Inr st
      else
        (case map_of (retD st) rv of
           None \<Rightarrow> Inl KeyError
         | Some part \<Rightarrow>
            if uFlag
            then Inr (st\<lparr>retD := AList.update rv (AList.update schemaObjName (CRow oRowD) part) (retD st)\<rparr>)
            else
              (case map_of part schemaObjName of
                 None \<Rightarrow>
                   Inr (st\<lparr>retD := AList.update rv (AList.update schemaObjName (CList [oRowD]) part) (retD st)\<rparr>)
               | Some (CList l) \<Rightarrow>
                   Inr (st\<lparr>retD := AList.update rv (AList.update schemaObjName (CList (l @ [oRowD])) part) (retD st)\<rparr>)
               | Some (CRow r) \<Rightarrow> Inl AttributeError
               | Some CShared \<Rightarrow>
                  (case map_of (sharedD st) schemaObjName of
                     Some (TRows l) \<Rightarrow>
                       Inr (st\<lparr>sharedD := AList.update schemaObjName (TRows (l @ [oRowD])) (sharedD st)\<rparr>)
                   | _ \<Rightarrow> Inl AttributeError))))"

text \<open>
  One row of a table of \<^verbatim>\<open>singleKeyAtD\<close>. \<^verbatim>\<open>rvS\<close> is a set: a list value is not hashable
  and raises; the order of a set is not specified, the model walks it in the order of
  \<open>remdups\<close>.
\<close>

definition placeRowValues ::
  "bool \<Rightarrow> string \<Rightarrow> (string \<Rightarrow> string) \<Rightarrow> string list \<Rightarrow> row \<Rightarrow> onePassState \<Rightarrow> pyerr + onePassState" where
  "placeRowValues uFlag schemaObjName nm atL iRowD st =
     (let rvL = map (\<lambda>at. case map_of iRowD at of Some v \<Rightarrow> v | None \<Rightarrow> VNone) atL in
      if \<not> list_all hashable rvL then Inl TypeError
      else foldE (placeRow uFlag schemaObjName (renameRow nm iRowD)) (remdups rvL) st)"

definition placeTable ::
  "schemaDefAccess \<Rightarrow> tabledata \<Rightarrow> string \<Rightarrow> string \<times> string list \<Rightarrow> onePassState \<Rightarrow> pyerr + onePassState" where
  "placeTable sD schemaDataDictById sliceFilter kv st =
     (let schemaObj = getSchemaObject sD (fst kv) in
      case map_of schemaDataDictById (fst kv) of
        None \<Rightarrow> Inl KeyError
      | Some iRowDList \<Rightarrow>
          foldE (placeRowValues (hasSliceUnitCardinality schemaObj sliceFilter) (getSchemaName sD (fst kv))
                   (getAttributeName_s schemaObj) (snd kv))
                iRowDList st)"

text \<open>\<^verbatim>\<open>copy.copy(rD)\<close>: a new dictionary with the keys of \<^verbatim>\<open>rD\<close> and its objects.\<close>

definition copyOf :: "document \<Rightarrow> partition" where
  "copyOf rD = map (\<lambda>kv. (fst kv, CShared)) rD"

text \<open>
  The whole function, up to the state before \<^verbatim>\<open>list(retD.values())\<close>. The enumerator is
  built twice from the same arguments; \<^verbatim>\<open>next\<close> on the second one raises when it is empty.
\<close>

definition onePassRun ::
  "schemaDefAccess \<Rightarrow> tabledata \<Rightarrow> string \<Rightarrow> sliceIndex \<Rightarrow> pyerr + onePassState" where
  "onePassRun sD schemaDataDictById sliceFilter sliceIndex =
     (case SliceValues schemaDataDictById sD sliceFilter of
        Inl e \<Rightarrow> Inl e
      | Inr tuples \<Rightarrow>
         (let pVals = parentValueList tuples in
          if \<not> list_all hashable pVals then Inl TypeError
          else
            (case tuples of
               [] \<Rightarrow> Inl StopIteration
             | pvTupL # others \<Rightarrow>
                (let retD0 = fold (\<lambda>k d. AList.update k [] d) pVals [];
                     singleKeyAtD = singleKeys schemaDataDictById sliceIndex pvTupL;
                     schemaIdExtraL = getSliceExtraSchemaIds sD sliceFilter
                 in case foldE (addExtra sD schemaDataDictById sliceFilter) schemaIdExtraL [] of
                      Inl e \<Rightarrow> Inl e
                    | Inr rD \<Rightarrow>
                        foldE (placeTable sD schemaDataDictById sliceFilter) singleKeyAtD
                          \<lparr> sharedD = rD,
                            retD = (if schemaIdExtraL = [] then retD0
                                    else fold (\<lambda>pv d. AList.update pv (copyOf rD) d) pVals retD0) \<rparr>))))"

text \<open>What a reader of the returned list sees: every cell followed to its object.\<close>

definition readCell :: "document \<Rightarrow> string \<Rightarrow> cell \<Rightarrow> tval" where
  "readCell shared nm c =
     (case c of
        CShared \<Rightarrow> (case map_of shared nm of Some t \<Rightarrow> t | None \<Rightarrow> TRows [])
      | CList l \<Rightarrow> TRows l
      | CRow r \<Rightarrow> TRow r)"

definition readPartition :: "document \<Rightarrow> partition \<Rightarrow> document" where
  "readPartition shared part = map (\<lambda>kv. (fst kv, readCell shared (fst kv) (snd kv))) part"

definition readPartitions :: "onePassState \<Rightarrow> document list" where
  "readPartitions st = map (\<lambda>kv. readPartition (sharedD st) (snd kv)) (retD st)"

definition sliceRowwiseByNameWithCardOnePass ::
  "schemaDefAccess \<Rightarrow> tabledata \<Rightarrow> string \<Rightarrow> sliceIndex \<Rightarrow> pyerr + document list" where
  "sliceRowwiseByNameWithCardOnePass sD schemaDataDictById sliceFilter sliceIndex =
     (case onePassRun sD schemaDataDictById sliceFilter sliceIndex of
        Inl e \<Rightarrow> Inl e
      | Inr st \<Rightarrow> Inr (readPartitions st))"

subsection \<open>The sliced shape\<close>

text \<open>
  \<^verbatim>\<open>applySlicedShape\<close>. An empty or missing slice filter gives the one unsliced shape. The
  enumerator is built before the style is looked at; style
  \<^verbatim>\<open>rowwise_by_name_with_cardinality\<close> takes the one-pass slice (\<^verbatim>\<open>flagNew\<close> is \<open>True\<close>),
  every other style reshapes once per tuple of the enumerator.
\<close>

fun slicesPerTuple ::
  "schemaDefAccess \<Rightarrow> tabledata \<Rightarrow> string \<Rightarrow> sliceIndex \<Rightarrow> string \<Rightarrow> parentValue list list \<Rightarrow>
   pyerr + (document list \<times> logev list)" where
  "slicesPerTuple sD schemaDataDictById sliceFilter sliceIndex styleType [] = Inr ([], [])"
| "slicesPerTuple sD schemaDataDictById sliceFilter sliceIndex styleType (sliceValue # rest) =
     (case reshapeSlicedSchemaData sD schemaDataDictById sliceFilter sliceValue sliceIndex styleType of
        Inl e \<Rightarrow> Inl e
      | Inr r \<Rightarrow>
         (case slicesPerTuple sD schemaDataDictById sliceFilter sliceIndex styleType rest of
            Inl e \<Rightarrow> Inl e
          | Inr rs \<Rightarrow> Inr (fst r # fst rs, snd r @ snd rs)))"

definition applySlicedShape ::
  "schemaDefAccess \<Rightarrow> tabledata \<Rightarrow> string \<Rightarrow> string option \<Rightarrow> pyerr + (document list \<times> logev list)" where
  "applySlicedShape sD schemaDataDictById styleType sliceFilterOpt =
     (case sliceFilterOpt of
        None \<Rightarrow>
          (case reshapeSchemaData sD schemaDataDictById styleType of
             Inl e \<Rightarrow> Inl e
           | Inr r \<Rightarrow> Inr ([fst r], snd r))
      | Some sliceFilter \<Rightarrow>
          if sliceFilter = [] then
            (case reshapeSchemaData sD schemaDataDictById styleType of
               Inl e \<Rightarrow> Inl e
             | Inr r \<Rightarrow> Inr ([fst r], snd r))
          else
            (let sliceIndex = getSliceIndex sD sliceFilter in
             case SliceValues schemaDataDictById sD sliceFilter of
               Inl e \<Rightarrow> Inl e
             | Inr sliceValues \<Rightarrow>
                 if styleType = ''rowwise_by_name_with_cardinality''
                 then (case sliceRowwiseByNameWithCardOnePass sD schemaDataDictById sliceFilter sliceIndex of
                         Inl e \<Rightarrow> Inl e
                       | Inr rL \<Rightarrow> Inr (rL, []))
                 else slicesPerTuple sD schemaDataDictById sliceFilter sliceIndex styleType sliceValues))"

section \<open>Notions used in the statements\<close>

text \<open>
  A document \<open>d\<close> made for the container \<open>c\<close>: the reserved key holds the container's
  name, and every other key holds what the transformation of the container's mapped
  tables holds. Likewise for a document made for an input path.
\<close>

definition containerDocument ::
  "(string \<Rightarrow> datetime option) \<Rightarrow> schemaDef \<Rightarrow> string list \<Rightarrow> string \<Rightarrow> string \<Rightarrow> string list option \<Rightarrow>
   container \<Rightarrow> document \<Rightarrow> bool" where
  "containerDocument parse sD excl styleType filterType cs c d =
     (map_of d ''__CONTAINER_NAME__'' = Some (TStr (getName c)) \<and>
      (\<exists>ow r. process_internal parse sD excl [c] filterType cs ow = Inr r \<and>
         (\<forall>k. k \<noteq> ''__CONTAINER_NAME__'' \<longrightarrow>
               map_of d k = map_of (transformTableData sD (fst r) styleType) k)))"

definition pathDocument ::
  "(string \<Rightarrow> datetime option) \<Rightarrow> schemaDef \<Rightarrow> string list \<Rightarrow> (string \<Rightarrow> container list) \<Rightarrow> string \<Rightarrow> string \<Rightarrow>
   string list option \<Rightarrow> string \<Rightarrow> document \<Rightarrow> bool" where
  "pathDocument parse sD excl readFile styleType filterType cs inputPath d =
     (map_of d ''__INPUT_PATH__'' = Some (TStr inputPath) \<and>
      (\<exists>ow r. fetch_internal parse sD excl readFile [inputPath] filterType cs ow = Inr r \<and>
         (\<forall>k. k \<noteq> ''__INPUT_PATH__'' \<longrightarrow>
               map_of d k = map_of (transformTableData sD (fst r) styleType) k)))"




text \<open>
  The raw value that a row of a category holds for a schema attribute, if the attribute is
  mapped, the category has the column and the row reaches it.
\<close>

definition rawValue :: "tableDef \<Rightarrow> category \<Rightarrow> string \<Rightarrow> string list \<Rightarrow> string option" where
  "rawValue tObj catObj atId row =
     (case getMapAttributeDict tObj atId of
        None \<Rightarrow> None
      | Some atName \<Rightarrow>
         (case getAttributeIndexDict catObj atName of
            None \<Rightarrow> None
          | Some i \<Rightarrow> if i < length row then Some (row ! i) else None))"







text \<open>
  The value that the extraction of one row assigns to an attribute, if it assigns one; the
  same for a single category and for merged categories.
\<close>

definition extracted ::
  "(string \<Rightarrow> datetime option) \<Rightarrow> tableDef \<Rightarrow> category \<Rightarrow> string \<Rightarrow> string \<Rightarrow> string list \<Rightarrow> val option" where
  "extracted parse tObj catObj filterType atId row =
     (case rawValue tObj catObj atId row of
        None \<Rightarrow> None
      | Some v \<Rightarrow>
         (case (if skipMaxWidthFlag filterType then Some 0 else getStringWidthDict tObj atId) of
            None \<Rightarrow> None
          | Some maxW \<Rightarrow>
              if dropEmptyFlag filterType \<and> isEmptyValue v then None
              else if assignDateFlag filterType \<and> isAttributeDateType tObj atId \<and> \<not> isEmptyValue v
              then Some (fst (assignDateType parse atId v))
              else if convertIterables filterType \<and> isIterable tObj atId \<and> \<not> isEmptyValue v
              then (case py_split v (getIterableSeparator tObj atId) of
                      Inl e \<Rightarrow> None
                    | Inr parts \<Rightarrow> Some (VList (map py_strip parts)))
              else if isMissingValue v then getSqlNullValueDict tObj atId
              else Some (VStr (if 0 < maxW then take (nat maxW) v else v))))"

text \<open>
  The source rows of a merged table, in the order in which they are processed: the
  categories in their given order, the rows of a category in their order. A source row
  has a merge key, the row dictionary it contributes to the merge, and, for an attribute
  that its category maps, the value it extracts.
\<close>

type_synonym source = "string \<times> category \<times> string list"

definition sources :: "container \<Rightarrow> string list \<Rightarrow> source list" where
  "sources myContainer categoryNameList =
     concat (map (\<lambda>categoryName. case getObj myContainer categoryName of
                                     None \<Rightarrow> []
                                   | Some catObj \<Rightarrow> map (\<lambda>row. (categoryName, catObj, row)) (getRowList catObj))
                 categoryNameList)"

definition sourceKey :: "tableDef \<Rightarrow> source \<Rightarrow> string list" where
  "sourceKey tObj s = mergeKey (fst (snd s)) (getMapMergeIndexAttributes tObj (fst s)) (snd (snd s))"

definition sourceDict :: "(string \<Rightarrow> datetime option) \<Rightarrow> tableDef \<Rightarrow> string \<Rightarrow> source \<Rightarrow> row" where
  "sourceDict parse tObj filterType s =
     fold (mapAttributeMerge parse tObj (fst (snd s)) filterType (snd (snd s)))
          (getMapInstanceAttributeIdList tObj (fst s))
          (case newRow tObj filterType of Inr d0 \<Rightarrow> d0 | Inl e \<Rightarrow> [])"

definition sourceValue ::
  "(string \<Rightarrow> datetime option) \<Rightarrow> tableDef \<Rightarrow> string \<Rightarrow> source \<Rightarrow> string \<Rightarrow> val option" where
  "sourceValue parse tObj filterType s atId =
     (if atId \<in> set (getMapInstanceAttributeIdList tObj (fst s))
      then extracted parse tObj (fst (snd s)) filterType atId (snd (snd s))
      else None)"

text \<open>The value extracted for an attribute by the last of some source rows that extracts one.\<close>

definition lastExtracted ::
  "(string \<Rightarrow> datetime option) \<Rightarrow> tableDef \<Rightarrow> string \<Rightarrow> source list \<Rightarrow> string \<Rightarrow> val option" where
  "lastExtracted parse tObj filterType ss atId =
     fold (\<lambda>s acc. case sourceValue parse tObj filterType s atId of None \<Rightarrow> acc | Some v \<Rightarrow> Some v)
          ss None"

text \<open>The value that the merge dictionary holds for a merge key and an attribute.\<close>

definition valueAt :: "mergeDict \<Rightarrow> string list \<Rightarrow> string \<Rightarrow> val option" where
  "valueAt mD tk a = (case map_of mD tk of None \<Rightarrow> None | Some r \<Rightarrow> map_of r a)"

text \<open>
  The cell that the one-pass state holds for a parent value and a table name, and the
  values that a row holds in a list of child attributes (\<open>None\<close> for a missing one).
\<close>

definition cellAt :: "onePassState \<Rightarrow> val \<Rightarrow> string \<Rightarrow> cell option" where
  "cellAt st v nm = (case map_of (retD st) v of None \<Rightarrow> None | Some part \<Rightarrow> map_of part nm)"

definition childValues :: "string list \<Rightarrow> row \<Rightarrow> val list" where
  "childValues atL iRowD = map (\<lambda>at. case map_of iRowD at of Some v \<Rightarrow> v | None \<Rightarrow> VNone) atL"

text \<open>A row follows a parent value: one of the child attributes holds that value.\<close>

definition follows :: "string list \<Rightarrow> val \<Rightarrow> row \<Rightarrow> bool" where
  "follows cAtIds v iRowD = list_ex (\<lambda>cAtId. map_of iRowD cAtId = Some v) cAtIds"

text \<open>The value of a table in a record set: its rows renamed, collapsed under unit cardinality.\<close>

definition tableValue :: "bool \<Rightarrow> row list \<Rightarrow> tval" where
  "tableValue unitCard oRowDList =
     (if unitCard \<and> length oRowDList = 1 then TRow (oRowDList ! 0) else TRows oRowDList)"

text \<open>
  The cell of a partition and table name after a row has been placed there: under unit
  cardinality the row replaces what was there, otherwise it is appended to the list.
\<close>

definition placedCell :: "bool \<Rightarrow> row \<Rightarrow> cell option \<Rightarrow> cell option" where
  "placedCell uFlag oRowD c =
     (if uFlag then Some (CRow oRowD)
      else (case c of
              None \<Rightarrow> Some (CList [oRowD])
            | Some (CList l) \<Rightarrow> Some (CList (l @ [oRowD]))
            | Some other \<Rightarrow> Some other))"

text \<open>No partition refers, under the table name, to an object shared with the others.\<close>

definition notShared :: "onePassState \<Rightarrow> string \<Rightarrow> bool" where
  "notShared st nm = (\<forall>v. cellAt st v nm \<noteq> Some CShared)"

text \<open>
  The cell that placing a list of rows, one after the other, leaves where there was none:
  under unit cardinality the last row, otherwise the list.
\<close>

definition placedRows :: "bool \<Rightarrow> row list \<Rightarrow> cell option" where
  "placedRows uFlag oRowDList =
     (if oRowDList = [] then None
      else if uFlag then Some (CRow (last oRowDList))
      else Some (CList oRowDList))"

text \<open>
  The value of a slice-extra table in the dictionary \<^verbatim>\<open>rD\<close> of the one-pass slice: all its
  rows, renamed; none for an empty table that is not mandatory.
\<close>

definition extraValue :: "schemaDefAccess \<Rightarrow> tabledata \<Rightarrow> string \<Rightarrow> string \<Rightarrow> tval option" where
  "extraValue sD schemaDataDictById sliceFilter schemaId =
     (case map_of schemaDataDictById schemaId of
        None \<Rightarrow> None
      | Some iRowDList \<Rightarrow>
          if iRowDList = [] \<and> \<not> isMandatory (getSchemaObject sD schemaId) then None
          else Some (tableValue (hasSliceUnitCardinality (getSchemaObject sD schemaId) sliceFilter)
                       (map (renameRow (getAttributeName_s (getSchemaObject sD schemaId))) iRowDList)))"

text \<open>What a reader sees in the partition of a parent value under a table name.\<close>

definition readAt :: "onePassState \<Rightarrow> val \<Rightarrow> string \<Rightarrow> tval option" where
  "readAt st v nm = map_option (readCell (sharedD st) nm) (cellAt st v nm)"

section \<open>Example schema and data\<close>

text \<open>
  A small schema and one container, for the evaluations below: the tables \<open>ENTITY\<close>,
  \<open>ENTITY_POLY\<close> and \<open>STATUS\<close> (with a date attribute), each mapped from one category,
  and the table \<open>MERGED\<close>, mapped from the categories \<open>cat_a\<close> and \<open>cat_b\<close> and merged
  on \<open>id\<close>.
\<close>

definition ex_names :: "(string \<times> string) list \<Rightarrow> string \<Rightarrow> string" where
  "ex_names al a = (case map_of al a of Some n \<Rightarrow> n | None \<Rightarrow> a)"

definition mkTable ::
  "string \<Rightarrow> (string \<times> string \<times> int) list \<Rightarrow> string list \<Rightarrow> (string \<times> string list \<times> string list) list \<Rightarrow> tableDef" where
  "mkTable tid attrs dates cats =
     \<lparr> getId = tid,
       getAttributeIdList = map fst attrs,
       getAttributeName = ex_names (map (\<lambda>a. (fst a, fst (snd a))) attrs),
       getMapAttributeDict = map_of (map (\<lambda>a. (fst a, fst (snd a))) attrs),
       getSqlNullValueDict = map_of (map (\<lambda>a. (fst a, VNone)) attrs),
       getStringWidthDict = map_of (map (\<lambda>a. (fst a, snd (snd a))) attrs),
       isAttributeDateType = (\<lambda>a. a \<in> set dates),
       isIterable = (\<lambda>a. False),
       getIterableSeparator = (\<lambda>a. '',''),
       getMapInstanceCategoryList = map fst cats,
       getMapInstanceAttributeIdList = (\<lambda>c. case map_of cats c of Some x \<Rightarrow> fst x | None \<Rightarrow> []),
       getMapMergeIndexAttributes = (\<lambda>c. case map_of cats c of Some x \<Rightarrow> snd x | None \<Rightarrow> []),
       getMapOtherAttributeIdList = [],
       getMapAttributeFunction = (\<lambda>a. []) \<rparr>"

definition mkCategory :: "string list \<Rightarrow> string list list \<Rightarrow> category" where
  "mkCategory names rows =
     \<lparr> getAttributeIndexDict = map_of (zip names [0 ..< length names]), getRowList = rows \<rparr>"

definition ex_container :: container where
  "ex_container =
     \<lparr> getName = ''1ABC'',
       getObj = map_of
         [(''entity'', mkCategory [''id'', ''type''] [[''1'', ''polymer''], [''2'', ''water'']]),
          (''entity_poly'', mkCategory [''entity_id'', ''seq''] [[''1'', ''ACD'']]),
          (''cat_a'', mkCategory [''id'', ''x''] [[''1'', ''foo'']]),
          (''cat_b'', mkCategory [''id'', ''y''] [[''1'', ''bar'']]),
          (''status'', mkCategory [''date''] [[''2018-01-01:10:00:00'']])] \<rparr>"

definition ex_entityT :: tableDef where
  "ex_entityT = mkTable ''ENTITY'' [(''ID'', ''id'', 10), (''TYPE'', ''type'', 4)] []
                  [(''entity'', [''ID'', ''TYPE''], [])]"

definition ex_polyT :: tableDef where
  "ex_polyT = mkTable ''ENTITY_POLY'' [(''ENTITY_ID'', ''entity_id'', 10), (''SEQ'', ''seq'', 0)] []
                  [(''entity_poly'', [''ENTITY_ID'', ''SEQ''], [])]"

definition ex_mergedT :: tableDef where
  "ex_mergedT = mkTable ''MERGED''
                  [(''ID'', ''id'', 10), (''X'', ''x'', 2), (''Y'', ''y'', 10), (''Z'', ''z'', 10)] []
                  [(''cat_a'', [''ID'', ''X''], [''id'']), (''cat_b'', [''ID'', ''Y''], [''id''])]"


definition ex_schema :: schemaDef where
  "ex_schema =
     \<lparr> getTableIdList = [''ENTITY'', ''ENTITY_POLY''],
       getTable = (\<lambda>t. if t = ''ENTITY'' then ex_entityT
                        else if t = ''ENTITY_POLY'' then ex_polyT else ex_mergedT),
       getTableName = (\<lambda>t. if t = ''ENTITY'' then ''entity''
                            else if t = ''ENTITY_POLY'' then ''entity_poly'' else ''merged''),
       hasUnitCardinality = (\<lambda>t. t = ''ENTITY_POLY''),
       getTableAttributeIdList = (\<lambda>t. if t = ''ENTITY'' then [''ID'', ''TYPE'']
                                       else [''ENTITY_ID'', ''SEQ'']),
       getTableAttributeNameList = (\<lambda>t. if t = ''ENTITY'' then [''id'', ''type'']
                                         else [''entity_id'', ''seq'']),
       getContentSelector = Map.empty \<rparr>"

text \<open>The mapped tables of the container, by identifier.\<close>

definition ex_tables :: tabledata where
  "ex_tables =
     [(''ENTITY'', [[(''ID'', VStr ''1''), (''TYPE'', VStr ''polymer'')],
                    [(''ID'', VStr ''2''), (''TYPE'', VStr ''water'')]]),
      (''ENTITY_POLY'', [[(''ENTITY_ID'', VStr ''1''), (''SEQ'', VStr ''ACD'')]])]"

text \<open>
  The schema access of the reshaping class for the same tables, with the slice \<open>ENTITY\<close>:
  the parent item is \<open>ENTITY.ID\<close>, the table \<open>ENTITY\<close> is slice-extra, and the rows of
  \<open>ENTITY_POLY\<close> follow the parent through \<open>ENTITY_ID\<close>.
\<close>

definition ex_entityObj :: schemaObj where
  "ex_entityObj = \<lparr> isSliceExtra = (\<lambda>f. True), getAttributeName_s = ex_names [(''ID'', ''id''), (''TYPE'', ''type'')],
                    isMandatory = False, hasSliceUnitCardinality = (\<lambda>f. False) \<rparr>"

definition ex_polyObj :: schemaObj where
  "ex_polyObj = \<lparr> isSliceExtra = (\<lambda>f. False),
                  getAttributeName_s = ex_names [(''ENTITY_ID'', ''entity_id''), (''SEQ'', ''seq'')],
                  isMandatory = False, hasSliceUnitCardinality = (\<lambda>f. True) \<rparr>"

definition ex_access :: schemaDefAccess where
  "ex_access =
     \<lparr> getSliceParentItems = (\<lambda>f. [(''ENTITY'', ''ID'')]),
       getSliceParentFilters = (\<lambda>f. []),
       getSliceIndex = (\<lambda>f. [(''ENTITY_POLY'', [((''ENTITY'', ''ID''), [''ENTITY_ID''])])]),
       getSliceExtraSchemaIds = (\<lambda>f. [''ENTITY'']),
       getSchemaObject = (\<lambda>t. if t = ''ENTITY'' then ex_entityObj else ex_polyObj),
       getSchemaName = (\<lambda>t. if t = ''ENTITY'' then ''entity'' else ''entity_poly''),
       hasUnitCardinality_s = (\<lambda>t. t = ''ENTITY_POLY''),
       getAttributeIdList_s = (\<lambda>t. if t = ''ENTITY'' then [''ID'', ''TYPE''] else [''ENTITY_ID'', ''SEQ'']),
       getAttributeNameList_s = (\<lambda>t. if t = ''ENTITY'' then [''id'', ''type'']
                                      else [''entity_id'', ''seq'']) \<rparr>"

text \<open>The documents made for the container, by name and by identifier.\<close>

definition ex_documents :: "document list" where
  "ex_documents =
     [[(''entity'', TRows [[(''id'', VStr ''1''), (''type'', VStr ''poly'')],
                           [(''id'', VStr ''2''), (''type'', VStr ''wate'')]]),
       (''entity_poly'', TRows [[(''entity_id'', VStr ''1''), (''seq'', VStr ''ACD'')]]),
       (''__CONTAINER_NAME__'', TStr ''1ABC'')]]"

definition ex_path_documents :: "document list" where
  "ex_path_documents =
     [[(''ENTITY'', TRows [[(''ID'', VStr ''1''), (''TYPE'', VStr ''poly'')],
                           [(''ID'', VStr ''2''), (''TYPE'', VStr ''wate'')]]),
       (''ENTITY_POLY'', TRows [[(''ENTITY_ID'', VStr ''1''), (''SEQ'', VStr ''ACD'')]]),
       (''__INPUT_PATH__'', TStr ''1abc.cif'')]]"

text \<open>The table \<open>ENTITY\<close> mapped from two containers that both have an entity 1.\<close>

definition ex_tables_two :: tabledata where
  "ex_tables_two =
     [(''ENTITY'', [[(''ID'', VStr ''1''), (''TYPE'', VStr ''polymer'')],
                    [(''ID'', VStr ''1''), (''TYPE'', VStr ''polymer'')]])]"

text \<open>
  The tables as mapped with \<^verbatim>\<open>drop-empty-attributes\<close> when the second entity has no type:
  its row lacks the attribute \<open>TYPE\<close>.
\<close>

definition ex_tables_sparse :: tabledata where
  "ex_tables_sparse =
     [(''ENTITY'', [[(''ID'', VStr ''1''), (''TYPE'', VStr ''polymer'')],
                    [(''ID'', VStr ''2'')]]),
      (''ENTITY_POLY'', [[(''ENTITY_ID'', VStr ''1''), (''SEQ'', VStr ''ACD'')]])]"



text \<open>
  The same slice with a second slice-extra table \<open>ENTRY\<close>, which is not mandatory and has
  no row in the record set.
\<close>

definition ex_entryObj :: schemaObj where
  "ex_entryObj = \<lparr> isSliceExtra = (\<lambda>f. True), getAttributeName_s = ex_names [(''ID'', ''id'')],
                   isMandatory = False, hasSliceUnitCardinality = (\<lambda>f. False) \<rparr>"

definition ex_access_entry :: schemaDefAccess where
  "ex_access_entry =
     ex_access \<lparr> getSliceExtraSchemaIds := (\<lambda>f. [''ENTITY'', ''ENTRY'']),
                 getSchemaObject := (\<lambda>t. if t = ''ENTITY'' then ex_entityObj
                                          else if t = ''ENTRY'' then ex_entryObj else ex_polyObj),
                 getSchemaName := (\<lambda>t. if t = ''ENTITY'' then ''entity''
                                        else if t = ''ENTRY'' then ''entry'' else ''entity_poly'') \<rparr>"

definition ex_tables_entry :: tabledata where
  "ex_tables_entry = ex_tables @ [(''ENTRY'', [])]"

text \<open>
  The same slice when the slice-extra table \<open>ENTITY\<close> is also in the slice index, its rows
  following the parent through their own \<open>ID\<close>.
\<close>

definition ex_access_own :: schemaDefAccess where
  "ex_access_own =
     ex_access \<lparr> getSliceIndex := (\<lambda>f. [(''ENTITY'', [((''ENTITY'', ''ID''), [''ID''])]),
                                        (''ENTITY_POLY'', [((''ENTITY'', ''ID''), [''ENTITY_ID''])])]) \<rparr>"

text \<open>
  The state in which the one-pass slice of the mapped tables ends: the rows of the
  slice-extra table \<open>ENTITY\<close> are held once, and both partitions refer to them.
\<close>

definition ex_state :: onePassState where
  "ex_state =
     \<lparr> sharedD = [(''entity'', TRows [[(''id'', VStr ''1''), (''type'', VStr ''polymer'')],
                                      [(''id'', VStr ''2''), (''type'', VStr ''water'')]])],
       retD = [(VStr ''1'', [(''entity'', CShared),
                             (''entity_poly'', CRow [(''entity_id'', VStr ''1''), (''seq'', VStr ''ACD'')])]),
               (VStr ''2'', [(''entity'', CShared)])] \<rparr>"

text \<open>The mapped tables when \<open>ENTITY_POLY\<close> has a row for an entity 3 that \<open>ENTITY\<close> lacks.\<close>

definition ex_tables_unmatched :: tabledata where
  "ex_tables_unmatched =
     [(''ENTITY'', [[(''ID'', VStr ''1''), (''TYPE'', VStr ''polymer'')],
                    [(''ID'', VStr ''2''), (''TYPE'', VStr ''water'')]]),
      (''ENTITY_POLY'', [[(''ENTITY_ID'', VStr ''1''), (''SEQ'', VStr ''ACD'')],
                         [(''ENTITY_ID'', VStr ''3''), (''SEQ'', VStr ''GGG'')]])]"

text \<open>The mapped tables of a container that has no \<open>ENTITY\<close> row at all.\<close>

definition ex_tables_orphan :: tabledata where
  "ex_tables_orphan = [(''ENTITY_POLY'', [[(''ENTITY_ID'', VStr ''1''), (''SEQ'', VStr ''ACD'')]])]"
section \<open>Dictionaries built by assignment\<close>

lemma fold_update_other:
  "k \<notin> f ` set xs \<Longrightarrow>
   map_of (fold (\<lambda>kv rD. AList.update (f kv) (g kv) rD) xs acc) k = map_of acc k"
  by (induction xs arbitrary: acc) (auto simp: update_conv')

lemma fold_update_lookup:
  assumes "distinct (map fst xs)" and "inj_on nm (fst ` set xs)" and "(k, v) \<in> set xs"
  shows "map_of (fold (\<lambda>kv rD. AList.update (nm (fst kv)) (g kv) rD) xs acc) (nm k) = Some (g (k, v))"
  using assms
proof (induction xs arbitrary: acc)
  case Nil
  then show ?case by simp
next
  case (Cons x xs)
  show ?case
  proof (cases "x = (k, v)")
    case True
    have "k \<notin> fst ` set xs" using Cons.prems(1) True by auto
    then have "nm k \<notin> (\<lambda>kv. nm (fst kv)) ` set xs"
      using Cons.prems(2) True by (auto simp: inj_on_def)
    then show ?thesis using True
      by (simp add: fold_update_other update_conv')
  next
    case False
    then have "(k, v) \<in> set xs" using Cons.prems(3) by auto
    moreover have "distinct (map fst xs)" using Cons.prems(1) by simp
    moreover have "inj_on nm (fst ` set xs)" using Cons.prems(2) by (auto simp: inj_on_def)
    ultimately show ?thesis using Cons.IH by simp
  qed
qed

lemma foldE_docs:
  assumes step: "\<And>x acc acc'. f x acc = Inr acc' \<Longrightarrow> \<exists>d. fst acc' = fst acc @ [d] \<and> P x d"
  shows "foldE f xs acc = Inr acc' \<Longrightarrow> \<exists>new. fst acc' = fst acc @ new \<and> list_all2 P xs new"
proof (induction xs arbitrary: acc)
  case Nil
  then show ?case by simp
next
  case (Cons x xs)
  from Cons.prems obtain acc1 where a1: "f x acc = Inr acc1" and r: "foldE f xs acc1 = Inr acc'"
    by (auto split: sum.splits)
  from step [OF a1] obtain d where d: "fst acc1 = fst acc @ [d]" "P x d" by blast
  from Cons.IH [OF r] obtain new where n: "fst acc' = fst acc1 @ new" "list_all2 P xs new" by blast
  have "fst acc' = fst acc @ (d # new)" using d n by simp
  moreover have "list_all2 P (x # xs) (d # new)" using d n by simp
  ultimately show ?case by blast
qed

section \<open>Date values that do not parse\<close>

lemma replace_first_absent: "a \<notin> set s \<Longrightarrow> replace_first a b s = s"
  by (induction s) auto

lemma assignDateType_without_colon:
  "CHR '':'' \<notin> set value \<Longrightarrow> parse value = None \<Longrightarrow>
   fst (assignDateType parse atId value) = VStr value"
  by (simp add: assignDateType_def replace_first_absent)

text \<open>
  C8. A date-typed value that does not parse is not fatal, and the error is logged; but
  the value assigned is the string after the replacement of its first colon by a space,
  not the raw string. For the raw value \<^verbatim>\<open>2018-01-01:25:00:00\<close>, whose hour is out of
  range, the attribute receives \<^verbatim>\<open>2018-01-01 25:00:00\<close>.
\<close>

theorem assignDateType_failure_value:
  "assignDateType strict_parse ''REL'' ''2018-01-01:25:00:00'' =
     (VStr ''2018-01-01 25:00:00'', [LogException ''REL 2018-01-01 25:00:00''])"
  by code_simp

section \<open>Collapse of unit-cardinality tables\<close>

text \<open>
  C9. With style \<^verbatim>\<open>rowwise_by_name_with_cardinality\<close>, in the data mapper's transformation
  and in the reshaping class alike, the value stored for a table that has unit cardinality
  and exactly one row is that row itself, as one row object with the attributes renamed;
  the value stored for any other table is the list of all its rows, renamed, in their
  order. The input is a dictionary (its keys are distinct) and the tables in it have
  different names.
\<close>

theorem cardinality_collapse:
  assumes "distinct (map fst tableDataDictById)"
    and "inj_on (getTableName sD) (fst ` set tableDataDictById)"
    and "inj_on (getSchemaName sA) (fst ` set tableDataDictById)"
    and "(tableId, iRowDList) \<in> set tableDataDictById"
  shows "map_of (transformTableData sD tableDataDictById ''rowwise_by_name_with_cardinality'')
             (getTableName sD tableId)
           = Some (if hasUnitCardinality sD tableId \<and> length iRowDList = 1
                   then TRow (renameRow (getAttributeName (getTable sD tableId)) (iRowDList ! 0))
                   else TRows (map (renameRow (getAttributeName (getTable sD tableId))) iRowDList))
       \<and> (\<exists>doc. applyShape sA tableDataDictById ''rowwise_by_name_with_cardinality'' = Inr (doc, [])
             \<and> map_of doc (getSchemaName sA tableId)
                 = Some (if hasUnitCardinality_s sA tableId \<and> length iRowDList = 1
                         then TRow (renameRow (getAttributeName_s (getSchemaObject sA tableId)) (iRowDList ! 0))
                         else TRows (map (renameRow (getAttributeName_s (getSchemaObject sA tableId)))
                                         iRowDList)))"
proof -
  let ?t = "withCard (hasUnitCardinality sD tableId) (getAttributeName (getTable sD tableId)) iRowDList"
  let ?u = "withCard (hasUnitCardinality_s sA tableId)
              (getAttributeName_s (getSchemaObject sA tableId)) iRowDList"
  have t: "map_of (transformTableData sD tableDataDictById ''rowwise_by_name_with_cardinality'')
             (getTableName sD tableId) = Some ?t"
    unfolding transformTableData_def transformRowwiseByNameWithCard_def
    using fold_update_lookup [OF assms(1) assms(2) assms(4),
        where g = "\<lambda>kv. withCard (hasUnitCardinality sD (fst kv))
                          (getAttributeName (getTable sD (fst kv))) (snd kv)"]
    by simp
  have a: "applyShape sA tableDataDictById ''rowwise_by_name_with_cardinality''
             = Inr (shapeRowwiseByNameWithCard sA tableDataDictById, [])"
    by (simp add: applyShape_def reshapeSchemaData_def)
  have u: "map_of (shapeRowwiseByNameWithCard sA tableDataDictById) (getSchemaName sA tableId) = Some ?u"
    unfolding shapeRowwiseByNameWithCard_def
    using fold_update_lookup [OF assms(1) assms(3) assms(4),
        where g = "\<lambda>kv. withCard (hasUnitCardinality_s sA (fst kv))
                          (getAttributeName_s (getSchemaObject sA (fst kv))) (snd kv)"]
    by simp
  have c: "\<And>b nm. withCard b nm iRowDList
                    = (if b \<and> length iRowDList = 1 then TRow (renameRow nm (iRowDList ! 0))
                       else TRows (map (renameRow nm) iRowDList))"
    by (simp add: withCard_def)
  show ?thesis using t a u unfolding c by blast
qed

theorem cardinality_collapse_witness:
  "distinct (map fst ex_tables)
   \<and> inj_on (getTableName ex_schema) (fst ` set ex_tables)
   \<and> inj_on (getSchemaName ex_access) (fst ` set ex_tables)
   \<and> (''ENTITY_POLY'', [[(''ENTITY_ID'', VStr ''1''), (''SEQ'', VStr ''ACD'')]]) \<in> set ex_tables
   \<and> map_of (transformTableData ex_schema ex_tables ''rowwise_by_name_with_cardinality'') ''entity_poly''
       = Some (TRow [(''entity_id'', VStr ''1''), (''seq'', VStr ''ACD'')])
   \<and> (\<exists>doc. applyShape ex_access ex_tables ''rowwise_by_name_with_cardinality'' = Inr (doc, [])
         \<and> map_of doc ''entity_poly'' = Some (TRow [(''entity_id'', VStr ''1''), (''seq'', VStr ''ACD'')]))"
proof -
  have h1: "distinct (map fst ex_tables)" by (simp add: ex_tables_def)
  have h2: "inj_on (getTableName ex_schema) (fst ` set ex_tables)"
    by (simp add: ex_tables_def ex_schema_def)
  have h3: "inj_on (getSchemaName ex_access) (fst ` set ex_tables)"
    by (simp add: ex_tables_def ex_access_def)
  have h4: "(''ENTITY_POLY'', [[(''ENTITY_ID'', VStr ''1''), (''SEQ'', VStr ''ACD'')]]) \<in> set ex_tables"
    by (simp add: ex_tables_def)
  have u1: "hasUnitCardinality ex_schema ''ENTITY_POLY''" "getTableName ex_schema ''ENTITY_POLY'' = ''entity_poly''"
    by (simp_all add: ex_schema_def)
  have u2: "hasUnitCardinality_s ex_access ''ENTITY_POLY''"
    "getSchemaName ex_access ''ENTITY_POLY'' = ''entity_poly''" by (simp_all add: ex_access_def)
  have r1: "renameRow (getAttributeName (getTable ex_schema ''ENTITY_POLY''))
              [(''ENTITY_ID'', VStr ''1''), (''SEQ'', VStr ''ACD'')]
            = [(''entity_id'', VStr ''1''), (''seq'', VStr ''ACD'')]" by code_simp
  have r2: "renameRow (getAttributeName_s (getSchemaObject ex_access ''ENTITY_POLY''))
              [(''ENTITY_ID'', VStr ''1''), (''SEQ'', VStr ''ACD'')]
            = [(''entity_id'', VStr ''1''), (''seq'', VStr ''ACD'')]" by code_simp
  from cardinality_collapse [OF h1 h2 h3 h4] u1 u2 r1 r2 h1 h2 h3 h4 show ?thesis by simp
qed

section \<open>Reserved keys of the documents\<close>

text \<open>
  C10. Whenever \<^verbatim>\<open>processDocuments\<close> returns, it returns one document per container, in
  order; the document holds the container's name under \<^verbatim>\<open>__CONTAINER_NAME__\<close> and, under
  every other key, what the transformation of that container's tables holds, whatever the
  style. The same holds for \<^verbatim>\<open>fetchDocuments\<close>, the input paths and \<^verbatim>\<open>__INPUT_PATH__\<close>.
\<close>

theorem reserved_keys:
  "(processDocuments parse sD excl containerList styleType filterType cs ow = Inr (docs, names, ow') \<longrightarrow>
      list_all2 (containerDocument parse sD excl styleType filterType cs) containerList docs)
   \<and> (fetchDocuments parse sD excl readFile inputPathList styleType filterType cs ow
         = Inr (fdocs, fnames, fow') \<longrightarrow>
      list_all2 (pathDocument parse sD excl readFile styleType filterType cs) inputPathList fdocs)"
proof (intro conjI impI)
  assume a: "processDocuments parse sD excl containerList styleType filterType cs ow = Inr (docs, names, ow')"
  have "\<exists>new. fst (docs, names, ow') = fst (([]::document list), ([]::string list), ow) @ new
          \<and> list_all2 (containerDocument parse sD excl styleType filterType cs) containerList new"
  proof (rule foldE_docs [where f = "processDocument parse sD excl styleType filterType cs"])
    fix x acc acc'
    assume "processDocument parse sD excl styleType filterType cs x acc = Inr acc'"
    then obtain r where r: "process_internal parse sD excl [x] filterType cs (snd (snd acc)) = Inr r"
      and d: "fst acc' = fst acc @ [AList.update ''__CONTAINER_NAME__'' (TStr (getName x))
                                     (transformTableData sD (fst r) styleType)]"
      by (auto simp: processDocument_def Let_def split: sum.splits)
    have "containerDocument parse sD excl styleType filterType cs x
            (AList.update ''__CONTAINER_NAME__'' (TStr (getName x)) (transformTableData sD (fst r) styleType))"
      unfolding containerDocument_def
      by (intro conjI exI [of _ "snd (snd acc)"] exI [of _ r]) (simp_all add: r update_conv')
    then show "\<exists>d. fst acc' = fst acc @ [d] \<and> containerDocument parse sD excl styleType filterType cs x d"
      using d by blast
  next
    show "foldE (processDocument parse sD excl styleType filterType cs) containerList ([], [], ow)
            = Inr (docs, names, ow')"
      using a by (simp add: processDocuments_def)
  qed
  then show "list_all2 (containerDocument parse sD excl styleType filterType cs) containerList docs"
    by simp
next
  assume a: "fetchDocuments parse sD excl readFile inputPathList styleType filterType cs ow
               = Inr (fdocs, fnames, fow')"
  have "\<exists>new. fst (fdocs, fnames, fow') = fst (([]::document list), ([]::string list), ow) @ new
          \<and> list_all2 (pathDocument parse sD excl readFile styleType filterType cs) inputPathList new"
  proof (rule foldE_docs [where f = "fetchDocument parse sD excl readFile styleType filterType cs"])
    fix x acc acc'
    assume "fetchDocument parse sD excl readFile styleType filterType cs x acc = Inr acc'"
    then obtain r where r: "fetch_internal parse sD excl readFile [x] filterType cs (snd (snd acc)) = Inr r"
      and d: "fst acc' = fst acc @ [AList.update ''__INPUT_PATH__'' (TStr x)
                                     (transformTableData sD (fst r) styleType)]"
      by (auto simp: fetchDocument_def Let_def split: sum.splits)
    have "pathDocument parse sD excl readFile styleType filterType cs x
            (AList.update ''__INPUT_PATH__'' (TStr x) (transformTableData sD (fst r) styleType))"
      unfolding pathDocument_def
      by (intro conjI exI [of _ "snd (snd acc)"] exI [of _ r]) (simp_all add: r update_conv')
    then show "\<exists>d. fst acc' = fst acc @ [d] \<and> pathDocument parse sD excl readFile styleType filterType cs x d"
      using d by blast
  next
    show "foldE (fetchDocument parse sD excl readFile styleType filterType cs) inputPathList ([], [], ow)
            = Inr (fdocs, fnames, fow')"
      using a by (simp add: fetchDocuments_def)
  qed
  then show "list_all2 (pathDocument parse sD excl readFile styleType filterType cs) inputPathList fdocs"
    by simp
qed

theorem reserved_keys_witness:
  "(\<exists>ow'. processDocuments strict_parse ex_schema [] [ex_container] ''rowwise_by_name''
             ''drop-empty-tables'' None Map.empty = Inr (ex_documents, [''1ABC''], ow'))
   \<and> list_all2 (containerDocument strict_parse ex_schema [] ''rowwise_by_name'' ''drop-empty-tables'' None)
       [ex_container] ex_documents
   \<and> map_of (ex_documents ! 0) ''__CONTAINER_NAME__'' = Some (TStr ''1ABC'')
   \<and> (\<exists>ow'. fetchDocuments strict_parse ex_schema [] (\<lambda>p. [ex_container]) [''1abc.cif'']
             ''rowwise_by_id'' ''drop-empty-tables'' None Map.empty = Inr (ex_path_documents, [''1ABC''], ow'))
   \<and> list_all2 (pathDocument strict_parse ex_schema [] (\<lambda>p. [ex_container]) ''rowwise_by_id''
                  ''drop-empty-tables'' None)
       [''1abc.cif''] ex_path_documents
   \<and> map_of (ex_path_documents ! 0) ''__INPUT_PATH__'' = Some (TStr ''1abc.cif'')"
proof -
  have "map_sum id (\<lambda>r. (fst r, fst (snd r)))
          (processDocuments strict_parse ex_schema [] [ex_container] ''rowwise_by_name''
             ''drop-empty-tables'' None Map.empty) = Inr (ex_documents, [''1ABC''])"
    by code_simp
  then obtain ow1 where p: "processDocuments strict_parse ex_schema [] [ex_container] ''rowwise_by_name''
             ''drop-empty-tables'' None Map.empty = Inr (ex_documents, [''1ABC''], ow1)"
    by (cases "processDocuments strict_parse ex_schema [] [ex_container] ''rowwise_by_name''
             ''drop-empty-tables'' None Map.empty") auto
  have "map_sum id (\<lambda>r. (fst r, fst (snd r)))
          (fetchDocuments strict_parse ex_schema [] (\<lambda>p. [ex_container]) [''1abc.cif'']
             ''rowwise_by_id'' ''drop-empty-tables'' None Map.empty) = Inr (ex_path_documents, [''1ABC''])"
    by code_simp
  then obtain ow2 where f: "fetchDocuments strict_parse ex_schema [] (\<lambda>p. [ex_container]) [''1abc.cif'']
             ''rowwise_by_id'' ''drop-empty-tables'' None Map.empty = Inr (ex_path_documents, [''1ABC''], ow2)"
    by (cases "fetchDocuments strict_parse ex_schema [] (\<lambda>p. [ex_container]) [''1abc.cif'']
             ''rowwise_by_id'' ''drop-empty-tables'' None Map.empty") auto
  have m1: "map_of (ex_documents ! 0) ''__CONTAINER_NAME__'' = Some (TStr ''1ABC'')"
    by (simp add: ex_documents_def)
  have m2: "map_of (ex_path_documents ! 0) ''__INPUT_PATH__'' = Some (TStr ''1abc.cif'')"
    by (simp add: ex_path_documents_def)
  from reserved_keys [of strict_parse ex_schema "[]" "[ex_container]" "''rowwise_by_name''"
      "''drop-empty-tables''" None Map.empty ex_documents "[''1ABC'']" ow1
      "\<lambda>p. [ex_container]" "[''1abc.cif'']" ex_path_documents "[''1ABC'']" ow2] p
  have c1: "list_all2 (containerDocument strict_parse ex_schema [] ''rowwise_by_name'' ''drop-empty-tables'' None)
       [ex_container] ex_documents"
    by blast
  from reserved_keys [of strict_parse ex_schema "[]" "[ex_container]" "''rowwise_by_id''"
      "''drop-empty-tables''" None Map.empty "[]" "[]" ow1
      "\<lambda>p. [ex_container]" "[''1abc.cif'']" ex_path_documents "[''1ABC'']" ow2] f
  have c2: "list_all2 (pathDocument strict_parse ex_schema [] (\<lambda>p. [ex_container]) ''rowwise_by_id''
                  ''drop-empty-tables'' None)
       [''1abc.cif''] ex_path_documents"
    by blast
  show ?thesis using p f c1 c2 m1 m2 by blast
qed

section \<open>The slice value enumerator\<close>






lemma update_new_key: "k \<notin> fst ` set al \<Longrightarrow> AList.update k v al = al @ [(k, v)]"
  by (induction al) auto








section \<open>Exceptions of the shape operations\<close>

lemma reshapeSchemaData_total:
  "\<exists>doc log. reshapeSchemaData sD data styleType = Inr (doc, log)"
  unfolding reshapeSchemaData_def by (auto split: sum.splits)

lemma reshapeSchemaData_fallback:
  "shapeRowwiseNoName sD data = Inl e \<Longrightarrow>
   reshapeSchemaData sD data ''rowwise_no_name'' = Inr (byId data, [LogException ''Failing''])"
  by (simp add: reshapeSchemaData_def)

lemma reshapeSlicedSchemaData_total:
  "\<exists>doc log. reshapeSlicedSchemaData sD data sliceFilter sliceValue sliceIndex styleType = Inr (doc, log)"
  unfolding reshapeSlicedSchemaData_def by (auto split: sum.splits)

lemma reshapeSlicedSchemaData_fallback:
  "shapeRowwiseNoName sD data = Inl e \<Longrightarrow>
   reshapeSlicedSchemaData sD data sliceFilter sliceValue sliceIndex ''rowwise_no_name''
     = Inr (byId data, [LogException ''Failing''])"
  by (simp add: reshapeSlicedSchemaData_def)

lemma slicesPerTuple_total:
  "\<exists>docs log. slicesPerTuple sD data sliceFilter sliceIndex styleType tuples = Inr (docs, log)
             \<and> length docs = length tuples"
proof (induction tuples)
  case Nil
  then show ?case by simp
next
  case (Cons t tuples)
  obtain doc log where d: "reshapeSlicedSchemaData sD data sliceFilter t sliceIndex styleType = Inr (doc, log)"
    using reshapeSlicedSchemaData_total by blast
  from Cons.IH obtain docs logs where
    r: "slicesPerTuple sD data sliceFilter sliceIndex styleType tuples = Inr (docs, logs)"
       "length docs = length tuples" by blast
  show ?case using d r by simp
qed

lemma slicesPerTuple_fallback:
  "shapeRowwiseNoName sD data = Inl e \<Longrightarrow>
   slicesPerTuple sD data sliceFilter sliceIndex ''rowwise_no_name'' tuples
     = Inr (replicate (length tuples) (byId data),
            concat (replicate (length tuples) [LogException ''Failing'']))"
  by (induction tuples) (simp_all add: reshapeSlicedSchemaData_fallback)

text \<open>
  C5, as amended. \<^verbatim>\<open>applyShape\<close> returns for every input and style; when the reshaping
  raises (the positional layout \<^verbatim>\<open>rowwise_no_name\<close> on a row that lacks an attribute) the
  exception is logged and the input mapping is returned. \<^verbatim>\<open>applySlicedShape\<close> without a
  slice filter does the same. With a slice filter and a style other than
  \<^verbatim>\<open>rowwise_by_name_with_cardinality\<close>, once the slice values are enumerated, it returns one
  record set per tuple; when the reshaping raises, the exception is logged for each tuple
  and each record set is the input mapping, not an empty result.
\<close>

theorem shape_exceptions_contained:
  "(\<exists>doc log. applyShape sD schemaDataDictById styleType = Inr (doc, log)
       \<and> (styleType = ''rowwise_no_name'' \<and> shapeRowwiseNoName sD schemaDataDictById = Inl e \<longrightarrow>
            doc = byId schemaDataDictById \<and> log = [LogException ''Failing'']))
   \<and> (\<exists>doc log. applySlicedShape sD schemaDataDictById styleType None = Inr ([doc], log)
       \<and> (styleType = ''rowwise_no_name'' \<and> shapeRowwiseNoName sD schemaDataDictById = Inl e \<longrightarrow>
            doc = byId schemaDataDictById \<and> log = [LogException ''Failing'']))
   \<and> (sliceFilter \<noteq> [] \<and> styleType \<noteq> ''rowwise_by_name_with_cardinality''
        \<and> SliceValues schemaDataDictById sD sliceFilter = Inr tuples \<longrightarrow>
       (\<exists>docs log. applySlicedShape sD schemaDataDictById styleType (Some sliceFilter) = Inr (docs, log)
          \<and> length docs = length tuples
          \<and> (styleType = ''rowwise_no_name'' \<and> shapeRowwiseNoName sD schemaDataDictById = Inl e \<longrightarrow>
               docs = replicate (length tuples) (byId schemaDataDictById)
               \<and> log = concat (replicate (length tuples) [LogException ''Failing'']))))"
proof (intro conjI impI)
  obtain doc log where r: "reshapeSchemaData sD schemaDataDictById styleType = Inr (doc, log)"
    using reshapeSchemaData_total by blast
  have f: "styleType = ''rowwise_no_name'' \<and> shapeRowwiseNoName sD schemaDataDictById = Inl e \<longrightarrow>
            doc = byId schemaDataDictById \<and> log = [LogException ''Failing'']"
    using r reshapeSchemaData_fallback [of sD schemaDataDictById e] by auto
  show "\<exists>doc log. applyShape sD schemaDataDictById styleType = Inr (doc, log)
       \<and> (styleType = ''rowwise_no_name'' \<and> shapeRowwiseNoName sD schemaDataDictById = Inl e \<longrightarrow>
            doc = byId schemaDataDictById \<and> log = [LogException ''Failing''])"
    using r f by (auto simp: applyShape_def)
  show "\<exists>doc log. applySlicedShape sD schemaDataDictById styleType None = Inr ([doc], log)
       \<and> (styleType = ''rowwise_no_name'' \<and> shapeRowwiseNoName sD schemaDataDictById = Inl e \<longrightarrow>
            doc = byId schemaDataDictById \<and> log = [LogException ''Failing''])"
    using r f by (auto simp: applySlicedShape_def)
next
  assume a: "sliceFilter \<noteq> [] \<and> styleType \<noteq> ''rowwise_by_name_with_cardinality''
        \<and> SliceValues schemaDataDictById sD sliceFilter = Inr tuples"
  obtain docs log where
    s: "slicesPerTuple sD schemaDataDictById sliceFilter (getSliceIndex sD sliceFilter) styleType tuples
          = Inr (docs, log)" "length docs = length tuples"
    using slicesPerTuple_total by blast
  have e: "applySlicedShape sD schemaDataDictById styleType (Some sliceFilter) = Inr (docs, log)"
    using a s by (simp add: applySlicedShape_def)
  have f: "styleType = ''rowwise_no_name'' \<and> shapeRowwiseNoName sD schemaDataDictById = Inl e \<longrightarrow>
               docs = replicate (length tuples) (byId schemaDataDictById)
               \<and> log = concat (replicate (length tuples) [LogException ''Failing''])"
    using s(1) slicesPerTuple_fallback [of sD schemaDataDictById e sliceFilter
        "getSliceIndex sD sliceFilter" tuples] by auto
  show "\<exists>docs log. applySlicedShape sD schemaDataDictById styleType (Some sliceFilter) = Inr (docs, log)
          \<and> length docs = length tuples
          \<and> (styleType = ''rowwise_no_name'' \<and> shapeRowwiseNoName sD schemaDataDictById = Inl e \<longrightarrow>
               docs = replicate (length tuples) (byId schemaDataDictById)
               \<and> log = concat (replicate (length tuples) [LogException ''Failing'']))"
    using e s(2) f by blast
qed

theorem shape_exceptions_contained_witness:
  "shapeRowwiseNoName ex_access ex_tables_sparse = Inl KeyError
   \<and> applyShape ex_access ex_tables_sparse ''rowwise_no_name''
       = Inr (byId ex_tables_sparse, [LogException ''Failing''])
   \<and> ''ENTITY'' \<noteq> []
   \<and> ''rowwise_no_name'' \<noteq> ''rowwise_by_name_with_cardinality''
   \<and> SliceValues ex_tables_sparse ex_access ''ENTITY''
       = Inr [[((''ENTITY'', ''ID''), VStr ''1'')], [((''ENTITY'', ''ID''), VStr ''2'')]]
   \<and> applySlicedShape ex_access ex_tables_sparse ''rowwise_no_name'' (Some ''ENTITY'')
       = Inr ([byId ex_tables_sparse, byId ex_tables_sparse],
              [LogException ''Failing'', LogException ''Failing''])"
proof -
  have k: "shapeRowwiseNoName ex_access ex_tables_sparse = Inl KeyError" by code_simp
  have v: "SliceValues ex_tables_sparse ex_access ''ENTITY''
       = Inr [[((''ENTITY'', ''ID''), VStr ''1'')], [((''ENTITY'', ''ID''), VStr ''2'')]]" by code_simp
  have n: "''ENTITY'' \<noteq> []" "''rowwise_no_name'' \<noteq> ''rowwise_by_name_with_cardinality''" by simp_all
  from shape_exceptions_contained [of ex_access ex_tables_sparse "''rowwise_no_name''" KeyError
      "''ENTITY''" "[[((''ENTITY'', ''ID''), VStr ''1'')], [((''ENTITY'', ''ID''), VStr ''2'')]]"] k v n
  have "applyShape ex_access ex_tables_sparse ''rowwise_no_name''
          = Inr (byId ex_tables_sparse, [LogException ''Failing''])
      \<and> applySlicedShape ex_access ex_tables_sparse ''rowwise_no_name'' (Some ''ENTITY'')
          = Inr ([byId ex_tables_sparse, byId ex_tables_sparse],
                 [LogException ''Failing'', LogException ''Failing''])"
    by auto
  then show ?thesis using k v n by simp
qed

theorem sliced_shape_raises_or_returns_input:
  "applySlicedShape ex_access [] ''rowwise_by_name_with_cardinality'' (Some ''ENTITY'') = Inl StopIteration
   \<and> applySlicedShape ex_access ex_tables_sparse ''rowwise_no_name'' (Some ''ENTITY'')
       = Inr ([byId ex_tables_sparse, byId ex_tables_sparse],
              [LogException ''Failing'', LogException ''Failing''])"
  by (rule conjI; code_simp)

section \<open>Extraction of an attribute, truncation and the overflow accumulator\<close>


lemma mapAttributeMerge_eq:
  "mapAttributeMerge parse tObj catObj filterType row atId d =
     (case extracted parse tObj catObj filterType atId row of
        None \<Rightarrow> d
      | Some x \<Rightarrow> AList.update atId x d)"
proof (cases "getMapAttributeDict tObj atId")
  case None
  then show ?thesis by (simp add: mapAttributeMerge_def extracted_def rawValue_def)
next
  case m: (Some atName)
  show ?thesis
  proof (cases "getAttributeIndexDict catObj atName")
    case None
    then show ?thesis using m by (simp add: mapAttributeMerge_def extracted_def rawValue_def)
  next
    case i: (Some i)
    show ?thesis
    proof (cases "i < length row")
      case False
      then show ?thesis using m i by (simp add: mapAttributeMerge_def extracted_def rawValue_def)
    next
      case True
      then have r: "rawValue tObj catObj atId row = Some (row ! i)" and n: "\<not> length row \<le> i"
        using m i by (simp_all add: rawValue_def)
      show ?thesis
      proof (cases "if skipMaxWidthFlag filterType then Some 0 else getStringWidthDict tObj atId")
        case None
        then show ?thesis using m i n r by (simp add: mapAttributeMerge_def extracted_def)
      next
        case w: (Some maxW)
        show ?thesis
          using m i n r w
          by (cases "py_split (row ! i) (getIterableSeparator tObj atId)";
              cases "getSqlNullValueDict tObj atId")
             (simp_all add: mapAttributeMerge_def extracted_def Let_def)
      qed
    qed
  qed
qed




lemma mapAttributeMerge_lookup:
  "map_of (mapAttributeMerge parse tObj catObj filterType row a d) atId =
     (if a = atId
      then (case extracted parse tObj catObj filterType atId row of
              None \<Rightarrow> map_of d atId
            | Some x \<Rightarrow> Some x)
      else map_of d atId)"
  by (cases "extracted parse tObj catObj filterType a row")
     (auto simp: mapAttributeMerge_eq update_conv')

text \<open>The row dictionary after the attributes of a category have been extracted.\<close>

lemma fold_mapAttributeMerge_lookup:
  "map_of (fold (mapAttributeMerge parse tObj catObj filterType row) cur d) atId =
     (if atId \<in> set cur
      then (case extracted parse tObj catObj filterType atId row of
              None \<Rightarrow> map_of d atId
            | Some x \<Rightarrow> Some x)
      else map_of d atId)"
proof (induction cur arbitrary: d)
  case Nil
  then show ?case by simp
next
  case (Cons a cur)
  show ?case
    by (cases "extracted parse tObj catObj filterType atId row")
       (simp_all add: Cons.IH mapAttributeMerge_lookup)
qed






















section \<open>Merging the rows of several categories\<close>

lemma dict_update_lookup:
  "map_of (dict_update r d) a = (case map_of (rev d) a of None \<Rightarrow> map_of r a | Some v \<Rightarrow> Some v)"
  unfolding dict_update_def
proof (induction d arbitrary: r)
  case Nil
  then show ?case by simp
next
  case (Cons kv d)
  show ?case
    by (cases "map_of (rev d) a") (auto simp: Cons.IH update_conv' map_add_def split: option.splits)
qed

lemma map_of_rev_distinct: "distinct (map fst d) \<Longrightarrow> map_of (rev d) = map_of d"
  by (rule ext) (metis distinct_rev map_of_eq_Some_iff not_None_eq rev_map set_rev)

lemma dict_update_keys: "fst ` set (dict_update r d) = fst ` set r \<union> fst ` set d"
  unfolding dict_update_def
  by (induction d arbitrary: r) (auto simp: dom_update)

lemma dict_update_distinct: "distinct (map fst r) \<Longrightarrow> distinct (map fst (dict_update r d))"
  unfolding dict_update_def
  by (induction d arbitrary: r) (auto simp: distinct_update)


lemma mergeInto_valueAt:
  "valueAt (mergeInto mD tk d) tk' a =
     (if tk' = tk then (case map_of (rev d) a of None \<Rightarrow> valueAt mD tk a | Some v \<Rightarrow> Some v)
      else valueAt mD tk' a)"
  by (cases "map_of mD tk")
     (auto simp: valueAt_def mergeInto_def update_conv' dict_update_lookup split: option.splits)

lemma mergeInto_keys: "fst ` set (mergeInto mD tk d) = insert tk (fst ` set mD)"
  by (cases "map_of mD tk") (auto simp: mergeInto_def dom_update)

lemma mergeInto_distinct: "distinct (map fst mD) \<Longrightarrow> distinct (map fst (mergeInto mD tk d))"
  by (cases "map_of mD tk") (auto simp: mergeInto_def distinct_update)

lemma fold_mergeInto_valueAt:
  "valueAt (fold (\<lambda>s m. mergeInto m (kf s) (df s)) ss mD) tk a =
     fold (\<lambda>s acc. if kf s = tk then (case map_of (rev (df s)) a of None \<Rightarrow> acc | Some v \<Rightarrow> Some v)
                    else acc) ss (valueAt mD tk a)"
  by (induction ss arbitrary: mD) (auto simp: mergeInto_valueAt)

lemma fold_mergeInto_keys:
  "fst ` set (fold (\<lambda>s m. mergeInto m (kf s) (df s)) ss mD) = fst ` set mD \<union> kf ` set ss"
  by (induction ss arbitrary: mD) (auto simp: mergeInto_keys)

lemma fold_mergeInto_distinct:
  "distinct (map fst mD) \<Longrightarrow> distinct (map fst (fold (\<lambda>s m. mergeInto m (kf s) (df s)) ss mD))"
  by (induction ss arbitrary: mD) (simp_all add: mergeInto_distinct)

lemma fold_filter_cond:
  "fold (\<lambda>s acc. if P s then f s acc else acc) ss init = fold f (filter P ss) init"
  by (induction ss arbitrary: init) simp_all

lemma mergeRows_fold:
  "newRow tObj filterType = Inr d0 \<Longrightarrow>
   mergeRows parse tObj catObj filterType cur indL rows mD =
     Inr (fold (\<lambda>row m. mergeInto m (mergeKey catObj indL row)
                            (fold (mapAttributeMerge parse tObj catObj filterType row) cur d0)) rows mD)"
  by (induction rows arbitrary: mD) (simp_all add: Let_def)

lemma mergeRows_fail:
  "newRow tObj filterType = Inl e \<Longrightarrow> rows \<noteq> [] \<Longrightarrow>
   mergeRows parse tObj catObj filterType cur indL rows mD = Inl e"
  by (cases rows) simp_all

lemma mergeCategories_fold:
  "newRow tObj filterType = Inr d0 \<Longrightarrow>
   mergeCategories parse tObj myContainer filterType cats mD =
     Inr (fold (\<lambda>s m. mergeInto m (sourceKey tObj s) (sourceDict parse tObj filterType s))
               (sources myContainer cats) mD)"
proof (induction cats arbitrary: mD)
  case Nil
  then show ?case by (simp add: sources_def)
next
  case (Cons cn cats)
  show ?case
  proof (cases "getObj myContainer cn")
    case None
    then show ?thesis using Cons by (simp add: sources_def)
  next
    case (Some catObj)
    have "fold (\<lambda>row m. mergeInto m (mergeKey catObj (getMapMergeIndexAttributes tObj cn) row)
                   (fold (mapAttributeMerge parse tObj catObj filterType row)
                      (getMapInstanceAttributeIdList tObj cn) d0)) rows mD
          = fold (\<lambda>s m. mergeInto m (sourceKey tObj s) (sourceDict parse tObj filterType s))
               (map (\<lambda>row. (cn, catObj, row)) rows) mD" for rows
      using Cons.prems
      by (induction rows arbitrary: mD) (simp_all add: sourceKey_def sourceDict_def)
    then show ?thesis using Some Cons
      by (simp add: sources_def mergeRows_fold)
  qed
qed

lemma mergeCategories_fail:
  "newRow tObj filterType = Inl e \<Longrightarrow> sources myContainer cats \<noteq> [] \<Longrightarrow>
   mergeCategories parse tObj myContainer filterType cats mD = Inl e"
proof (induction cats arbitrary: mD)
  case Nil
  then show ?case by (simp add: sources_def)
next
  case (Cons cn cats)
  show ?case
  proof (cases "getObj myContainer cn")
    case None
    then show ?thesis using Cons by (simp add: sources_def)
  next
    case (Some catObj)
    show ?thesis
    proof (cases "getRowList catObj = []")
      case True
      then show ?thesis using Some Cons by (simp add: sources_def)
    next
      case False
      then show ?thesis using Some Cons.prems(1) by (simp add: mergeRows_fail)
    qed
  qed
qed

lemma mergeCategories_no_rows:
  "sources myContainer cats = [] \<Longrightarrow>
   mergeCategories parse tObj myContainer filterType cats mD = Inr mD"
proof (induction cats arbitrary: mD)
  case Nil
  then show ?case by simp
next
  case (Cons cn cats)
  show ?case
  proof (cases "getObj myContainer cn")
    case None
    then show ?thesis using Cons by (simp add: sources_def)
  next
    case (Some catObj)
    then have "getRowList catObj = []" "sources myContainer cats = []"
      using Cons.prems by (simp_all add: sources_def)
    then show ?thesis using Some Cons.IH by simp
  qed
qed

lemma mapInstanceCategoryList_fold:
  assumes "mapInstanceCategoryList parse tObj cats myContainer filterType = Inr out"
  shows "out = map snd (fold (\<lambda>s m. mergeInto m (sourceKey tObj s) (sourceDict parse tObj filterType s))
                          (sources myContainer cats) [])
         \<and> (sources myContainer cats = [] \<or> (\<exists>d0. newRow tObj filterType = Inr d0))"
proof (cases "newRow tObj filterType")
  case (Inr d0)
  then show ?thesis using assms
    by (auto simp: mapInstanceCategoryList_def mergeCategories_fold)
next
  case (Inl e)
  have "sources myContainer cats = []"
  proof (rule ccontr)
    assume "sources myContainer cats \<noteq> []"
    from mergeCategories_fail [OF Inl this] assms show False
      by (simp add: mapInstanceCategoryList_def)
  qed
  then show ?thesis using assms
    by (simp add: mapInstanceCategoryList_def mergeCategories_no_rows)
qed


lemma initRow_lookup:
  "initRow nulls attrs d = Inr d' \<Longrightarrow>
   map_of d' a = (if a \<in> set attrs then nulls a else map_of d a)"
proof (induction attrs arbitrary: d)
  case Nil
  then show ?case by simp
next
  case (Cons x attrs)
  from Cons.prems obtain nv where n: "nulls x = Some nv"
    and r: "initRow nulls attrs (AList.update x nv d) = Inr d'"
    by (auto split: option.splits)
  from Cons.IH [OF r] n show ?case
    by (auto simp: update_conv')
qed

lemma initRow_distinct:
  "initRow nulls attrs d = Inr d' \<Longrightarrow> distinct (map fst d) \<Longrightarrow> distinct (map fst d')"
proof (induction attrs arbitrary: d)
  case Nil
  then show ?case by simp
next
  case (Cons x attrs)
  from Cons.prems(1) obtain nv where r: "initRow nulls attrs (AList.update x nv d) = Inr d'"
    by (auto split: option.splits)
  from Cons.IH [OF r] Cons.prems(2) show ?case by (simp add: distinct_update)
qed

lemma newRow_lookup:
  "newRow tObj filterType = Inr d0 \<Longrightarrow>
   map_of d0 a = (if \<not> dropEmptyFlag filterType \<and> a \<in> set (getAttributeIdList tObj)
                  then getSqlNullValueDict tObj a else None)"
  by (cases "dropEmptyFlag filterType") (auto simp: newRow_def dest: initRow_lookup [where a = a])

lemma newRow_distinct: "newRow tObj filterType = Inr d0 \<Longrightarrow> distinct (map fst d0)"
  by (cases "dropEmptyFlag filterType") (auto simp: newRow_def dest: initRow_distinct)

lemma mapAttributeMerge_distinct:
  "distinct (map fst d) \<Longrightarrow> distinct (map fst (mapAttributeMerge parse tObj catObj filterType row a d))"
  by (cases "extracted parse tObj catObj filterType a row")
     (simp_all add: mapAttributeMerge_eq distinct_update)

lemma fold_mapAttributeMerge_distinct:
  "distinct (map fst d) \<Longrightarrow>
   distinct (map fst (fold (mapAttributeMerge parse tObj catObj filterType row) cur d))"
  by (induction cur arbitrary: d) (simp_all add: mapAttributeMerge_distinct)

lemma sourceDict_distinct: "distinct (map fst (sourceDict parse tObj filterType s))"
  unfolding sourceDict_def
  by (cases "newRow tObj filterType")
     (auto intro!: fold_mapAttributeMerge_distinct dest: newRow_distinct)

lemma sourceDict_lookup:
  "newRow tObj filterType = Inr d0 \<Longrightarrow>
   map_of (sourceDict parse tObj filterType s) a =
     (case sourceValue parse tObj filterType s a of Some v \<Rightarrow> Some v | None \<Rightarrow> map_of d0 a)"
  unfolding sourceDict_def sourceValue_def
  by (simp add: fold_mapAttributeMerge_lookup split: option.splits)

lemma sources_category: "s \<in> set (sources myContainer cats) \<Longrightarrow> fst s \<in> set cats"
  by (auto simp: sources_def split: option.splits)


lemma initRow_some:
  "initRow nulls attrs d = Inr d' \<Longrightarrow> a \<in> set attrs \<Longrightarrow> map_of d' a \<noteq> None"
proof (induction attrs arbitrary: d)
  case Nil
  then show ?case by simp
next
  case (Cons x attrs)
  from Cons.prems(1) obtain nv where n: "nulls x = Some nv"
    and r: "initRow nulls attrs (AList.update x nv d) = Inr d'"
    by (auto split: option.splits)
  show ?case
  proof (cases "a \<in> set attrs")
    case True
    from Cons.IH [OF r True] show ?thesis .
  next
    case False
    then have "a = x" using Cons.prems(2) by simp
    then show ?thesis using initRow_lookup [OF r, of a] False by (simp add: update_conv')
  qed
qed

text \<open>
  What \<^verbatim>\<open>__mapInstanceCategoryList\<close> returns: one row per distinct merge key of the source
  rows. For the source rows of one key, in processing order: a value that the last of them
  extracts for an attribute its category maps is the value of the output row; with
  \<^verbatim>\<open>drop-empty-attributes\<close> the output row holds, for every attribute, the value extracted
  by the last source row that extracts one, and nothing when none does; without
  \<^verbatim>\<open>drop-empty-attributes\<close> the output row holds, for every attribute of the table, what
  the last source row extracts, and the null default when that row extracts nothing.
\<close>

lemma merge_rows:
  assumes "mapInstanceCategoryList parse tObj categoryNameList myContainer filterType = Inr out"
  shows "\<exists>keys. distinct keys
           \<and> set keys = sourceKey tObj ` set (sources myContainer categoryNameList)
           \<and> length out = length keys
           \<and> (\<forall>i a ss. i < length keys
                 \<and> ss = filter (\<lambda>s. sourceKey tObj s = keys ! i) (sources myContainer categoryNameList) \<longrightarrow>
                 ss \<noteq> []
               \<and> (\<forall>v. sourceValue parse tObj filterType (last ss) a = Some v \<longrightarrow>
                       map_of (out ! i) a = Some v)
               \<and> (dropEmptyFlag filterType \<longrightarrow>
                       map_of (out ! i) a = lastExtracted parse tObj filterType ss a)
               \<and> (\<not> dropEmptyFlag filterType \<and> a \<in> set (getAttributeIdList tObj)
                    \<and> (\<forall>cn \<in> set categoryNameList. a \<notin> set (getMapInstanceAttributeIdList tObj cn)) \<longrightarrow>
                       map_of (out ! i) a = getSqlNullValueDict tObj a)
               \<and> (\<not> dropEmptyFlag filterType \<and> a \<in> set (getAttributeIdList tObj) \<longrightarrow>
                       map_of (out ! i) a =
                         (case sourceValue parse tObj filterType (last ss) a of
                            Some v \<Rightarrow> Some v
                          | None \<Rightarrow> getSqlNullValueDict tObj a)))"
proof -
  define S where "S = sources myContainer categoryNameList"
  define kf where "kf = sourceKey tObj"
  define df where "df = sourceDict parse tObj filterType"
  define mD where "mD = fold (\<lambda>s m. mergeInto m (kf s) (df s)) S []"
  define keys where "keys = map fst mD"
  from mapInstanceCategoryList_fold [OF assms]
  have out: "out = map snd mD" and nr: "S = [] \<or> (\<exists>d0. newRow tObj filterType = Inr d0)"
    unfolding mD_def S_def kf_def df_def by blast+
  have d: "distinct keys"
    unfolding keys_def mD_def by (rule fold_mergeInto_distinct) simp
  have k: "set keys = kf ` set S"
    unfolding keys_def mD_def using fold_mergeInto_keys [of kf df S "[]"] by simp
  have l: "length out = length keys" using out by (simp add: keys_def)
  have main: "ss \<noteq> []
               \<and> (\<forall>v. sourceValue parse tObj filterType (last ss) a = Some v \<longrightarrow>
                       map_of (out ! i) a = Some v)
               \<and> (dropEmptyFlag filterType \<longrightarrow>
                       map_of (out ! i) a = lastExtracted parse tObj filterType ss a)
               \<and> (\<not> dropEmptyFlag filterType \<and> a \<in> set (getAttributeIdList tObj)
                    \<and> (\<forall>cn \<in> set categoryNameList. a \<notin> set (getMapInstanceAttributeIdList tObj cn)) \<longrightarrow>
                       map_of (out ! i) a = getSqlNullValueDict tObj a)
               \<and> (\<not> dropEmptyFlag filterType \<and> a \<in> set (getAttributeIdList tObj) \<longrightarrow>
                       map_of (out ! i) a =
                         (case sourceValue parse tObj filterType (last ss) a of
                            Some v \<Rightarrow> Some v
                          | None \<Rightarrow> getSqlNullValueDict tObj a))"
    if i: "i < length keys" and ss: "ss = filter (\<lambda>s. kf s = keys ! i) S" for i a ss
  proof -
    define tk where "tk = keys ! i"
    have "tk \<in> set keys" unfolding tk_def using i by simp
    then obtain s0 where s0: "s0 \<in> set S" "kf s0 = tk" using k by auto
    then have "s0 \<in> set ss" using ss tk_def by simp
    then have ne: "ss \<noteq> []" by auto
    have "S \<noteq> []" using s0 by auto
    then obtain d0 where d0: "newRow tObj filterType = Inr d0" using nr by blast
    have il: "i < length mD" using i by (simp add: keys_def)
    have "mD ! i \<in> set mD" using il by simp
    moreover have "mD ! i = (tk, out ! i)"
      using il by (simp add: tk_def keys_def out prod_eq_iff)
    ultimately have "(tk, out ! i) \<in> set mD" by simp
    moreover have "distinct (map fst mD)" using d by (simp add: keys_def)
    ultimately have "map_of mD tk = Some (out ! i)" by simp
    then have "map_of (out ! i) a = valueAt mD tk a" by (simp add: valueAt_def)
    also have "\<dots> = fold (\<lambda>s acc. if kf s = tk
                                     then (case map_of (rev (df s)) a of None \<Rightarrow> acc | Some v \<Rightarrow> Some v)
                                     else acc) S (valueAt [] tk a)"
      unfolding mD_def by (rule fold_mergeInto_valueAt)
    also have "\<dots> = fold (\<lambda>s acc. case map_of (rev (df s)) a of None \<Rightarrow> acc | Some v \<Rightarrow> Some v)
                         (filter (\<lambda>s. kf s = tk) S) None"
      by (simp only: fold_filter_cond [of "\<lambda>s. kf s = tk"
             "\<lambda>s acc. case map_of (rev (df s)) a of None \<Rightarrow> acc | Some v \<Rightarrow> Some v" S])
         (simp add: valueAt_def)
    also have "\<dots> = fold (\<lambda>s acc. case map_of (df s) a of None \<Rightarrow> acc | Some v \<Rightarrow> Some v) ss None"
      unfolding df_def by (simp only: map_of_rev_distinct [OF sourceDict_distinct] ss tk_def)
    finally have v: "map_of (out ! i) a
                       = fold (\<lambda>s acc. case map_of (df s) a of None \<Rightarrow> acc | Some v \<Rightarrow> Some v) ss None" .
    obtain ss' where sl: "ss = ss' @ [last ss]" using ne by (metis append_butlast_last_id)
    have step: "map_of (out ! i) a = (case map_of (df (last ss)) a of
                   None \<Rightarrow> fold (\<lambda>s acc. case map_of (df s) a of None \<Rightarrow> acc | Some v \<Rightarrow> Some v) ss' None
                 | Some x \<Rightarrow> Some x)"
      by (subst v, subst sl) simp
    have c1: "\<forall>x. sourceValue parse tObj filterType (last ss) a = Some x \<longrightarrow> map_of (out ! i) a = Some x"
    proof (intro allI impI)
      fix x assume "sourceValue parse tObj filterType (last ss) a = Some x"
      then have "map_of (df (last ss)) a = Some x"
        unfolding df_def by (simp add: sourceDict_lookup [OF d0])
      then show "map_of (out ! i) a = Some x" using step by simp
    qed
    have c2: "map_of (out ! i) a = lastExtracted parse tObj filterType ss a" if "dropEmptyFlag filterType"
    proof -
      have "map_of (df s) a = sourceValue parse tObj filterType s a" for s
        unfolding df_def using that
        by (simp add: sourceDict_lookup [OF d0] newRow_lookup [OF d0] split: option.splits)
      then show ?thesis by (simp add: v lastExtracted_def)
    qed
    have c3: "map_of (out ! i) a = getSqlNullValueDict tObj a"
      if n: "\<not> dropEmptyFlag filterType" and a: "a \<in> set (getAttributeIdList tObj)"
        and u: "\<forall>cn \<in> set categoryNameList. a \<notin> set (getMapInstanceAttributeIdList tObj cn)"
    proof -
      have "last ss \<in> set ss" using ne by simp
      then have "last ss \<in> set S" using ss by simp
      then have "fst (last ss) \<in> set categoryNameList"
        unfolding S_def by (rule sources_category)
      then have "sourceValue parse tObj filterType (last ss) a = None"
        using u by (simp add: sourceValue_def)
      then have e: "map_of (df (last ss)) a = getSqlNullValueDict tObj a"
        unfolding df_def using n a by (simp add: sourceDict_lookup [OF d0] newRow_lookup [OF d0])
      from d0 n have ir: "initRow (getSqlNullValueDict tObj) (getAttributeIdList tObj) [] = Inr d0"
        by (simp add: newRow_def)
      from initRow_lookup [OF ir, of a] a have "getSqlNullValueDict tObj a = map_of d0 a" by simp
      moreover have "map_of d0 a \<noteq> None" by (rule initRow_some [OF ir a])
      ultimately obtain nv where "getSqlNullValueDict tObj a = Some nv" by auto
      then show ?thesis using e step by simp
    qed
    have c4: "map_of (out ! i) a =
                (case sourceValue parse tObj filterType (last ss) a of
                   Some v \<Rightarrow> Some v
                 | None \<Rightarrow> getSqlNullValueDict tObj a)"
      if n: "\<not> dropEmptyFlag filterType" and a: "a \<in> set (getAttributeIdList tObj)"
    proof -
      from d0 n have ir: "initRow (getSqlNullValueDict tObj) (getAttributeIdList tObj) [] = Inr d0"
        by (simp add: newRow_def)
      from initRow_lookup [OF ir, of a] a have e0: "map_of d0 a = getSqlNullValueDict tObj a" by simp
      have "map_of d0 a \<noteq> None" by (rule initRow_some [OF ir a])
      then obtain nv where nv: "getSqlNullValueDict tObj a = Some nv" using e0 by auto
      have e: "map_of (df (last ss)) a =
                 (case sourceValue parse tObj filterType (last ss) a of
                    Some v \<Rightarrow> Some v
                  | None \<Rightarrow> getSqlNullValueDict tObj a)"
        unfolding df_def by (simp add: sourceDict_lookup [OF d0] e0 split: option.splits)
      show ?thesis
      proof (cases "sourceValue parse tObj filterType (last ss) a")
        case None
        then show ?thesis using e nv step by simp
      next
        case (Some x)
        then show ?thesis using e step by simp
      qed
    qed
    show ?thesis using ne c1 c2 c3 c4 by blast
  qed
  have "distinct keys \<and> set keys = kf ` set S \<and> length out = length keys
        \<and> (\<forall>i a ss. i < length keys \<and> ss = filter (\<lambda>s. kf s = keys ! i) S \<longrightarrow>
                 ss \<noteq> []
               \<and> (\<forall>v. sourceValue parse tObj filterType (last ss) a = Some v \<longrightarrow>
                       map_of (out ! i) a = Some v)
               \<and> (dropEmptyFlag filterType \<longrightarrow>
                       map_of (out ! i) a = lastExtracted parse tObj filterType ss a)
               \<and> (\<not> dropEmptyFlag filterType \<and> a \<in> set (getAttributeIdList tObj)
                    \<and> (\<forall>cn \<in> set categoryNameList. a \<notin> set (getMapInstanceAttributeIdList tObj cn)) \<longrightarrow>
                       map_of (out ! i) a = getSqlNullValueDict tObj a)
               \<and> (\<not> dropEmptyFlag filterType \<and> a \<in> set (getAttributeIdList tObj) \<longrightarrow>
                       map_of (out ! i) a =
                         (case sourceValue parse tObj filterType (last ss) a of
                            Some v \<Rightarrow> Some v
                          | None \<Rightarrow> getSqlNullValueDict tObj a)))"
    using d k l main by blast
  then show ?thesis unfolding kf_def S_def by (rule exI [of _ keys])
qed

section \<open>Merging several categories into one table\<close>

text \<open>
  C1. The merge does not combine the values of the contributing categories. Without
  \<^verbatim>\<open>drop-empty-attributes\<close> every row dictionary is first filled with the null defaults of
  all attributes of the table and then written over the row of its merge key, so the
  output row of a merge key holds, for every attribute of the table, only what the last
  source row of that key extracts, and the null default where that row extracts nothing:
  what an earlier category extracted for an attribute that the last category does not map
  is lost.
\<close>

theorem merge_keeps_only_last_row:
  assumes "mapInstanceCategoryList parse tObj categoryNameList myContainer filterType = Inr out"
    and "\<not> dropEmptyFlag filterType"
  shows "\<exists>keys. distinct keys
           \<and> set keys = sourceKey tObj ` set (sources myContainer categoryNameList)
           \<and> length out = length keys
           \<and> (\<forall>i a ss. i < length keys \<and> a \<in> set (getAttributeIdList tObj)
                 \<and> ss = filter (\<lambda>s. sourceKey tObj s = keys ! i) (sources myContainer categoryNameList) \<longrightarrow>
                 ss \<noteq> []
               \<and> map_of (out ! i) a =
                   (case sourceValue parse tObj filterType (last ss) a of
                      Some v \<Rightarrow> Some v
                    | None \<Rightarrow> getSqlNullValueDict tObj a))"
proof -
  from merge_rows [OF assms(1)] obtain keys where
    k: "distinct keys" "set keys = sourceKey tObj ` set (sources myContainer categoryNameList)"
       "length out = length keys"
    and m: "\<forall>i a ss. i < length keys
                 \<and> ss = filter (\<lambda>s. sourceKey tObj s = keys ! i) (sources myContainer categoryNameList) \<longrightarrow>
                 ss \<noteq> []
               \<and> (\<forall>v. sourceValue parse tObj filterType (last ss) a = Some v \<longrightarrow>
                       map_of (out ! i) a = Some v)
               \<and> (dropEmptyFlag filterType \<longrightarrow>
                       map_of (out ! i) a = lastExtracted parse tObj filterType ss a)
               \<and> (\<not> dropEmptyFlag filterType \<and> a \<in> set (getAttributeIdList tObj)
                    \<and> (\<forall>cn \<in> set categoryNameList. a \<notin> set (getMapInstanceAttributeIdList tObj cn)) \<longrightarrow>
                       map_of (out ! i) a = getSqlNullValueDict tObj a)
               \<and> (\<not> dropEmptyFlag filterType \<and> a \<in> set (getAttributeIdList tObj) \<longrightarrow>
                       map_of (out ! i) a =
                         (case sourceValue parse tObj filterType (last ss) a of
                            Some v \<Rightarrow> Some v
                          | None \<Rightarrow> getSqlNullValueDict tObj a))"
    by (elim exE conjE)
  have r: "ss \<noteq> []
               \<and> map_of (out ! i) a =
                   (case sourceValue parse tObj filterType (last ss) a of
                      Some v \<Rightarrow> Some v
                    | None \<Rightarrow> getSqlNullValueDict tObj a)"
    if h: "i < length keys \<and> a \<in> set (getAttributeIdList tObj)
                 \<and> ss = filter (\<lambda>s. sourceKey tObj s = keys ! i) (sources myContainer categoryNameList)"
    for i a ss
  proof -
    from h have p: "i < length keys
                 \<and> ss = filter (\<lambda>s. sourceKey tObj s = keys ! i) (sources myContainer categoryNameList)"
      by simp
    note x = m [THEN spec, THEN spec, THEN spec, THEN mp, OF p]
    from x have "ss \<noteq> []" by (rule conjunct1)
    moreover from x [THEN conjunct2, THEN conjunct2, THEN conjunct2, THEN conjunct2] h assms(2)
    have "map_of (out ! i) a =
                   (case sourceValue parse tObj filterType (last ss) a of
                      Some v \<Rightarrow> Some v
                    | None \<Rightarrow> getSqlNullValueDict tObj a)" by simp
    ultimately show ?thesis by (rule conjI)
  qed
  show ?thesis
    by (rule exI [of _ keys]) (intro conjI allI impI k; (elim conjE)?; rule r [THEN conjunct1] r [THEN conjunct2]; simp)
qed

theorem merge_keeps_only_last_row_witness:
  "mapInstanceCategoryList strict_parse ex_mergedT [''cat_a'', ''cat_b''] ex_container ''none''
     = Inr [[(''ID'', VStr ''1''), (''X'', VNone), (''Y'', VStr ''bar''), (''Z'', VNone)]]
   \<and> \<not> dropEmptyFlag ''none''
   \<and> sources ex_container [''cat_a'', ''cat_b'']
       = [(''cat_a'', mkCategory [''id'', ''x''] [[''1'', ''foo'']], [''1'', ''foo'']),
          (''cat_b'', mkCategory [''id'', ''y''] [[''1'', ''bar'']], [''1'', ''bar''])]
   \<and> sourceValue strict_parse ex_mergedT ''none''
        (''cat_a'', mkCategory [''id'', ''x''] [[''1'', ''foo'']], [''1'', ''foo'']) ''X'' = Some (VStr ''fo'')
   \<and> sourceValue strict_parse ex_mergedT ''none''
        (''cat_b'', mkCategory [''id'', ''y''] [[''1'', ''bar'']], [''1'', ''bar'']) ''X'' = None
   \<and> getSqlNullValueDict ex_mergedT ''X'' = Some VNone
   \<and> (\<exists>keys. distinct keys
           \<and> set keys = sourceKey ex_mergedT ` set (sources ex_container [''cat_a'', ''cat_b''])
           \<and> length [[(''ID'', VStr ''1''), (''X'', VNone), (''Y'', VStr ''bar''), (''Z'', VNone)]] = length keys
           \<and> (\<forall>i a ss. i < length keys \<and> a \<in> set (getAttributeIdList ex_mergedT)
                 \<and> ss = filter (\<lambda>s. sourceKey ex_mergedT s = keys ! i)
                          (sources ex_container [''cat_a'', ''cat_b'']) \<longrightarrow>
                 ss \<noteq> []
               \<and> map_of ([[(''ID'', VStr ''1''), (''X'', VNone), (''Y'', VStr ''bar''), (''Z'', VNone)]] ! i) a =
                   (case sourceValue strict_parse ex_mergedT ''none'' (last ss) a of
                      Some v \<Rightarrow> Some v
                    | None \<Rightarrow> getSqlNullValueDict ex_mergedT a)))"
proof -
  have h: "mapInstanceCategoryList strict_parse ex_mergedT [''cat_a'', ''cat_b''] ex_container ''none''
             = Inr [[(''ID'', VStr ''1''), (''X'', VNone), (''Y'', VStr ''bar''), (''Z'', VNone)]]"
    by code_simp
  have n: "\<not> dropEmptyFlag ''none''" by code_simp
  have s: "sources ex_container [''cat_a'', ''cat_b'']
       = [(''cat_a'', mkCategory [''id'', ''x''] [[''1'', ''foo'']], [''1'', ''foo'']),
          (''cat_b'', mkCategory [''id'', ''y''] [[''1'', ''bar'']], [''1'', ''bar''])]"
    by (simp add: sources_def ex_container_def mkCategory_def)
  have va: "sourceValue strict_parse ex_mergedT ''none''
        (''cat_a'', mkCategory [''id'', ''x''] [[''1'', ''foo'']], [''1'', ''foo'']) ''X'' = Some (VStr ''fo'')"
    by code_simp
  have vb: "sourceValue strict_parse ex_mergedT ''none''
        (''cat_b'', mkCategory [''id'', ''y''] [[''1'', ''bar'']], [''1'', ''bar'']) ''X'' = None"
    by code_simp
  have nu: "getSqlNullValueDict ex_mergedT ''X'' = Some VNone" by code_simp
  note t = merge_keeps_only_last_row [OF h n]
  show ?thesis
    apply (rule conjI, rule h)
    apply (rule conjI, rule n)
    apply (rule conjI, rule s)
    apply (rule conjI, rule va)
    apply (rule conjI, rule vb)
    apply (rule conjI, rule nu)
    apply (rule t)
    done
qed

section \<open>Dictionaries built by conditional assignment\<close>

lemma fold_opt_update_other:
  "\<forall>x \<in> set xs. nm x \<noteq> k \<Longrightarrow>
   map_of (fold (\<lambda>x rD. case g x of None \<Rightarrow> rD | Some y \<Rightarrow> AList.update (nm x) y rD) xs acc) k
     = map_of acc k"
  by (induction xs arbitrary: acc) (auto simp: update_conv' split: option.splits)

lemma fold_opt_update_lookup:
  assumes "\<forall>x \<in> set xs. nm x = nm t \<longrightarrow> x = t"
  shows "map_of (fold (\<lambda>x rD. case g x of None \<Rightarrow> rD | Some y \<Rightarrow> AList.update (nm x) y rD) xs acc) (nm t)
           = (if t \<in> set xs then (case g t of None \<Rightarrow> map_of acc (nm t) | Some y \<Rightarrow> Some y)
              else map_of acc (nm t))"
  using assms
proof (induction xs arbitrary: acc)
  case Nil
  then show ?case by simp
next
  case (Cons x xs)
  have u: "\<forall>x \<in> set xs. nm x = nm t \<longrightarrow> x = t" using Cons.prems by simp
  show ?case
  proof (cases "x = t")
    case True
    then show ?thesis
      using Cons.IH [OF u] by (cases "g t") (auto simp: update_conv')
  next
    case False
    then have "nm x \<noteq> nm t" using Cons.prems by auto
    then show ?thesis
      using Cons.IH [OF u] False by (cases "g x") (auto simp: update_conv' split: option.splits)
  qed
qed

section \<open>Placing rows in the one-pass slice\<close>

lemma update_present_keys: "map_of al k = Some x \<Longrightarrow> map fst (AList.update k v al) = map fst al"
  by (induction al) (auto split: if_splits)

lemma placeRow_keys:
  "placeRow uFlag nm oRowD rv st = Inr st' \<Longrightarrow> map fst (retD st') = map fst (retD st)"
  unfolding placeRow_def
  by (auto simp: update_present_keys split: if_splits option.splits cell.splits tval.splits)

lemma placeRow_frame:
  "placeRow uFlag nm oRowD rv st = Inr st' \<Longrightarrow> m \<noteq> nm \<Longrightarrow>
   cellAt st' v m = cellAt st v m \<and> map_of (sharedD st') m = map_of (sharedD st) m"
  unfolding placeRow_def cellAt_def
  by (auto simp: update_conv' split: if_splits option.splits cell.splits tval.splits)

lemma placeRow_cell:
  "placeRow uFlag nm oRowD rv st = Inr st' \<Longrightarrow> uFlag \<or> cellAt st rv nm \<noteq> Some CShared \<Longrightarrow>
   sharedD st' = sharedD st \<and>
   cellAt st' v nm = (if v = rv \<and> truthy rv then placedCell uFlag oRowD (cellAt st v nm)
                      else cellAt st v nm)"
  unfolding placeRow_def cellAt_def placedCell_def
  by (auto simp: update_conv' split: if_splits option.splits cell.splits tval.splits)

lemma placedCell_notShared: "c \<noteq> Some CShared \<Longrightarrow> placedCell uFlag oRowD c \<noteq> Some CShared"
  by (auto simp: placedCell_def split: option.splits cell.splits)


lemma placeRows_keys:
  "foldE (placeRow uFlag nm oRowD) vs st = Inr st' \<Longrightarrow> map fst (retD st') = map fst (retD st)"
proof (induction vs arbitrary: st)
  case Nil
  then show ?case by simp
next
  case (Cons v vs)
  from Cons.prems obtain s1 where a: "placeRow uFlag nm oRowD v st = Inr s1"
    and b: "foldE (placeRow uFlag nm oRowD) vs s1 = Inr st'" by (auto split: sum.splits)
  from Cons.IH [OF b] placeRow_keys [OF a] show ?case by simp
qed

lemma placeRows_frame:
  "foldE (placeRow uFlag nm oRowD) vs st = Inr st' \<Longrightarrow> m \<noteq> nm \<Longrightarrow>
   cellAt st' v m = cellAt st v m \<and> map_of (sharedD st') m = map_of (sharedD st) m"
proof (induction vs arbitrary: st)
  case Nil
  then show ?case by simp
next
  case (Cons x vs)
  from Cons.prems(1) obtain s1 where a: "placeRow uFlag nm oRowD x st = Inr s1"
    and b: "foldE (placeRow uFlag nm oRowD) vs s1 = Inr st'" by (auto split: sum.splits)
  from Cons.IH [OF b Cons.prems(2)] placeRow_frame [OF a Cons.prems(2), of v] show ?case by simp
qed

lemma placeRows_cell:
  "foldE (placeRow uFlag nm oRowD) vs st = Inr st' \<Longrightarrow> distinct vs \<Longrightarrow> notShared st nm \<Longrightarrow>
   sharedD st' = sharedD st \<and> notShared st' nm \<and>
   (\<forall>v. cellAt st' v nm = (if v \<in> set vs \<and> truthy v then placedCell uFlag oRowD (cellAt st v nm)
                            else cellAt st v nm))"
proof (induction vs arbitrary: st)
  case Nil
  then show ?case by simp
next
  case (Cons x vs)
  from Cons.prems(1) obtain s1 where a: "placeRow uFlag nm oRowD x st = Inr s1"
    and b: "foldE (placeRow uFlag nm oRowD) vs s1 = Inr st'" by (auto split: sum.splits)
  have ns: "cellAt st x nm \<noteq> Some CShared" using Cons.prems(3) by (simp add: notShared_def)
  have c: "sharedD s1 = sharedD st"
    "\<And>v. cellAt s1 v nm = (if v = x \<and> truthy x then placedCell uFlag oRowD (cellAt st v nm)
                             else cellAt st v nm)"
    using placeRow_cell [OF a] ns by blast+
  have n1: "notShared s1 nm"
    unfolding notShared_def using c(2) Cons.prems(3)
    by (auto simp: notShared_def placedCell_notShared)
  have d: "distinct vs" "x \<notin> set vs" using Cons.prems(2) by simp_all
  from Cons.IH [OF b d(1) n1]
  have r: "sharedD st' = sharedD s1" "notShared st' nm"
    "\<And>v. cellAt st' v nm = (if v \<in> set vs \<and> truthy v then placedCell uFlag oRowD (cellAt s1 v nm)
                              else cellAt s1 v nm)"
    by blast+
  have "cellAt st' v nm = (if v \<in> set (x # vs) \<and> truthy v then placedCell uFlag oRowD (cellAt st v nm)
                            else cellAt st v nm)" for v
    using r(3) [of v] c(2) [of v] d(2) by auto
  then show ?case using r(1,2) c(1) by simp
qed

lemma placeRowValues_keys:
  "placeRowValues uFlag schemaObjName nm atL iRowD st = Inr st' \<Longrightarrow>
   map fst (retD st') = map fst (retD st)"
  unfolding placeRowValues_def
  by (auto simp: Let_def dest: placeRows_keys split: if_splits)

lemma placeRowValues_frame:
  "placeRowValues uFlag schemaObjName nm atL iRowD st = Inr st' \<Longrightarrow> m \<noteq> schemaObjName \<Longrightarrow>
   cellAt st' v m = cellAt st v m \<and> map_of (sharedD st') m = map_of (sharedD st) m"
  unfolding placeRowValues_def
  by (auto simp: Let_def dest: placeRows_frame split: if_splits)

lemma placeRowValues_cell:
  assumes "placeRowValues uFlag schemaObjName nm atL iRowD st = Inr st'"
    and "notShared st schemaObjName"
  shows "sharedD st' = sharedD st \<and> notShared st' schemaObjName \<and>
         (\<forall>v. cellAt st' v schemaObjName =
                 (if v \<in> set (childValues atL iRowD) \<and> truthy v
                  then placedCell uFlag (renameRow nm iRowD) (cellAt st v schemaObjName)
                  else cellAt st v schemaObjName))"
proof -
  from assms(1)
  have f: "foldE (placeRow uFlag schemaObjName (renameRow nm iRowD)) (remdups (childValues atL iRowD)) st
             = Inr st'"
    by (auto simp: placeRowValues_def childValues_def Let_def split: if_splits)
  from placeRows_cell [OF f _ assms(2)] show ?thesis by simp
qed

text \<open>What the rows of a table leave in the cell of a partition and the table's name.\<close>

lemma placeTableRows_keys:
  "foldE (placeRowValues uFlag schemaObjName nm atL) rows st = Inr st' \<Longrightarrow>
   map fst (retD st') = map fst (retD st)"
proof (induction rows arbitrary: st)
  case Nil
  then show ?case by simp
next
  case (Cons r rows)
  from Cons.prems obtain s1 where a: "placeRowValues uFlag schemaObjName nm atL r st = Inr s1"
    and b: "foldE (placeRowValues uFlag schemaObjName nm atL) rows s1 = Inr st'"
    by (auto split: sum.splits)
  from Cons.IH [OF b] placeRowValues_keys [OF a] show ?case by simp
qed

lemma placeTableRows_frame:
  "foldE (placeRowValues uFlag schemaObjName nm atL) rows st = Inr st' \<Longrightarrow> m \<noteq> schemaObjName \<Longrightarrow>
   cellAt st' v m = cellAt st v m \<and> map_of (sharedD st') m = map_of (sharedD st) m"
proof (induction rows arbitrary: st)
  case Nil
  then show ?case by simp
next
  case (Cons r rows)
  from Cons.prems(1) obtain s1 where a: "placeRowValues uFlag schemaObjName nm atL r st = Inr s1"
    and b: "foldE (placeRowValues uFlag schemaObjName nm atL) rows s1 = Inr st'"
    by (auto split: sum.splits)
  from Cons.IH [OF b Cons.prems(2)] placeRowValues_frame [OF a Cons.prems(2), of v] show ?case by simp
qed

lemma placeTableRows_cell:
  "foldE (placeRowValues uFlag schemaObjName nm atL) rows st = Inr st' \<Longrightarrow> notShared st schemaObjName \<Longrightarrow>
   sharedD st' = sharedD st \<and> notShared st' schemaObjName \<and>
   (\<forall>v. cellAt st' v schemaObjName =
           fold (\<lambda>r c. if v \<in> set (childValues atL r) \<and> truthy v
                        then placedCell uFlag (renameRow nm r) c else c)
                rows (cellAt st v schemaObjName))"
proof (induction rows arbitrary: st)
  case Nil
  then show ?case by simp
next
  case (Cons r rows)
  from Cons.prems(1) obtain s1 where a: "placeRowValues uFlag schemaObjName nm atL r st = Inr s1"
    and b: "foldE (placeRowValues uFlag schemaObjName nm atL) rows s1 = Inr st'"
    by (auto split: sum.splits)
  from placeRowValues_cell [OF a Cons.prems(2)]
  have c: "sharedD s1 = sharedD st" "notShared s1 schemaObjName"
    "\<And>v. cellAt s1 v schemaObjName =
                 (if v \<in> set (childValues atL r) \<and> truthy v
                  then placedCell uFlag (renameRow nm r) (cellAt st v schemaObjName)
                  else cellAt st v schemaObjName)"
    by blast+
  from Cons.IH [OF b c(2)] c(1,3) show ?case by simp
qed


section \<open>Placing tables in the one-pass slice\<close>

lemma placeTable_rows:
  "placeTable sD data sliceFilter kv st = Inr st' \<Longrightarrow>
   \<exists>rows. map_of data (fst kv) = Some rows \<and>
      foldE (placeRowValues (hasSliceUnitCardinality (getSchemaObject sD (fst kv)) sliceFilter)
               (getSchemaName sD (fst kv)) (getAttributeName_s (getSchemaObject sD (fst kv))) (snd kv))
            rows st = Inr st'"
  unfolding placeTable_def by (auto simp: Let_def split: option.splits)

lemma placeTables_keys:
  "foldE (placeTable sD data sliceFilter) ks st = Inr st' \<Longrightarrow> map fst (retD st') = map fst (retD st)"
proof (induction ks arbitrary: st)
  case Nil
  then show ?case by simp
next
  case (Cons kv ks)
  from Cons.prems obtain s1 where a: "placeTable sD data sliceFilter kv st = Inr s1"
    and b: "foldE (placeTable sD data sliceFilter) ks s1 = Inr st'" by (auto split: sum.splits)
  from placeTable_rows [OF a] placeTableRows_keys have "map fst (retD s1) = map fst (retD st)" by blast
  with Cons.IH [OF b] show ?case by simp
qed

lemma placeTables_frame:
  "foldE (placeTable sD data sliceFilter) ks st = Inr st' \<Longrightarrow>
   \<forall>kv \<in> set ks. getSchemaName sD (fst kv) \<noteq> m \<Longrightarrow>
   cellAt st' v m = cellAt st v m \<and> map_of (sharedD st') m = map_of (sharedD st) m"
proof (induction ks arbitrary: st)
  case Nil
  then show ?case by simp
next
  case (Cons kv ks)
  from Cons.prems(1) obtain s1 where a: "placeTable sD data sliceFilter kv st = Inr s1"
    and b: "foldE (placeTable sD data sliceFilter) ks s1 = Inr st'" by (auto split: sum.splits)
  have n: "m \<noteq> getSchemaName sD (fst kv)" using Cons.prems(2) by auto
  from placeTable_rows [OF a] placeTableRows_frame [OF _ n]
  have "cellAt s1 v m = cellAt st v m \<and> map_of (sharedD s1) m = map_of (sharedD st) m" by blast
  moreover have "\<forall>kv \<in> set ks. getSchemaName sD (fst kv) \<noteq> m" using Cons.prems(2) by simp
  ultimately show ?case using Cons.IH [OF b] by simp
qed

lemma placeTables_cell:
  "foldE (placeTable sD data sliceFilter) ks st = Inr st' \<Longrightarrow> distinct (map fst ks) \<Longrightarrow>
   (t, atL) \<in> set ks \<Longrightarrow> map_of data t = Some rows \<Longrightarrow>
   \<forall>kv \<in> set ks. fst kv \<noteq> t \<longrightarrow> getSchemaName sD (fst kv) \<noteq> getSchemaName sD t \<Longrightarrow>
   notShared st (getSchemaName sD t) \<Longrightarrow>
   map_of (sharedD st') (getSchemaName sD t) = map_of (sharedD st) (getSchemaName sD t) \<and>
   (\<forall>v. cellAt st' v (getSchemaName sD t) =
          fold (\<lambda>r c. if v \<in> set (childValues atL r) \<and> truthy v
                       then placedCell (hasSliceUnitCardinality (getSchemaObject sD t) sliceFilter)
                              (renameRow (getAttributeName_s (getSchemaObject sD t)) r) c
                       else c)
               rows (cellAt st v (getSchemaName sD t)))"
proof (induction ks arbitrary: st)
  case Nil
  then show ?case by simp
next
  case (Cons kv ks)
  from Cons.prems(1) obtain s1 where a: "placeTable sD data sliceFilter kv st = Inr s1"
    and b: "foldE (placeTable sD data sliceFilter) ks s1 = Inr st'" by (auto split: sum.splits)
  show ?case
  proof (cases "fst kv = t")
    case True
    have kv: "kv = (t, atL)"
    proof (rule ccontr)
      assume "kv \<noteq> (t, atL)"
      then have "(t, atL) \<in> set ks" using Cons.prems(3) by auto
      then have "t \<in> fst ` set ks" by force
      then show False using Cons.prems(2) True by auto
    qed
    from placeTable_rows [OF a] Cons.prems(4) kv
    have f: "foldE (placeRowValues (hasSliceUnitCardinality (getSchemaObject sD t) sliceFilter)
               (getSchemaName sD t) (getAttributeName_s (getSchemaObject sD t)) atL)
            rows st = Inr s1" by auto
    note c = placeTableRows_cell [OF f Cons.prems(6)]
    have o: "\<forall>kv \<in> set ks. getSchemaName sD (fst kv) \<noteq> getSchemaName sD t"
    proof
      fix x assume x: "x \<in> set ks"
      then have "fst x \<in> fst ` set ks" by (rule imageI)
      moreover have "fst kv \<notin> fst ` set ks" using Cons.prems(2) by simp
      ultimately have "fst x \<noteq> t" using True by metis
      then show "getSchemaName sD (fst x) \<noteq> getSchemaName sD t" using Cons.prems(5) x by simp
    qed
    from placeTables_frame [OF b o] c show ?thesis by simp
  next
    case False
    then have n: "getSchemaName sD t \<noteq> getSchemaName sD (fst kv)" using Cons.prems(5) by force
    from placeTable_rows [OF a] placeTableRows_frame [OF _ n]
    have fr: "\<And>v. cellAt s1 v (getSchemaName sD t) = cellAt st v (getSchemaName sD t)"
      "map_of (sharedD s1) (getSchemaName sD t) = map_of (sharedD st) (getSchemaName sD t)" by blast+
    have ns: "notShared s1 (getSchemaName sD t)" using Cons.prems(6) fr(1) by (simp add: notShared_def)
    have m: "(t, atL) \<in> set ks" using Cons.prems(3) False by auto
    have d: "distinct (map fst ks)" using Cons.prems(2) by simp
    have o: "\<forall>kv \<in> set ks. fst kv \<noteq> t \<longrightarrow> getSchemaName sD (fst kv) \<noteq> getSchemaName sD t"
      using Cons.prems(5) by simp
    from Cons.IH [OF b d m Cons.prems(4) o ns] fr show ?thesis by simp
  qed
qed

text \<open>The cell that a fold of placements leaves.\<close>

lemma placedCell_fold_unit:
  "fold (\<lambda>r c. if P r then placedCell True (f r) c else c) rows c0
     = (if filter P rows = [] then c0 else Some (CRow (f (last (filter P rows)))))"
  by (induction rows rule: rev_induct) (auto simp: placedCell_def)

lemma placedCell_fold_list:
  "fold (\<lambda>r c. if P r then placedCell False (f r) c else c) rows None
     = (if filter P rows = [] then None else Some (CList (map f (filter P rows))))"
  by (induction rows rule: rev_induct) (auto simp: placedCell_def)

lemma placedCell_fold:
  "fold (\<lambda>r c. if P r then placedCell uFlag (f r) c else c) rows None
     = placedRows uFlag (map f (filter P rows))"
proof (cases uFlag)
  case True
  have "fold (\<lambda>r c. if P r then placedCell True (f r) c else c) rows None
     = placedRows True (map f (filter P rows))"
    by (simp add: placedCell_fold_unit placedRows_def last_map)
  then show ?thesis using True by (simp cong: if_cong)
next
  case False
  have "fold (\<lambda>r c. if P r then placedCell False (f r) c else c) rows None
     = placedRows False (map f (filter P rows))"
    by (simp add: placedCell_fold_list placedRows_def)
  then show ?thesis using False by (simp cong: if_cong)
qed

lemma childValues_follows:
  assumes "truthy v"
  shows "v \<in> set (childValues atL r) \<longleftrightarrow> follows atL v r"
proof
  assume "v \<in> set (childValues atL r)"
  then obtain at where at: "at \<in> set atL" "v = (case map_of r at of Some v \<Rightarrow> v | None \<Rightarrow> VNone)"
    by (auto simp: childValues_def)
  from assms have "v \<noteq> VNone" by (auto simp: truthy_def)
  with at(2) have "map_of r at = Some v" by (cases "map_of r at") simp_all
  with at(1) show "follows atL v r" by (auto simp: follows_def list_ex_iff)
next
  assume "follows atL v r"
  then obtain at where at: "at \<in> set atL" "map_of r at = Some v" by (auto simp: follows_def list_ex_iff)
  then have "(case map_of r at of Some v \<Rightarrow> v | None \<Rightarrow> VNone) = v" by simp
  with at(1) show "v \<in> set (childValues atL r)" unfolding childValues_def set_map by (metis imageI)
qed

lemma childValues_filter:
  "filter (\<lambda>r. v \<in> set (childValues atL r) \<and> truthy v) rows
     = filter (\<lambda>r. truthy v \<and> follows atL v r) rows"
  by (rule filter_cong) (auto simp: childValues_follows)

section \<open>The state of the one-pass slice before the tables are placed\<close>

lemma fold_const_update_lookup:
  "map_of (fold (\<lambda>k d. AList.update k c d) ks acc) v = (if v \<in> set ks then Some c else map_of acc v)"
  by (induction ks arbitrary: acc) (auto simp: update_conv')

lemma fold_const_update_keys_new:
  "distinct ks \<Longrightarrow> set ks \<inter> fst ` set acc = {} \<Longrightarrow>
   map fst (fold (\<lambda>k d. AList.update k c d) ks acc) = map fst acc @ ks"
proof (induction ks arbitrary: acc)
  case Nil
  then show ?case by simp
next
  case (Cons k ks)
  have n: "k \<notin> fst ` set acc" using Cons.prems(2) by auto
  then have u: "AList.update k c acc = acc @ [(k, c)]" by (rule update_new_key)
  have "set ks \<inter> fst ` set (acc @ [(k, c)]) = {}" using Cons.prems by auto
  from Cons.IH [OF _ this] Cons.prems(1) u show ?case by simp
qed

lemma fold_const_update_keys_old:
  "set ks \<subseteq> fst ` set acc \<Longrightarrow> map fst (fold (\<lambda>k d. AList.update k c d) ks acc) = map fst acc"
proof (induction ks arbitrary: acc)
  case Nil
  then show ?case by simp
next
  case (Cons k ks)
  have k: "k \<in> fst ` set acc" using Cons.prems by simp
  then obtain x where "map_of acc k = Some x" by (metis map_of_eq_None_iff not_Some_eq)
  then have m: "map fst (AList.update k c acc) = map fst acc" by (rule update_present_keys)
  then have "set ks \<subseteq> fst ` set (AList.update k c acc)" using Cons.prems by (metis set_map set_subset_Cons subset_trans)
  from Cons.IH [OF this] m show ?case by simp
qed

lemma copyOf_lookup: "map_of (copyOf rD) n = (if map_of rD n = None then None else Some CShared)"
  unfolding copyOf_def by (induction rD) auto

lemma addExtra_eq:
  "addExtra sD data sliceFilter t rD =
     (case map_of data t of
        None \<Rightarrow> Inl KeyError
      | Some rows \<Rightarrow> Inr (case extraValue sD data sliceFilter t of
                            None \<Rightarrow> rD
                          | Some y \<Rightarrow> AList.update (getSchemaName sD t) y rD))"
  unfolding addExtra_def extraValue_def tableValue_def
  by (cases "map_of data t") (simp_all add: Let_def)

lemma addExtras_fold:
  "foldE (addExtra sD data sliceFilter) E acc = Inr rD \<Longrightarrow>
   rD = fold (\<lambda>t rD. case extraValue sD data sliceFilter t of
                       None \<Rightarrow> rD
                     | Some y \<Rightarrow> AList.update (getSchemaName sD t) y rD) E acc"
proof (induction E arbitrary: acc)
  case Nil
  then show ?case by simp
next
  case (Cons t E)
  from Cons.prems obtain r1 where a: "addExtra sD data sliceFilter t acc = Inr r1"
    and b: "foldE (addExtra sD data sliceFilter) E r1 = Inr rD" by (auto split: sum.splits)
  from a have "r1 = (case extraValue sD data sliceFilter t of
                            None \<Rightarrow> acc
                          | Some y \<Rightarrow> AList.update (getSchemaName sD t) y acc)"
    by (auto simp: addExtra_eq split: option.splits)
  with Cons.IH [OF b] show ?case by simp
qed

lemma addExtras_ok:
  "\<forall>t \<in> set E. map_of data t \<noteq> None \<Longrightarrow>
   foldE (addExtra sD data sliceFilter) E acc =
     Inr (fold (\<lambda>t rD. case extraValue sD data sliceFilter t of
                       None \<Rightarrow> rD
                     | Some y \<Rightarrow> AList.update (getSchemaName sD t) y rD) E acc)"
proof (induction E arbitrary: acc)
  case Nil
  then show ?case by simp
next
  case (Cons t E)
  from Cons.prems obtain rows where r: "map_of data t = Some rows" by auto
  have a: "addExtra sD data sliceFilter t acc =
             Inr (case extraValue sD data sliceFilter t of
                            None \<Rightarrow> acc
                          | Some y \<Rightarrow> AList.update (getSchemaName sD t) y acc)"
    by (simp add: addExtra_eq r)
  have "\<forall>t \<in> set E. map_of data t \<noteq> None" using Cons.prems by simp
  from Cons.IH [OF this] a show ?case by simp
qed

text \<open>The child attributes by table, for a slice with one parent item.\<close>

lemma addSingleKey_keys:
  "fst ` set (fold (addSingleKey data p) idx acc)
     \<subseteq> fst ` set acc \<union> (fst ` set idx \<inter> {t. map_of data t \<noteq> None})"
proof (induction idx arbitrary: acc)
  case Nil
  then show ?case by simp
next
  case (Cons kv idx)
  have "fst ` set (addSingleKey data p kv acc) \<subseteq> fst ` set acc \<union> ({fst kv} \<inter> {t. map_of data t \<noteq> None})"
    unfolding addSingleKey_def by (auto simp: dom_update split: option.splits if_splits)
  with Cons.IH [of "addSingleKey data p kv acc"] show ?case by auto
qed

lemma singleKeys_keys_acc:
  "fst ` set (fold (\<lambda>pvTup acc. fold (addSingleKey data (fst pvTup)) idx acc) tuple acc)
     \<subseteq> fst ` set acc \<union> (fst ` set idx \<inter> {t. map_of data t \<noteq> None})"
proof (induction tuple arbitrary: acc)
  case Nil
  then show ?case by simp
next
  case (Cons pv tuple)
  from Cons.IH [of "fold (addSingleKey data (fst pv)) idx acc"] addSingleKey_keys [of data "fst pv" idx acc]
  show ?case by auto
qed

lemma singleKeys_keys:
  "fst ` set (singleKeys data idx tuple) \<subseteq> fst ` set idx \<inter> {t. map_of data t \<noteq> None}"
  unfolding singleKeys_def using singleKeys_keys_acc [of data idx tuple "[]"] by simp

lemma addSingleKey_distinct: "distinct (map fst acc) \<Longrightarrow> distinct (map fst (addSingleKey data p kv acc))"
  unfolding addSingleKey_def by (auto simp: distinct_update split: option.splits)

lemma addSingleKeys_distinct:
  "distinct (map fst acc) \<Longrightarrow> distinct (map fst (fold (addSingleKey data p) idx acc))"
  by (induction idx arbitrary: acc) (simp_all add: addSingleKey_distinct)

lemma singleKeys_distinct_acc:
  "distinct (map fst acc) \<Longrightarrow>
   distinct (map fst (fold (\<lambda>pvTup acc. fold (addSingleKey data (fst pvTup)) idx acc) tuple acc))"
  by (induction tuple arbitrary: acc) (simp_all add: addSingleKeys_distinct)

lemma singleKeys_distinct: "distinct (map fst (singleKeys data idx tuple))"
  unfolding singleKeys_def by (rule singleKeys_distinct_acc) simp

lemma addSingleKeys_lookup:
  "distinct (map fst idx) \<Longrightarrow> t \<notin> fst ` set acc \<Longrightarrow>
   map_of (fold (addSingleKey data p) idx acc) t =
     (case map_of idx t of
        None \<Rightarrow> None
      | Some mD \<Rightarrow> (case map_of mD p of
                     None \<Rightarrow> None
                   | Some cL \<Rightarrow> if map_of data t = None then None else Some cL))"
proof (induction idx arbitrary: acc)
  case Nil
  then show ?case by (simp add: map_of_eq_None_iff)
next
  case (Cons kv idx)
  have d: "distinct (map fst idx)" and n: "fst kv \<notin> fst ` set idx" using Cons.prems(1) by auto
  show ?case
  proof (cases "fst kv = t")
    case False
    then have "t \<notin> fst ` set (addSingleKey data p kv acc)"
      using Cons.prems(2) unfolding addSingleKey_def by (auto simp: dom_update split: option.splits)
    from Cons.IH [OF d this] False show ?thesis by (cases kv) auto
  next
    case True
    have o: "map_of (fold (addSingleKey data p) idx acc') t = map_of acc' t" for acc'
    proof -
      have "t \<notin> fst ` set idx" using n True by simp
      then show ?thesis
        by (induction idx arbitrary: acc') (auto simp: addSingleKey_def update_conv' split: option.splits)
    qed
    have a: "map_of acc t = None" using Cons.prems(2) by (simp add: map_of_eq_None_iff)
    have "map_of (addSingleKey data p kv acc) t =
            (case map_of (snd kv) p of
                     None \<Rightarrow> None
                   | Some cL \<Rightarrow> if map_of data t = None then None else Some cL)"
      using True a unfolding addSingleKey_def by (auto simp: update_conv' split: option.splits)
    then show ?thesis using o True by (cases kv) auto
  qed
qed

lemma singleKeys_single:
  "distinct (map fst idx) \<Longrightarrow>
   map_of (singleKeys data idx [(p, v)]) t =
     (case map_of idx t of
        None \<Rightarrow> None
      | Some mD \<Rightarrow> (case map_of mD p of
                     None \<Rightarrow> None
                   | Some cL \<Rightarrow> if map_of data t = None then None else Some cL))"
  unfolding singleKeys_def by (simp add: addSingleKeys_lookup)

text \<open>The steps of a run that returns.\<close>

lemma onePassRun_steps:
  assumes "onePassRun sD data sliceFilter sliceIndex = Inr st"
  shows "\<exists>tuple others rD.
           SliceValues data sD sliceFilter = Inr (tuple # others)
         \<and> list_all hashable (parentValueList (tuple # others))
         \<and> foldE (addExtra sD data sliceFilter) (getSliceExtraSchemaIds sD sliceFilter) [] = Inr rD
         \<and> foldE (placeTable sD data sliceFilter) (singleKeys data sliceIndex tuple)
              \<lparr> sharedD = rD,
                retD = fold (\<lambda>pv d. AList.update pv (copyOf rD) d) (parentValueList (tuple # others))
                         (fold (\<lambda>k d. AList.update k [] d) (parentValueList (tuple # others)) []) \<rparr>
             = Inr st"
proof -
  from assms obtain tuples where t: "SliceValues data sD sliceFilter = Inr tuples"
    by (auto simp: onePassRun_def split: sum.splits)
  from assms t have h: "list_all hashable (parentValueList tuples)"
    by (auto simp: onePassRun_def Let_def split: if_splits)
  from assms t h obtain tuple others where c: "tuples = tuple # others"
    by (cases tuples) (auto simp: onePassRun_def Let_def)
  from assms t h c obtain rD where
    r: "foldE (addExtra sD data sliceFilter) (getSliceExtraSchemaIds sD sliceFilter) [] = Inr rD"
    by (auto simp: onePassRun_def Let_def split: sum.splits)
  let ?pV = "parentValueList (tuple # others)"
  let ?r0 = "fold (\<lambda>k d. AList.update k [] d) ?pV []"
  from assms t h c r
  have f: "foldE (placeTable sD data sliceFilter) (singleKeys data sliceIndex tuple)
              \<lparr> sharedD = rD,
                retD = (if getSliceExtraSchemaIds sD sliceFilter = [] then ?r0
                        else fold (\<lambda>pv d. AList.update pv (copyOf rD) d) ?pV ?r0) \<rparr> = Inr st"
    by (simp add: onePassRun_def Let_def)
  have e: "(if getSliceExtraSchemaIds sD sliceFilter = [] then ?r0
            else fold (\<lambda>pv d. AList.update pv (copyOf rD) d) ?pV ?r0)
           = fold (\<lambda>pv d. AList.update pv (copyOf rD) d) ?pV ?r0"
  proof (cases "getSliceExtraSchemaIds sD sliceFilter = []")
    case True
    with r have "rD = []" by simp
    then have "copyOf rD = []" by (simp add: copyOf_def)
    moreover have "fold (\<lambda>pv d. AList.update pv [] d) ks (fold (\<lambda>k d. AList.update k ([] :: partition) d) ks acc)
                   = fold (\<lambda>k d. AList.update k ([] :: partition) d) ks acc" for ks :: "val list" and acc
    proof -
      have i: "AList.update k ([] :: partition) d = d" if "map_of d k = Some []" for k :: val and d
        using that by (induction d) (auto split: if_splits)
      have "fold (\<lambda>pv d. AList.update pv ([] :: partition) d) xs d = d"
        if "\<forall>k \<in> set xs. map_of d k = Some []" for xs :: "val list" and d
        using that by (induction xs arbitrary: d) (simp_all add: i)
      then show ?thesis by (simp add: fold_const_update_lookup)
    qed
    ultimately show ?thesis using True by simp
  next
    case False
    then show ?thesis by simp
  qed
  from t h c r f e show ?thesis by auto
qed

lemma start_cell:
  "cellAt \<lparr> sharedD = rD,
            retD = fold (\<lambda>pv d. AList.update pv (copyOf rD) d) pVals
                     (fold (\<lambda>k d. AList.update k [] d) pVals []) \<rparr> v n
     = (if v \<in> set pVals \<and> map_of rD n \<noteq> None then Some CShared else None)"
  by (simp add: cellAt_def fold_const_update_lookup copyOf_lookup)

lemma start_keys:
  "distinct pVals \<Longrightarrow>
   map fst (fold (\<lambda>pv d. AList.update pv c d) pVals (fold (\<lambda>k d. AList.update k c0 d) pVals [])) = pVals"
proof -
  assume d: "distinct pVals"
  have a: "map fst (fold (\<lambda>k d. AList.update k c0 d) pVals []) = pVals"
    using fold_const_update_keys_new [OF d, of "[]" c0] by simp
  then have "set pVals \<subseteq> fst ` set (fold (\<lambda>k d. AList.update k c0 d) pVals [])"
    by (metis set_map subset_refl)
  from fold_const_update_keys_old [OF this] a show ?thesis by simp
qed

section \<open>The state that the one-pass slice returns\<close>

lemma fold_const_update_dom:
  "fst ` set (fold (\<lambda>k d. AList.update k c d) ks acc) = fst ` set acc \<union> set ks"
  by (induction ks arbitrary: acc) (auto simp: dom_update)

lemma fold_const_update_distinct:
  "distinct (map fst acc) \<Longrightarrow> distinct (map fst (fold (\<lambda>k d. AList.update k c d) ks acc))"
  by (induction ks arbitrary: acc) (simp_all add: distinct_update)

lemma run_keys:
  assumes "onePassRun sD data sliceFilter sliceIndex = Inr st"
  shows "\<exists>tuples. SliceValues data sD sliceFilter = Inr tuples
           \<and> fst ` set (retD st) = set (parentValueList tuples)
           \<and> distinct (map fst (retD st))
           \<and> (distinct (parentValueList tuples) \<longrightarrow> map fst (retD st) = parentValueList tuples)"
proof -
  from onePassRun_steps [OF assms] obtain tuple others rD where
    s: "SliceValues data sD sliceFilter = Inr (tuple # others)"
    and f: "foldE (placeTable sD data sliceFilter) (singleKeys data sliceIndex tuple)
              \<lparr> sharedD = rD,
                retD = fold (\<lambda>pv d. AList.update pv (copyOf rD) d) (parentValueList (tuple # others))
                         (fold (\<lambda>k d. AList.update k [] d) (parentValueList (tuple # others)) []) \<rparr>
             = Inr st"
    by blast
  define r0 where "r0 = fold (\<lambda>pv d. AList.update pv (copyOf rD) d) (parentValueList (tuple # others))
                         (fold (\<lambda>k d. AList.update k [] d) (parentValueList (tuple # others)) [])"
  from placeTables_keys [OF f] have k: "map fst (retD st) = map fst r0" by (simp add: r0_def)
  have a: "fst ` set r0 = set (parentValueList (tuple # others))"
    unfolding r0_def by (simp add: fold_const_update_dom)
  have b: "distinct (map fst r0)"
    unfolding r0_def by (intro fold_const_update_distinct) simp
  have c: "distinct (parentValueList (tuple # others)) \<Longrightarrow> map fst r0 = parentValueList (tuple # others)"
    unfolding r0_def by (rule start_keys)
  have "fst ` set (retD st) = fst ` set r0" using k by (metis set_map)
  with s k a b c show ?thesis by auto
qed

lemma run_extra:
  assumes run: "onePassRun sD data sliceFilter sliceIndex = Inr st"
    and t: "t \<in> set (getSliceExtraSchemaIds sD sliceFilter)"
    and u: "\<forall>x \<in> set (getSliceExtraSchemaIds sD sliceFilter).
              getSchemaName sD x = getSchemaName sD t \<longrightarrow> x = t"
    and o: "\<forall>x \<in> fst ` set sliceIndex. getSchemaName sD x \<noteq> getSchemaName sD t"
  shows "map_of (sharedD st) (getSchemaName sD t) = extraValue sD data sliceFilter t
       \<and> (\<forall>v. cellAt st v (getSchemaName sD t) =
                (if v \<in> fst ` set (retD st) \<and> extraValue sD data sliceFilter t \<noteq> None
                 then Some CShared else None))"
proof -
  from onePassRun_steps [OF run] obtain tuple others rD where
    s: "SliceValues data sD sliceFilter = Inr (tuple # others)"
    and e: "foldE (addExtra sD data sliceFilter) (getSliceExtraSchemaIds sD sliceFilter) [] = Inr rD"
    and f: "foldE (placeTable sD data sliceFilter) (singleKeys data sliceIndex tuple)
              \<lparr> sharedD = rD,
                retD = fold (\<lambda>pv d. AList.update pv (copyOf rD) d) (parentValueList (tuple # others))
                         (fold (\<lambda>k d. AList.update k [] d) (parentValueList (tuple # others)) []) \<rparr>
             = Inr st"
    by blast
  from run_keys [OF run] s have k: "fst ` set (retD st) = set (parentValueList (tuple # others))" by auto
  have r: "map_of rD (getSchemaName sD t) = extraValue sD data sliceFilter t"
    using fold_opt_update_lookup [of "getSliceExtraSchemaIds sD sliceFilter" "getSchemaName sD" t
            "extraValue sD data sliceFilter" "[]", OF u] t addExtras_fold [OF e]
    by (auto split: option.splits)
  have n: "\<forall>kv \<in> set (singleKeys data sliceIndex tuple). getSchemaName sD (fst kv) \<noteq> getSchemaName sD t"
  proof
    fix kv assume "kv \<in> set (singleKeys data sliceIndex tuple)"
    then have "fst kv \<in> fst ` set (singleKeys data sliceIndex tuple)" by (rule imageI)
    then have "fst kv \<in> fst ` set sliceIndex" using singleKeys_keys [of data sliceIndex tuple] by blast
    then show "getSchemaName sD (fst kv) \<noteq> getSchemaName sD t" using o by blast
  qed
  note fr = placeTables_frame [OF f n]
  show ?thesis using fr r k by (simp add: start_cell)
qed

lemma run_indexed:
  assumes run: "onePassRun sD data sliceFilter sliceIndex = Inr st"
    and s: "SliceValues data sD sliceFilter = Inr (tuple # others)"
    and t: "map_of (singleKeys data sliceIndex tuple) t = Some atL"
    and d: "map_of data t = Some rows"
    and e: "\<forall>x \<in> set (getSliceExtraSchemaIds sD sliceFilter). getSchemaName sD x \<noteq> getSchemaName sD t"
    and o: "\<forall>x \<in> fst ` set sliceIndex. x \<noteq> t \<longrightarrow> getSchemaName sD x \<noteq> getSchemaName sD t"
  shows "cellAt st v (getSchemaName sD t) =
           placedRows (hasSliceUnitCardinality (getSchemaObject sD t) sliceFilter)
             (map (renameRow (getAttributeName_s (getSchemaObject sD t)))
                  (filter (\<lambda>r. truthy v \<and> follows atL v r) rows))"
proof -
  from onePassRun_steps [OF run] s obtain rD where
    x: "foldE (addExtra sD data sliceFilter) (getSliceExtraSchemaIds sD sliceFilter) [] = Inr rD"
    and f: "foldE (placeTable sD data sliceFilter) (singleKeys data sliceIndex tuple)
              \<lparr> sharedD = rD,
                retD = fold (\<lambda>pv d. AList.update pv (copyOf rD) d) (parentValueList (tuple # others))
                         (fold (\<lambda>k d. AList.update k [] d) (parentValueList (tuple # others)) []) \<rparr>
             = Inr st"
    by auto
  define st0 where "st0 = \<lparr> sharedD = rD,
                retD = fold (\<lambda>pv d. AList.update pv (copyOf rD) d) (parentValueList (tuple # others))
                         (fold (\<lambda>k d. AList.update k [] d) (parentValueList (tuple # others)) []) \<rparr>"
  have r: "map_of rD (getSchemaName sD t) = None"
    using fold_opt_update_other [of "getSliceExtraSchemaIds sD sliceFilter" "getSchemaName sD"
            "getSchemaName sD t" "extraValue sD data sliceFilter" "[]"] e addExtras_fold [OF x]
    by simp
  have c0: "cellAt st0 w (getSchemaName sD t) = None" for w
    unfolding st0_def by (simp add: start_cell r)
  then have ns: "notShared st0 (getSchemaName sD t)" by (simp add: notShared_def)
  have m: "(t, atL) \<in> set (singleKeys data sliceIndex tuple)" using t by (rule map_of_SomeD)
  have n: "\<forall>kv \<in> set (singleKeys data sliceIndex tuple).
             fst kv \<noteq> t \<longrightarrow> getSchemaName sD (fst kv) \<noteq> getSchemaName sD t"
  proof (intro ballI impI)
    fix kv assume "kv \<in> set (singleKeys data sliceIndex tuple)" and ne: "fst kv \<noteq> t"
    then have "fst kv \<in> fst ` set (singleKeys data sliceIndex tuple)" by simp
    then have "fst kv \<in> fst ` set sliceIndex" using singleKeys_keys [of data sliceIndex tuple] by blast
    then show "getSchemaName sD (fst kv) \<noteq> getSchemaName sD t" using o ne by blast
  qed
  from f have f0: "foldE (placeTable sD data sliceFilter) (singleKeys data sliceIndex tuple) st0 = Inr st"
    by (simp add: st0_def)
  from placeTables_cell [OF f0 singleKeys_distinct m d n ns]
  have "cellAt st v (getSchemaName sD t) =
          fold (\<lambda>r c. if v \<in> set (childValues atL r) \<and> truthy v
                       then placedCell (hasSliceUnitCardinality (getSchemaObject sD t) sliceFilter)
                              (renameRow (getAttributeName_s (getSchemaObject sD t)) r) c
                       else c)
               rows (cellAt st0 v (getSchemaName sD t))"
    by blast
  then show ?thesis by (simp only: c0 placedCell_fold childValues_filter)
qed

text \<open>With one parent item, the tuples of the enumerator hold one value of that item each.\<close>

lemma parentVals_fst: "parentVals spfL sp rows = Inr vals \<Longrightarrow> \<forall>x \<in> set vals. fst x = sp"
proof (induction rows arbitrary: vals)
  case Nil
  then show ?case by simp
next
  case (Cons r rows)
  then show ?case by (auto split: if_splits option.splits sum.splits)
qed

lemma SliceValues_single:
  assumes "getSliceParentItems sD sliceFilter = [p]"
    and "SliceValues data sD sliceFilter = Inr tuples"
  shows "\<forall>tuple \<in> set tuples. \<exists>v. tuple = [(p, v)]"
proof -
  from assms obtain vals where
    a: "addParentItem data (getSliceParentFilters sD sliceFilter) p [] = Inr [(p, vals)]"
    and tu: "tuples = product_lists [vals]"
    by (auto simp: SliceValues_def addParentItem_def split: sum.splits option.splits)
  from a have "\<forall>x \<in> set vals. fst x = p"
    by (auto simp: addParentItem_def dest: parentVals_fst split: sum.splits option.splits)
  then show ?thesis using tu by (auto simp: product_lists_set list_all2_Cons2 intro: prod_eqI)
qed


section \<open>The partitions that the one-pass slice returns\<close>

lemma onePass_parts:
  "sliceRowwiseByNameWithCardOnePass sD data sliceFilter sliceIndex = Inr parts \<Longrightarrow>
   \<exists>st. onePassRun sD data sliceFilter sliceIndex = Inr st \<and> parts = readPartitions st"
  unfolding sliceRowwiseByNameWithCardOnePass_def by (auto split: sum.splits)

section \<open>Slices with one parent item\<close>

lemma run_single:
  assumes run: "onePassRun sD data sliceFilter sliceIndex = Inr st"
    and p: "getSliceParentItems sD sliceFilter = [p]"
  shows "\<exists>v0 others. SliceValues data sD sliceFilter = Inr ([(p, v0)] # others)"
proof -
  from onePassRun_steps [OF run] obtain tuple others where
    s: "SliceValues data sD sliceFilter = Inr (tuple # others)" by blast
  from SliceValues_single [OF p s] obtain v0 where "tuple = [(p, v0)]" by auto
  with s show ?thesis by blast
qed

section \<open>Slice-extra tables\<close>

text \<open>
  C4. The copies of a slice-extra table are not independent. \<^verbatim>\<open>copy.copy(rD)\<close> gives every
  partition a dictionary of its own, but the row list of a slice-extra table is one object
  that all these dictionaries hold. When the one-pass slice returns, a slice-extra table
  with row list \<open>l\<close> (whose name is that of no other slice-extra table and of no table of
  the slice index) is read as \<open>l\<close> in the partitions of any two parent values \<open>v\<close> and \<open>w\<close>;
  and appending a row to the table in the partition of \<open>v\<close>, as the function itself does by
  \<^verbatim>\<open>retD[rv].setdefault(schemaObjName, []).append(oRowD)\<close>, succeeds and makes the partition
  of \<open>w\<close> read \<open>l\<close> followed by that row.
\<close>

theorem slice_extra_shared:
  assumes "onePassRun sD schemaDataDictById sliceFilter sliceIndex = Inr st"
    and "schemaId \<in> set (getSliceExtraSchemaIds sD sliceFilter)"
    and "\<forall>x \<in> set (getSliceExtraSchemaIds sD sliceFilter).
           getSchemaName sD x = getSchemaName sD schemaId \<longrightarrow> x = schemaId"
    and "\<forall>x \<in> fst ` set sliceIndex. getSchemaName sD x \<noteq> getSchemaName sD schemaId"
    and "extraValue sD schemaDataDictById sliceFilter schemaId = Some (TRows l)"
    and "v \<in> fst ` set (retD st)" and "w \<in> fst ` set (retD st)" and "truthy v"
  shows "readAt st v (getSchemaName sD schemaId) = Some (TRows l)
       \<and> readAt st w (getSchemaName sD schemaId) = Some (TRows l)
       \<and> (\<exists>st'. placeRow False (getSchemaName sD schemaId) oRowD v st = Inr st'
              \<and> readAt st' w (getSchemaName sD schemaId) = Some (TRows (l @ [oRowD])))"
proof -
  define n where "n = getSchemaName sD schemaId"
  from run_extra [OF assms(1,2,3,4)] assms(5)
  have sh: "map_of (sharedD st) n = Some (TRows l)"
    and c: "\<And>x. x \<in> fst ` set (retD st) \<Longrightarrow> cellAt st x n = Some CShared"
    unfolding n_def by simp_all
  have rv: "readAt st v n = Some (TRows l)" using c [OF assms(6)] sh by (simp add: readAt_def readCell_def)
  have rw: "readAt st w n = Some (TRows l)" using c [OF assms(7)] sh by (simp add: readAt_def readCell_def)
  from c [OF assms(6)] obtain part where p: "map_of (retD st) v = Some part" "map_of part n = Some CShared"
    by (auto simp: cellAt_def split: option.splits)
  define st' where "st' = st\<lparr>sharedD := AList.update n (TRows (l @ [oRowD])) (sharedD st)\<rparr>"
  have pl: "placeRow False n oRowD v st = Inr st'"
    unfolding placeRow_def st'_def using assms(8) p sh by simp
  have "cellAt st' w n = Some CShared" using c [OF assms(7)] by (simp add: st'_def cellAt_def)
  moreover have "map_of (sharedD st') n = Some (TRows (l @ [oRowD]))" by (simp add: st'_def update_conv')
  ultimately have "readAt st' w n = Some (TRows (l @ [oRowD]))" by (simp add: readAt_def readCell_def)
  with pl rv rw show ?thesis unfolding n_def by blast
qed

theorem slice_extra_shared_witness:
  "onePassRun ex_access ex_tables ''ENTITY'' (getSliceIndex ex_access ''ENTITY'') = Inr ex_state
   \<and> ''ENTITY'' \<in> set (getSliceExtraSchemaIds ex_access ''ENTITY'')
   \<and> getSchemaName ex_access ''ENTITY'' = ''entity''
   \<and> extraValue ex_access ex_tables ''ENTITY'' ''ENTITY''
       = Some (TRows [[(''id'', VStr ''1''), (''type'', VStr ''polymer'')],
                      [(''id'', VStr ''2''), (''type'', VStr ''water'')]])
   \<and> VStr ''1'' \<in> fst ` set (retD ex_state) \<and> VStr ''2'' \<in> fst ` set (retD ex_state)
   \<and> truthy (VStr ''1'')
   \<and> readAt ex_state (VStr ''2'') (getSchemaName ex_access ''ENTITY'')
       = Some (TRows [[(''id'', VStr ''1''), (''type'', VStr ''polymer'')],
                      [(''id'', VStr ''2''), (''type'', VStr ''water'')]])
   \<and> (\<exists>st'. placeRow False (getSchemaName ex_access ''ENTITY'') [(''id'', VStr ''3'')] (VStr ''1'') ex_state
               = Inr st'
          \<and> readAt st' (VStr ''2'') (getSchemaName ex_access ''ENTITY'')
               = Some (TRows ([[(''id'', VStr ''1''), (''type'', VStr ''polymer'')],
                               [(''id'', VStr ''2''), (''type'', VStr ''water'')]] @ [[(''id'', VStr ''3'')]])))
   \<and> sliceRowwiseByNameWithCardOnePass ex_access_own ex_tables ''ENTITY''
       (getSliceIndex ex_access_own ''ENTITY'')
     = Inr [[(''entity'', TRows [[(''id'', VStr ''1''), (''type'', VStr ''polymer'')],
                                 [(''id'', VStr ''2''), (''type'', VStr ''water'')],
                                 [(''id'', VStr ''1''), (''type'', VStr ''polymer'')],
                                 [(''id'', VStr ''2''), (''type'', VStr ''water'')]]),
             (''entity_poly'', TRow [(''entity_id'', VStr ''1''), (''seq'', VStr ''ACD'')])],
            [(''entity'', TRows [[(''id'', VStr ''1''), (''type'', VStr ''polymer'')],
                                 [(''id'', VStr ''2''), (''type'', VStr ''water'')],
                                 [(''id'', VStr ''1''), (''type'', VStr ''polymer'')],
                                 [(''id'', VStr ''2''), (''type'', VStr ''water'')]])]]"
proof -
  have r: "onePassRun ex_access ex_tables ''ENTITY'' (getSliceIndex ex_access ''ENTITY'') = Inr ex_state"
    by code_simp
  have t: "''ENTITY'' \<in> set (getSliceExtraSchemaIds ex_access ''ENTITY'')" by (simp add: ex_access_def)
  have n: "getSchemaName ex_access ''ENTITY'' = ''entity''" by (simp add: ex_access_def)
  have u: "\<forall>x \<in> set (getSliceExtraSchemaIds ex_access ''ENTITY'').
           getSchemaName ex_access x = getSchemaName ex_access ''ENTITY'' \<longrightarrow> x = ''ENTITY''"
    by (simp add: ex_access_def)
  have o: "\<forall>x \<in> fst ` set (getSliceIndex ex_access ''ENTITY'').
             getSchemaName ex_access x \<noteq> getSchemaName ex_access ''ENTITY''"
    by (simp add: ex_access_def)
  have e: "extraValue ex_access ex_tables ''ENTITY'' ''ENTITY''
       = Some (TRows [[(''id'', VStr ''1''), (''type'', VStr ''polymer'')],
                      [(''id'', VStr ''2''), (''type'', VStr ''water'')]])"
    by code_simp
  have k1: "VStr ''1'' \<in> fst ` set (retD ex_state)" by (simp add: ex_state_def)
  have k2: "VStr ''2'' \<in> fst ` set (retD ex_state)" by (simp add: ex_state_def)
  have tr: "truthy (VStr ''1'')" by (simp add: truthy_def)
  have own: "sliceRowwiseByNameWithCardOnePass ex_access_own ex_tables ''ENTITY''
       (getSliceIndex ex_access_own ''ENTITY'')
     = Inr [[(''entity'', TRows [[(''id'', VStr ''1''), (''type'', VStr ''polymer'')],
                                 [(''id'', VStr ''2''), (''type'', VStr ''water'')],
                                 [(''id'', VStr ''1''), (''type'', VStr ''polymer'')],
                                 [(''id'', VStr ''2''), (''type'', VStr ''water'')]]),
             (''entity_poly'', TRow [(''entity_id'', VStr ''1''), (''seq'', VStr ''ACD'')])],
            [(''entity'', TRows [[(''id'', VStr ''1''), (''type'', VStr ''polymer'')],
                                 [(''id'', VStr ''2''), (''type'', VStr ''water'')],
                                 [(''id'', VStr ''1''), (''type'', VStr ''polymer'')],
                                 [(''id'', VStr ''2''), (''type'', VStr ''water'')]])]]"
    by code_simp
  note th = slice_extra_shared [OF r t u o e k1 k2 tr, of "[(''id'', VStr ''3'')]"]
  show ?thesis
    apply (rule conjI, rule r)
    apply (rule conjI, rule t)
    apply (rule conjI, rule n)
    apply (rule conjI, rule e)
    apply (rule conjI, rule k1)
    apply (rule conjI, rule k2)
    apply (rule conjI, rule tr)
    apply (rule conjI, rule th [THEN conjunct2, THEN conjunct1])
    apply (rule conjI, rule th [THEN conjunct2, THEN conjunct2])
    apply (rule own)
    done
qed

section \<open>Rows that follow no parent value\<close>

text \<open>
  C3. A row that matches no parent value is not left out of the partitions: the one-pass
  slice raises. Take a slice with one parent item and a table of the record set that has
  an entry in the slice index with child attributes for that parent item (its name being
  that of no slice-extra table and of no other table of the slice index). If a row of the
  table holds, in one of the child attributes, a non-empty value that is no value of the
  enumerator, then \<^verbatim>\<open>retD[rv]\<close> has no such key and the function returns no partition at
  all, whereas the membership test of the slice by tuples only leaves such a row out.
\<close>

theorem unmatched_row_raises:
  assumes "SliceValues schemaDataDictById sD sliceFilter = Inr tuples"
    and "getSliceParentItems sD sliceFilter = [p]"
    and "distinct (map fst sliceIndex)"
    and "map_of sliceIndex schemaId = Some mD"
    and "map_of mD p = Some cAtIds"
    and "map_of schemaDataDictById schemaId = Some iRowDList"
    and "\<forall>x \<in> set (getSliceExtraSchemaIds sD sliceFilter). getSchemaName sD x \<noteq> getSchemaName sD schemaId"
    and "\<forall>x \<in> fst ` set sliceIndex. x \<noteq> schemaId \<longrightarrow> getSchemaName sD x \<noteq> getSchemaName sD schemaId"
    and "iRowD \<in> set iRowDList" and "cAtId \<in> set cAtIds" and "map_of iRowD cAtId = Some w"
    and "truthy w" and "w \<notin> set (parentValueList tuples)"
  shows "\<exists>e. sliceRowwiseByNameWithCardOnePass sD schemaDataDictById sliceFilter sliceIndex = Inl e"
proof -
  have no: "onePassRun sD schemaDataDictById sliceFilter sliceIndex \<noteq> Inr st" for st
  proof
    assume run: "onePassRun sD schemaDataDictById sliceFilter sliceIndex = Inr st"
    from run_single [OF run assms(2)] obtain v0 others where
      s: "SliceValues schemaDataDictById sD sliceFilter = Inr ([(p, v0)] # others)" by blast
    have k: "map_of (singleKeys schemaDataDictById sliceIndex [(p, v0)]) schemaId = Some cAtIds"
      using assms(4,5,6) by (simp add: singleKeys_single [OF assms(3)])
    have c: "cellAt st w (getSchemaName sD schemaId) =
               placedRows (hasSliceUnitCardinality (getSchemaObject sD schemaId) sliceFilter)
                 (map (renameRow (getAttributeName_s (getSchemaObject sD schemaId)))
                      (filter (\<lambda>r. truthy w \<and> follows cAtIds w r) iRowDList))"
      by (rule run_indexed [OF run s k assms(6,7,8)])
    have "follows cAtIds w iRowD" using assms(10,11) by (auto simp: follows_def list_ex_iff)
    then have "iRowD \<in> set (filter (\<lambda>r. truthy w \<and> follows cAtIds w r) iRowDList)"
      using assms(9,12) by simp
    then have "filter (\<lambda>r. truthy w \<and> follows cAtIds w r) iRowDList \<noteq> []"
      by (metis empty_iff list.set(1))
    then have "cellAt st w (getSchemaName sD schemaId) \<noteq> None"
      unfolding c by (simp add: placedRows_def)
    then have "map_of (retD st) w \<noteq> None" by (auto simp: cellAt_def split: option.splits)
    then have "w \<in> fst ` set (retD st)" by (simp add: map_of_eq_None_iff)
    moreover from run_keys [OF run] assms(1)
    have "fst ` set (retD st) = set (parentValueList tuples)" by auto
    ultimately show False using assms(13) by simp
  qed
  then obtain e where "onePassRun sD schemaDataDictById sliceFilter sliceIndex = Inl e"
    by (cases "onePassRun sD schemaDataDictById sliceFilter sliceIndex") auto
  then show ?thesis by (simp add: sliceRowwiseByNameWithCardOnePass_def)
qed

theorem unmatched_row_raises_witness:
  "SliceValues ex_tables_unmatched ex_access ''ENTITY''
     = Inr [[((''ENTITY'', ''ID''), VStr ''1'')], [((''ENTITY'', ''ID''), VStr ''2'')]]
   \<and> getSliceParentItems ex_access ''ENTITY'' = [(''ENTITY'', ''ID'')]
   \<and> map_of (getSliceIndex ex_access ''ENTITY'') ''ENTITY_POLY'' = Some [((''ENTITY'', ''ID''), [''ENTITY_ID''])]
   \<and> [(''ENTITY_ID'', VStr ''3''), (''SEQ'', VStr ''GGG'')]
        \<in> set [[(''ENTITY_ID'', VStr ''1''), (''SEQ'', VStr ''ACD'')],
                [(''ENTITY_ID'', VStr ''3''), (''SEQ'', VStr ''GGG'')]]
   \<and> map_of ex_tables_unmatched ''ENTITY_POLY''
       = Some [[(''ENTITY_ID'', VStr ''1''), (''SEQ'', VStr ''ACD'')],
               [(''ENTITY_ID'', VStr ''3''), (''SEQ'', VStr ''GGG'')]]
   \<and> VStr ''3'' \<notin> set (parentValueList [[((''ENTITY'', ''ID''), VStr ''1'')], [((''ENTITY'', ''ID''), VStr ''2'')]])
   \<and> (\<exists>e. sliceRowwiseByNameWithCardOnePass ex_access ex_tables_unmatched ''ENTITY''
              (getSliceIndex ex_access ''ENTITY'') = Inl e)
   \<and> sliceRowwiseByNameWithCardOnePass ex_access ex_tables_unmatched ''ENTITY''
        (getSliceIndex ex_access ''ENTITY'') = Inl KeyError
   \<and> applySlicedShape ex_access ex_tables_unmatched ''rowwise_by_name_with_cardinality'' (Some ''ENTITY'')
       = Inl KeyError
   \<and> inSlice ''ENTITY_POLY'' (getSliceIndex ex_access ''ENTITY'')
        [(''ENTITY_ID'', VStr ''3''), (''SEQ'', VStr ''GGG'')] [((''ENTITY'', ''ID''), VStr ''1'')] = False
   \<and> inSlice ''ENTITY_POLY'' (getSliceIndex ex_access ''ENTITY'')
        [(''ENTITY_ID'', VStr ''3''), (''SEQ'', VStr ''GGG'')] [((''ENTITY'', ''ID''), VStr ''2'')] = False
   \<and> applySlicedShape ex_access ex_tables_unmatched ''rowwise_by_name'' (Some ''ENTITY'')
       = Inr ([[(''entity'', TRows [[(''id'', VStr ''1''), (''type'', VStr ''polymer'')],
                                    [(''id'', VStr ''2''), (''type'', VStr ''water'')]]),
                (''entity_poly'', TRows [[(''entity_id'', VStr ''1''), (''seq'', VStr ''ACD'')]])],
               [(''entity'', TRows [[(''id'', VStr ''1''), (''type'', VStr ''polymer'')],
                                    [(''id'', VStr ''2''), (''type'', VStr ''water'')]])]], [])"
proof -
  have s: "SliceValues ex_tables_unmatched ex_access ''ENTITY''
     = Inr [[((''ENTITY'', ''ID''), VStr ''1'')], [((''ENTITY'', ''ID''), VStr ''2'')]]" by code_simp
  have p: "getSliceParentItems ex_access ''ENTITY'' = [(''ENTITY'', ''ID'')]" by (simp add: ex_access_def)
  have d: "distinct (map fst (getSliceIndex ex_access ''ENTITY''))" by (simp add: ex_access_def)
  have i: "map_of (getSliceIndex ex_access ''ENTITY'') ''ENTITY_POLY'' = Some [((''ENTITY'', ''ID''), [''ENTITY_ID''])]"
    by (simp add: ex_access_def)
  have c: "map_of [((''ENTITY'', ''ID''), [''ENTITY_ID''])] (''ENTITY'', ''ID'') = Some [''ENTITY_ID'']" by simp
  have t: "map_of ex_tables_unmatched ''ENTITY_POLY''
       = Some [[(''ENTITY_ID'', VStr ''1''), (''SEQ'', VStr ''ACD'')],
               [(''ENTITY_ID'', VStr ''3''), (''SEQ'', VStr ''GGG'')]]"
    by (simp add: ex_tables_unmatched_def)
  have e: "\<forall>x \<in> set (getSliceExtraSchemaIds ex_access ''ENTITY'').
             getSchemaName ex_access x \<noteq> getSchemaName ex_access ''ENTITY_POLY''"
    by (simp add: ex_access_def)
  have o: "\<forall>x \<in> fst ` set (getSliceIndex ex_access ''ENTITY'').
             x \<noteq> ''ENTITY_POLY'' \<longrightarrow> getSchemaName ex_access x \<noteq> getSchemaName ex_access ''ENTITY_POLY''"
    by (simp add: ex_access_def)
  have r: "[(''ENTITY_ID'', VStr ''3''), (''SEQ'', VStr ''GGG'')]
        \<in> set [[(''ENTITY_ID'', VStr ''1''), (''SEQ'', VStr ''ACD'')],
                [(''ENTITY_ID'', VStr ''3''), (''SEQ'', VStr ''GGG'')]]" by simp
  have a: "''ENTITY_ID'' \<in> set [''ENTITY_ID'']" by simp
  have m: "map_of [(''ENTITY_ID'', VStr ''3''), (''SEQ'', VStr ''GGG'')] ''ENTITY_ID'' = Some (VStr ''3'')" by simp
  have tr: "truthy (VStr ''3'')" by (simp add: truthy_def)
  have n: "VStr ''3'' \<notin> set (parentValueList [[((''ENTITY'', ''ID''), VStr ''1'')], [((''ENTITY'', ''ID''), VStr ''2'')]])"
    by (simp add: parentValueList_def)
  have k: "sliceRowwiseByNameWithCardOnePass ex_access ex_tables_unmatched ''ENTITY''
        (getSliceIndex ex_access ''ENTITY'') = Inl KeyError" by code_simp
  have ap: "applySlicedShape ex_access ex_tables_unmatched ''rowwise_by_name_with_cardinality'' (Some ''ENTITY'')
       = Inl KeyError" by code_simp
  have i1: "inSlice ''ENTITY_POLY'' (getSliceIndex ex_access ''ENTITY'')
        [(''ENTITY_ID'', VStr ''3''), (''SEQ'', VStr ''GGG'')] [((''ENTITY'', ''ID''), VStr ''1'')] = False"
    by code_simp
  have i2: "inSlice ''ENTITY_POLY'' (getSliceIndex ex_access ''ENTITY'')
        [(''ENTITY_ID'', VStr ''3''), (''SEQ'', VStr ''GGG'')] [((''ENTITY'', ''ID''), VStr ''2'')] = False"
    by code_simp
  have nv: "applySlicedShape ex_access ex_tables_unmatched ''rowwise_by_name'' (Some ''ENTITY'')
       = Inr ([[(''entity'', TRows [[(''id'', VStr ''1''), (''type'', VStr ''polymer'')],
                                    [(''id'', VStr ''2''), (''type'', VStr ''water'')]]),
                (''entity_poly'', TRows [[(''entity_id'', VStr ''1''), (''seq'', VStr ''ACD'')]])],
               [(''entity'', TRows [[(''id'', VStr ''1''), (''type'', VStr ''polymer'')],
                                    [(''id'', VStr ''2''), (''type'', VStr ''water'')]])]], [])"
    by code_simp
  note th = unmatched_row_raises [OF s p d i c t e o r a m tr n]
  show ?thesis
    apply (rule conjI, rule s)
    apply (rule conjI, rule p)
    apply (rule conjI, rule i)
    apply (rule conjI, rule r)
    apply (rule conjI, rule t)
    apply (rule conjI, rule n)
    apply (rule conjI, rule th)
    apply (rule conjI, rule k)
    apply (rule conjI, rule ap)
    apply (rule conjI, rule i1)
    apply (rule conjI, rule i2)
    apply (rule nv)
    done
qed

section \<open>The one-pass slice against the slice by tuples\<close>

text \<open>
  C2. The one-pass slice is not equivalent to the slice by parent value tuples. The slice
  by tuples always returns, with one partition for every tuple of the enumerator. The
  one-pass slice raises \<open>StopIteration\<close> when the enumerator has no tuple, where the slice
  by tuples returns the empty list; and when it returns, it returns one partition for
  every distinct parent value, not one for every tuple.
\<close>

theorem one_pass_differs_from_tuples:
  "(\<exists>docs log. slicesPerTuple sD schemaDataDictById sliceFilter sliceIndex
                  ''rowwise_by_name_with_cardinality'' tuples = Inr (docs, log)
               \<and> length docs = length tuples)
   \<and> (SliceValues schemaDataDictById sD sliceFilter = Inr [] \<longrightarrow>
        sliceRowwiseByNameWithCardOnePass sD schemaDataDictById sliceFilter sliceIndex = Inl StopIteration
      \<and> slicesPerTuple sD schemaDataDictById sliceFilter sliceIndex
           ''rowwise_by_name_with_cardinality'' [] = Inr ([], []))
   \<and> (\<forall>parts. SliceValues schemaDataDictById sD sliceFilter = Inr tuples
           \<and> sliceRowwiseByNameWithCardOnePass sD schemaDataDictById sliceFilter sliceIndex = Inr parts \<longrightarrow>
        length parts = card (set (parentValueList tuples)))"
proof (intro conjI impI allI)
  show "\<exists>docs log. slicesPerTuple sD schemaDataDictById sliceFilter sliceIndex
                  ''rowwise_by_name_with_cardinality'' tuples = Inr (docs, log)
               \<and> length docs = length tuples"
    by (rule slicesPerTuple_total)
next
  assume "SliceValues schemaDataDictById sD sliceFilter = Inr []"
  then have "onePassRun sD schemaDataDictById sliceFilter sliceIndex = Inl StopIteration"
    by (simp add: onePassRun_def parentValueList_def)
  then show "sliceRowwiseByNameWithCardOnePass sD schemaDataDictById sliceFilter sliceIndex = Inl StopIteration"
    by (simp add: sliceRowwiseByNameWithCardOnePass_def)
next
  show "slicesPerTuple sD schemaDataDictById sliceFilter sliceIndex
           ''rowwise_by_name_with_cardinality'' [] = Inr ([], [])" by simp
next
  fix parts
  assume a: "SliceValues schemaDataDictById sD sliceFilter = Inr tuples
           \<and> sliceRowwiseByNameWithCardOnePass sD schemaDataDictById sliceFilter sliceIndex = Inr parts"
  from a onePass_parts obtain st where
    run: "onePassRun sD schemaDataDictById sliceFilter sliceIndex = Inr st"
    and p: "parts = readPartitions st" by blast
  from run_keys [OF run] a
  have k: "fst ` set (retD st) = set (parentValueList tuples)" "distinct (map fst (retD st))" by auto
  have "length parts = length (map fst (retD st))" using p by (simp add: readPartitions_def)
  also have "\<dots> = card (set (map fst (retD st)))" using distinct_card [OF k(2)] by simp
  also have "\<dots> = card (set (parentValueList tuples))" using k(1) by simp
  finally show "length parts = card (set (parentValueList tuples))" .
qed

theorem one_pass_differs_from_tuples_witness:
  "SliceValues ex_tables_orphan ex_access ''ENTITY'' = Inr []
   \<and> sliceRowwiseByNameWithCardOnePass ex_access ex_tables_orphan ''ENTITY''
        (getSliceIndex ex_access ''ENTITY'') = Inl StopIteration
   \<and> slicesPerTuple ex_access ex_tables_orphan ''ENTITY'' (getSliceIndex ex_access ''ENTITY'')
        ''rowwise_by_name_with_cardinality'' [] = Inr ([], [])
   \<and> SliceValues ex_tables_two ex_access ''ENTITY''
       = Inr [[((''ENTITY'', ''ID''), VStr ''1'')], [((''ENTITY'', ''ID''), VStr ''1'')]]
   \<and> sliceRowwiseByNameWithCardOnePass ex_access ex_tables_two ''ENTITY'' (getSliceIndex ex_access ''ENTITY'')
       = Inr [[(''entity'', TRows [[(''id'', VStr ''1''), (''type'', VStr ''polymer'')],
                                   [(''id'', VStr ''1''), (''type'', VStr ''polymer'')]])]]
   \<and> length [[(''entity'', TRows [[(''id'', VStr ''1''), (''type'', VStr ''polymer'')],
                                   [(''id'', VStr ''1''), (''type'', VStr ''polymer'')]])]]
       = card (set (parentValueList [[((''ENTITY'', ''ID''), VStr ''1'')], [((''ENTITY'', ''ID''), VStr ''1'')]]))
   \<and> slicesPerTuple ex_access ex_tables_two ''ENTITY'' (getSliceIndex ex_access ''ENTITY'')
        ''rowwise_by_name_with_cardinality''
        [[((''ENTITY'', ''ID''), VStr ''1'')], [((''ENTITY'', ''ID''), VStr ''1'')]]
       = Inr ([[(''entity'', TRows [[(''id'', VStr ''1''), (''type'', VStr ''polymer'')],
                                    [(''id'', VStr ''1''), (''type'', VStr ''polymer'')]])],
               [(''entity'', TRows [[(''id'', VStr ''1''), (''type'', VStr ''polymer'')],
                                    [(''id'', VStr ''1''), (''type'', VStr ''polymer'')]])]], [])
   \<and> sliceRowwiseByNameWithCardOnePass ex_access ex_tables_unmatched ''ENTITY''
        (getSliceIndex ex_access ''ENTITY'') = Inl KeyError
   \<and> slicesPerTuple ex_access ex_tables_unmatched ''ENTITY'' (getSliceIndex ex_access ''ENTITY'')
        ''rowwise_by_name_with_cardinality''
        [[((''ENTITY'', ''ID''), VStr ''1'')], [((''ENTITY'', ''ID''), VStr ''2'')]]
       = Inr ([[(''entity'', TRows [[(''id'', VStr ''1''), (''type'', VStr ''polymer'')],
                                    [(''id'', VStr ''2''), (''type'', VStr ''water'')]]),
                (''entity_poly'', TRow [(''entity_id'', VStr ''1''), (''seq'', VStr ''ACD'')])],
               [(''entity'', TRows [[(''id'', VStr ''1''), (''type'', VStr ''polymer'')],
                                    [(''id'', VStr ''2''), (''type'', VStr ''water'')]])]], [])"
proof -
  have s0: "SliceValues ex_tables_orphan ex_access ''ENTITY'' = Inr []" by code_simp
  have s2: "SliceValues ex_tables_two ex_access ''ENTITY''
       = Inr [[((''ENTITY'', ''ID''), VStr ''1'')], [((''ENTITY'', ''ID''), VStr ''1'')]]" by code_simp
  have p2: "sliceRowwiseByNameWithCardOnePass ex_access ex_tables_two ''ENTITY'' (getSliceIndex ex_access ''ENTITY'')
       = Inr [[(''entity'', TRows [[(''id'', VStr ''1''), (''type'', VStr ''polymer'')],
                                   [(''id'', VStr ''1''), (''type'', VStr ''polymer'')]])]]" by code_simp
  have n2: "slicesPerTuple ex_access ex_tables_two ''ENTITY'' (getSliceIndex ex_access ''ENTITY'')
        ''rowwise_by_name_with_cardinality''
        [[((''ENTITY'', ''ID''), VStr ''1'')], [((''ENTITY'', ''ID''), VStr ''1'')]]
       = Inr ([[(''entity'', TRows [[(''id'', VStr ''1''), (''type'', VStr ''polymer'')],
                                    [(''id'', VStr ''1''), (''type'', VStr ''polymer'')]])],
               [(''entity'', TRows [[(''id'', VStr ''1''), (''type'', VStr ''polymer'')],
                                    [(''id'', VStr ''1''), (''type'', VStr ''polymer'')]])]], [])" by code_simp
  have k: "sliceRowwiseByNameWithCardOnePass ex_access ex_tables_unmatched ''ENTITY''
        (getSliceIndex ex_access ''ENTITY'') = Inl KeyError" by code_simp
  have nk: "slicesPerTuple ex_access ex_tables_unmatched ''ENTITY'' (getSliceIndex ex_access ''ENTITY'')
        ''rowwise_by_name_with_cardinality''
        [[((''ENTITY'', ''ID''), VStr ''1'')], [((''ENTITY'', ''ID''), VStr ''2'')]]
       = Inr ([[(''entity'', TRows [[(''id'', VStr ''1''), (''type'', VStr ''polymer'')],
                                    [(''id'', VStr ''2''), (''type'', VStr ''water'')]]),
                (''entity_poly'', TRow [(''entity_id'', VStr ''1''), (''seq'', VStr ''ACD'')])],
               [(''entity'', TRows [[(''id'', VStr ''1''), (''type'', VStr ''polymer'')],
                                    [(''id'', VStr ''2''), (''type'', VStr ''water'')]])]], [])" by code_simp
  note a = one_pass_differs_from_tuples [of ex_access ex_tables_orphan "''ENTITY''"
             "getSliceIndex ex_access ''ENTITY''" "[]", THEN conjunct2, THEN conjunct1, THEN mp, OF s0]
  note b = one_pass_differs_from_tuples [of ex_access ex_tables_two "''ENTITY''"
             "getSliceIndex ex_access ''ENTITY''"
             "[[((''ENTITY'', ''ID''), VStr ''1'')], [((''ENTITY'', ''ID''), VStr ''1'')]]",
             THEN conjunct2, THEN conjunct2, THEN spec, THEN mp, OF conjI [OF s2 p2]]
  show ?thesis
    apply (rule conjI, rule s0)
    apply (rule conjI, rule a [THEN conjunct1])
    apply (rule conjI, rule a [THEN conjunct2])
    apply (rule conjI, rule s2)
    apply (rule conjI, rule p2)
    apply (rule conjI, rule b)
    apply (rule conjI, rule n2)
    apply (rule conjI, rule k)
    apply (rule nk)
    done
qed

end
